(* ===== verification/Prelude.thy ===== *)
theory Prelude
  imports Main "HOL-Library.Word" "HOL-Library.AList"
begin

text \<open>
  Shared vocabulary of the development. A Python \<open>str\<close> is a sequence of Unicode code
  points, so it is modelled as a list of natural numbers (\<open>pystr\<close>); literals of the
  script are written with \<open>py\<close>, which turns an ASCII HOL string into its code points.
  Bytes on disk are \<open>8 word\<close>s. The collection \<open>pystr_simps\<close> gathers the rules that
  evaluate model strings; the lemmas below are the generic facts on lists and options
  that the component theories share.
\<close>

named_theorems pystr_simps "rules that evaluate Python string values of the model"

type_synonym codepoint = nat
type_synonym pystr = "codepoint list"
type_synonym byte = "8 word"
type_synonym bytes = "byte list"

definition py :: "string \<Rightarrow> pystr" where
  "py s = map of_char s"

text \<open>
  Python's truth value of the result of \<open>page.extract_text()\<close>, which is a \<open>str\<close> or
  \<open>None\<close>: \<open>None\<close> and the empty string are false.
\<close>

definition py_truthy :: "pystr option \<Rightarrow> bool" where
  "py_truthy v = (case v of None \<Rightarrow> False | Some s \<Rightarrow> s \<noteq> [])"

text \<open>Every Python \<open>str\<close> holds code points below \<open>0x110000\<close>.\<close>

definition valid_pystr :: "pystr \<Rightarrow> bool" where
  "valid_pystr s = (\<forall>c\<in>set s. c < 1114112)"

definition newline :: pystr where
  "newline = [10]"

text \<open>
  Python statements in sequence: an exception raised by one (an \<open>Inl\<close>, with the
  state at that point) skips the rest.
\<close>

definition res_bind :: "'e + 'a \<Rightarrow> ('a \<Rightarrow> 'e + 'b) \<Rightarrow> 'e + 'b" where
  "res_bind r f = (case r of Inl e \<Rightarrow> Inl e | Inr a \<Rightarrow> f a)"

subsection \<open>Generic lemmas\<close>

lemma res_bind_simps [simp]:
  "res_bind (Inl e) f = Inl e"
  "res_bind (Inr a) f = f a"
  by (simp_all add: res_bind_def)


lemma py_Nil [simp, pystr_simps]: "py [] = []"
  by (simp add: py_def)

lemma py_Cons [pystr_simps]: "py (c # s) = of_char c # py s"
  by (simp add: py_def)

lemma py_append [simp]: "py (s @ t) = py s @ py t"
  by (simp add: py_def)

lemma length_py [simp]: "length (py s) = length s"
  by (simp add: py_def)

lemma py_eq_Nil_iff [simp]: "py s = [] \<longleftrightarrow> s = []"
  by (simp add: py_def)

lemma of_char_nat_less: "(of_char c :: nat) < 256"
proof -
  have "(of_char c :: nat) = of_char c mod 256" by simp
  also have "\<dots> < 256" by simp
  finally show ?thesis .
qed

lemma py_truthy_simps [simp]:
  "py_truthy None = False"
  "py_truthy (Some s) = (s \<noteq> [])"
  by (simp_all add: py_truthy_def)

lemma py_truthy_iff: "py_truthy v \<longleftrightarrow> (\<exists>s. v = Some s \<and> s \<noteq> [])"
  by (cases v) simp_all

lemma valid_pystr_simps [simp]:
  "valid_pystr []"
  "valid_pystr (c # s) \<longleftrightarrow> c < 1114112 \<and> valid_pystr s"
  "valid_pystr (s @ t) \<longleftrightarrow> valid_pystr s \<and> valid_pystr t"
  by (auto simp: valid_pystr_def)

lemma valid_pystr_py [simp]: "valid_pystr (py s)"
proof (induction s)
  case (Cons c s)
  have "(of_char c :: nat) < 1114112"
    using of_char_nat_less [of c] by linarith
  with Cons show ?case by (simp add: py_Cons)
qed simp

lemma valid_pystr_take [intro]: "valid_pystr s \<Longrightarrow> valid_pystr (take n s)"
  by (auto simp: valid_pystr_def dest: in_set_takeD)

lemma length_newline [simp]: "length newline = 1"
  by (simp add: newline_def)

lemma valid_newline [simp]: "valid_pystr newline"
  by (simp add: newline_def)

text \<open>Sums of lengths over concatenations, used by every length bound.\<close>

lemma length_concat_map_sum: "length (concat (map f xs)) = (\<Sum>x\<leftarrow>xs. length (f x))"
  by (induction xs) simp_all

lemma length_takeWhile_eq_iff: "length (takeWhile P xs) = length xs \<longleftrightarrow> (\<forall>x\<in>set xs. P x)"
  by (induction xs) auto

lemma nth_takeWhile_prop: "j < length (takeWhile P xs) \<Longrightarrow> P (xs ! j)"
  by (metis nth_mem set_takeWhileD takeWhile_nth)

lemma sorted_wrt_less_map_Suc: "sorted_wrt (<) xs \<Longrightarrow> sorted_wrt (<) (map Suc xs)"
  by (induction xs) auto

end
