(* ===== verification/PyFormat.thy ===== *)
theory PyFormat
  imports Prelude
begin

text \<open>
  The Python formatting the script relies on: \<open>str(n)\<close> of a non-negative \<open>int\<close>
  inside its f-strings (\<open>{i+1}\<close>, \<open>{len(reader.pages)}\<close>, \<open>{len(text)}\<close>), the
  four-digit hexadecimal escape of \<open>repr\<close>, and \<open>str(e)\<close> of the exceptions that
  reach the \<open>except Exception\<close> handler of \<open>main\<close>. \<open>parse_decimal\<close> is the
  reading of a decimal numeral back; with it the theory proves that \<open>str\<close> on naturals
  is a canonical, invertible encoding.
\<close>

subsection \<open>Decimal numerals\<close>

definition is_digit :: "codepoint \<Rightarrow> bool" where
  "is_digit c = (48 \<le> c \<and> c < 58)"

fun str_nat :: "nat \<Rightarrow> pystr" where
  "str_nat n = (if n < 10 then [48 + n] else str_nat (n div 10) @ [48 + n mod 10])"

declare str_nat.simps [simp del]

definition digit_step :: "nat \<Rightarrow> codepoint \<Rightarrow> nat" where
  "digit_step acc c = 10 * acc + (c - 48)"

definition parse_decimal :: "pystr \<Rightarrow> nat option" where
  "parse_decimal s =
     (if s \<noteq> [] \<and> (\<forall>c\<in>set s. is_digit c) then Some (foldl digit_step 0 s) else None)"

subsection \<open>Exceptions and their messages\<close>

text \<open>
  The exceptions the handler can catch: whatever \<open>pypdf\<close> raises (kept as its
  message), an \<open>OSError\<close> of \<open>open\<close> (errno, strerror, filename), and the
  \<open>UnicodeEncodeError\<close> of the UTF-8 codec (the string and the first run
  \<open>[start, end)\<close> of code points it cannot encode).
\<close>

datatype py_exc =
    PdfError pystr
  | OSError nat pystr pystr
  | UnicodeEncodeError pystr nat nat

definition quote :: pystr where
  "quote = [39]"

definition hex_digit :: "nat \<Rightarrow> codepoint" where
  "hex_digit d = (if d < 10 then 48 + d else 87 + d)"

definition hex4 :: "nat \<Rightarrow> pystr" where
  "hex4 c = map (\<lambda>k. hex_digit (c div 16 ^ k mod 16)) [3, 2, 1, 0]"

text \<open>
  \<open>str(e)\<close>: CPython's \<open>OSError.__str__\<close> is \<open>[Errno n] strerror: 'filename'\<close>
  (the filename through \<open>repr\<close>, here quoted without escaping), and
  \<open>UnicodeEncodeError.__str__\<close> names one character as \<open>'\<backslash>uXXXX'\<close> or a range
  of positions.
\<close>

fun exc_str :: "py_exc \<Rightarrow> pystr" where
  "exc_str (PdfError m) = m"
| "exc_str (OSError n msg fname) =
     py ''[Errno '' @ str_nat n @ py ''] '' @ msg @ py '': '' @ quote @ fname @ quote"
| "exc_str (UnicodeEncodeError s a b) =
     quote @ py ''utf-8'' @ quote @
     (if b = Suc a
      then py '' codec can't encode character '' @ quote @ [92, 117] @ hex4 (s ! a) @ quote
             @ py '' in position '' @ str_nat a
      else py '' codec can't encode characters in position '' @ str_nat a @ py ''-''
             @ str_nat (b - 1))
     @ py '': surrogates not allowed''"

text \<open>An exception whose \<open>str\<close> is made of valid Python strings.\<close>

fun exc_valid :: "py_exc \<Rightarrow> bool" where
  "exc_valid (PdfError m) = valid_pystr m"
| "exc_valid (OSError n msg fname) = (valid_pystr msg \<and> valid_pystr fname)"
| "exc_valid (UnicodeEncodeError s a b) = True"

subsection \<open>Properties of \<open>str_nat\<close>\<close>

lemma str_nat_small [simp]: "n < 10 \<Longrightarrow> str_nat n = [48 + n]"
  by (simp add: str_nat.simps)

lemma str_nat_big: "\<not> n < 10 \<Longrightarrow> str_nat n = str_nat (n div 10) @ [48 + n mod 10]"
  by (simp add: str_nat.simps [of n])

lemma str_nat_nonempty [simp]: "str_nat n \<noteq> []"
  by (cases "n < 10") (simp_all add: str_nat_big)

lemma str_nat_digits: "\<forall>c\<in>set (str_nat n). is_digit c"
proof (induction n rule: str_nat.induct)
  case (1 n)
  then show ?case
    by (cases "n < 10") (auto simp: is_digit_def str_nat_big)
qed

lemma foldl_digit_step_str_nat: "foldl digit_step 0 (str_nat n) = n"
proof (induction n rule: str_nat.induct)
  case (1 n)
  show ?case
  proof (cases "n < 10")
    case True
    then show ?thesis by (simp add: digit_step_def)
  next
    case False
    with "1.IH" show ?thesis by (simp add: str_nat_big digit_step_def)
  qed
qed

lemma valid_str_nat [simp]: "valid_pystr (str_nat n)"
  using str_nat_digits [of n] by (auto simp: valid_pystr_def is_digit_def)

lemma str_nat_hd: "hd (str_nat n) = 48 \<longleftrightarrow> n = 0"
proof (induction n rule: str_nat.induct)
  case (1 n)
  then show ?case by (cases "n < 10") (auto simp: str_nat_big)
qed

lemma parse_decimal_str_nat [simp]: "parse_decimal (str_nat n) = Some n"
  by (simp add: parse_decimal_def str_nat_digits foldl_digit_step_str_nat)

lemma str_nat_inj: "str_nat m = str_nat n \<longleftrightarrow> m = n"
  by (metis option.inject parse_decimal_str_nat)

lemma hex_digit_less: "d < 16 \<Longrightarrow> hex_digit d < 103"
  by (simp add: hex_digit_def)

lemma hex_digit_mod_valid: "hex_digit (x mod 16) < 1114112"
proof -
  have "hex_digit (x mod 16) < 103" by (rule hex_digit_less) simp
  then show ?thesis by linarith
qed

lemma valid_hex4 [simp]: "valid_pystr (hex4 c)"
  by (simp add: hex4_def hex_digit_mod_valid)

lemma valid_exc_str [simp]:
  "valid_pystr m \<Longrightarrow> valid_pystr msg \<Longrightarrow> valid_pystr fname \<Longrightarrow>
   valid_pystr (exc_str (PdfError m)) \<and> valid_pystr (exc_str (OSError n msg fname))"
  by (simp add: quote_def)

lemma valid_exc_str_valid: "exc_valid e \<Longrightarrow> valid_pystr (exc_str e)"
  by (cases e) (simp_all add: quote_def)

text \<open>
  C20. \<open>str(n)\<close> of a natural number is a canonical decimal numeral: non-empty, all
  digits, no leading zero unless it is \<open>0\<close>, and it reads back as \<open>n\<close>.
\<close>

theorem str_nat_canonical:
  "parse_decimal (str_nat n) = Some n \<and> str_nat n \<noteq> [] \<and> (\<forall>c\<in>set (str_nat n). is_digit c)
   \<and> (hd (str_nat n) = 48 \<longleftrightarrow> n = 0)"
  using str_nat_digits str_nat_hd by simp

theorem str_nat_canonical_witness:
  "str_nat 407 = [52, 48, 55] \<and> parse_decimal [52, 48, 55] = Some 407"
proof -
  have e: "str_nat 407 = [52, 48, 55]" by (simp add: str_nat_big)
  show ?thesis using str_nat_canonical [of 407] e by simp
qed

end
