(* ===== verification/Extract.thy ===== *)
theory Extract
  imports PyFormat
begin

text \<open>
  The page loop of \<open>main\<close> (\<open>src/scripts/analyze_pdf.py\<close>, lines 20--25): \<open>text\<close>
  starts empty; for each page, in order and numbered from 0 by \<open>enumerate\<close>, the result
  of \<open>page.extract_text()\<close> is appended after the header
  \<open>"\<backslash>n--- Page {i+1} ---\<backslash>n"\<close> when it is truthy, and skipped otherwise. The
  collaborator is opaque: each page is the outcome of its \<open>extract_text\<close> call, an
  exception or a \<open>str\<close>/\<open>None\<close>. \<open>extract_spec\<close> is the reference reading of the
  loop as a concatenation of numbered blocks, and \<open>kept_pages\<close> lists the blocks.
\<close>

type_synonym page = "py_exc + pystr option"

definition page_header :: "nat \<Rightarrow> pystr" where
  "page_header n = newline @ py ''--- Page '' @ str_nat n @ py '' ---'' @ newline"

fun extract_loop :: "nat \<Rightarrow> page list \<Rightarrow> pystr \<Rightarrow> py_exc + pystr" where
  "extract_loop i [] text = Inr text"
| "extract_loop i (Inl e # pages) text = Inl e"
| "extract_loop i (Inr page_text # pages) text =
     extract_loop (Suc i) pages
       (if py_truthy page_text then (text @ page_header (i + 1)) @ the page_text else text)"

subsection \<open>Reference specification\<close>

definition kept_pages_from :: "nat \<Rightarrow> pystr option list \<Rightarrow> (nat \<times> pystr) list" where
  "kept_pages_from i ts = [(Suc j, s). (j, Some s) \<leftarrow> enumerate i ts, s \<noteq> []]"

abbreviation kept_pages :: "pystr option list \<Rightarrow> (nat \<times> pystr) list" where
  "kept_pages \<equiv> kept_pages_from 0"

definition blocks :: "(nat \<times> pystr) list \<Rightarrow> pystr" where
  "blocks ps = concat [page_header n @ s. (n, s) \<leftarrow> ps]"

definition extract_spec :: "pystr option list \<Rightarrow> pystr" where
  "extract_spec ts = blocks (kept_pages ts)"

definition valid_page_texts :: "pystr option list \<Rightarrow> bool" where
  "valid_page_texts ts = (\<forall>t\<in>set ts. case t of None \<Rightarrow> True | Some s \<Rightarrow> valid_pystr s)"

fun page_texts :: "page list \<Rightarrow> py_exc + pystr option list" where
  "page_texts [] = Inr []"
| "page_texts (Inl e # pages) = Inl e"
| "page_texts (Inr t # pages) =
     (case page_texts pages of Inl e \<Rightarrow> Inl e | Inr ts \<Rightarrow> Inr (t # ts))"

lemma page_texts_Inl_mem: "page_texts pages = Inl e \<Longrightarrow> Inl e \<in> set pages"
  by (induction pages rule: page_texts.induct) (auto split: sum.splits)

lemma kept_pages_from_Nil [simp]: "kept_pages_from i [] = []"
  by (simp add: kept_pages_from_def)

lemma kept_pages_from_Cons [simp]:
  "kept_pages_from i (t # ts) =
     (if py_truthy t then [(Suc i, the t)] else []) @ kept_pages_from (Suc i) ts"
  by (cases t) (simp_all add: kept_pages_from_def)

lemma blocks_simps [simp]:
  "blocks [] = []"
  "blocks (p # ps) = page_header (fst p) @ snd p @ blocks ps"
  "blocks (ps @ qs) = blocks ps @ blocks qs"
  by (simp_all add: blocks_def split_def)

lemma extract_loop_eq:
  "extract_loop i pages acc =
     (case page_texts pages of Inl e \<Rightarrow> Inl e | Inr ts \<Rightarrow> Inr (acc @ blocks (kept_pages_from i ts)))"
  by (induction i pages acc rule: extract_loop.induct) (auto split: sum.split)

lemma extract_loop_pages:
  "page_texts pages = Inr ts \<Longrightarrow> extract_loop 0 pages [] = Inr (extract_spec ts)"
  by (simp add: extract_loop_eq extract_spec_def)

lemma page_texts_Inl_iff: "page_texts pages = Inl e \<longleftrightarrow> (\<exists>ts rest. pages = map Inr ts @ Inl e # rest)"
proof (induction pages rule: page_texts.induct)
  case (2 e' pages)
  then show ?case by (auto simp: Cons_eq_append_conv)
next
  case (3 t pages)
  show ?case
  proof
    assume "page_texts (Inr t # pages) = Inl e"
    then have "page_texts pages = Inl e" by (auto split: sum.splits)
    with "3" obtain ts rest where "pages = map Inr ts @ Inl e # rest" by blast
    then have "Inr t # pages = map Inr (t # ts) @ Inl e # rest" by simp
    then show "\<exists>ts rest. Inr t # pages = map Inr ts @ Inl e # rest" by blast
  next
    assume "\<exists>ts rest. Inr t # pages = map Inr ts @ Inl e # rest"
    then obtain ts rest where eq: "Inr t # pages = map Inr ts @ Inl e # rest" by blast
    then obtain ts' where "pages = map Inr ts' @ Inl e # rest" by (cases ts) auto
    with "3" show "page_texts (Inr t # pages) = Inl e" by auto
  qed
qed simp

lemma page_texts_map_Inr [simp]: "page_texts (map Inr ts) = Inr ts"
  by (induction ts) simp_all

lemma kept_pages_from_mem:
  "(n, s) \<in> set (kept_pages_from i ts) \<longleftrightarrow>
     i < n \<and> n \<le> i + length ts \<and> ts ! (n - Suc i) = Some s \<and> s \<noteq> []"
proof (induction ts arbitrary: i)
  case Nil
  then show ?case by simp
next
  case (Cons t ts)
  show ?case
  proof (cases "n = Suc i")
    case True
    then show ?thesis using Cons.IH [of "Suc i"] by (auto simp: py_truthy_iff)
  next
    case False
    then have "i < n \<longleftrightarrow> Suc i < n" "(t # ts) ! (n - Suc i) = ts ! (n - Suc (Suc i))"
      if "i < n" using that by (auto simp: nth_Cons')
    with False show ?thesis using Cons.IH [of "Suc i"] by (auto simp: py_truthy_iff)
  qed
qed

lemma kept_pages_from_bounds:
  "(n, s) \<in> set (kept_pages_from i ts) \<Longrightarrow> i < n \<and> n \<le> i + length ts"
  by (simp add: kept_pages_from_mem)

lemma kept_pages_from_sorted: "sorted_wrt (<) (map fst (kept_pages_from i ts))"
proof (induction ts arbitrary: i)
  case (Cons t ts)
  have "\<forall>p\<in>set (kept_pages_from (Suc i) ts). Suc i < fst p"
    using kept_pages_from_bounds by fastforce
  with Cons.IH [of "Suc i"] show ?case by auto
qed simp

lemma length_kept_pages_from: "length (kept_pages_from i ts) = length (filter py_truthy ts)"
  by (induction ts arbitrary: i) simp_all

lemma kept_pages_from_all_truthy:
  "\<forall>t\<in>set ts. py_truthy t \<Longrightarrow> map fst (kept_pages_from i ts) = [Suc i..<Suc (i + length ts)]"
proof (induction ts arbitrary: i)
  case (Cons t ts)
  then show ?case by (simp del: upt_Suc add: upt_conv_Cons)
qed simp

lemma length_page_header: "length (page_header n) = 15 + length (str_nat n)"
  by (simp add: page_header_def)

lemma length_blocks: "length (blocks ps) = (\<Sum>(n, s)\<leftarrow>ps. 15 + length (str_nat n) + length s)"
  by (induction ps) (auto simp: length_page_header)


lemma valid_page_header [simp]: "valid_pystr (page_header n)"
  by (simp add: page_header_def)

lemma valid_kept_pages_from:
  "valid_page_texts ts \<Longrightarrow> (n, s) \<in> set (kept_pages_from i ts) \<Longrightarrow> valid_pystr s"
proof -
  assume v: "valid_page_texts ts" and m: "(n, s) \<in> set (kept_pages_from i ts)"
  then have "n - Suc i < length ts" "ts ! (n - Suc i) = Some s"
    by (auto simp: kept_pages_from_mem)
  then have "Some s \<in> set ts" by (metis nth_mem)
  with v show "valid_pystr s" by (auto simp: valid_page_texts_def)
qed

lemma valid_blocks: "\<forall>p\<in>set ps. valid_pystr (snd p) \<Longrightarrow> valid_pystr (blocks ps)"
  by (induction ps) auto

lemma valid_extract_spec: "valid_page_texts ts \<Longrightarrow> valid_pystr (extract_spec ts)"
  unfolding extract_spec_def
  by (rule valid_blocks) (auto dest: valid_kept_pages_from)

subsection \<open>Properties of the page loop\<close>

text \<open>
  C2. The loop of lines 20--25 computes the reference concatenation: started on page 0
  with an empty buffer it returns the first exception any \<open>extract_text\<close> raises, and
  otherwise the numbered blocks of the truthy pages.
\<close>

theorem extract_loop_refines:
  "extract_loop 0 pages [] =
     (case page_texts pages of Inl e \<Rightarrow> Inl e | Inr ts \<Rightarrow> Inr (extract_spec ts))"
  by (simp add: extract_loop_eq extract_spec_def split: sum.split)

theorem extract_loop_refines_witness:
  "extract_loop 0 [Inr (Some (py ''ab'')), Inr None] [] = Inr (extract_spec [Some (py ''ab''), None])
   \<and> extract_loop 0 [Inr (Some (py ''ab'')), Inl (PdfError (py ''x''))] [] = Inl (PdfError (py ''x''))"
  using extract_loop_refines [of "[Inr (Some (py ''ab'')), Inr None]"]
    extract_loop_refines [of "[Inr (Some (py ''ab'')), Inl (PdfError (py ''x''))]"]
  by simp

text \<open>
  C3. A header \<open>--- Page n ---\<close> is in the output exactly when page \<open>n\<close> exists and its
  extracted text is truthy: a page whose \<open>extract_text()\<close> gives \<open>''\<close> or \<open>None\<close>
  contributes no header at all.
\<close>

theorem extract_header_iff:
  "n \<in> fst ` set (kept_pages ts) \<longleftrightarrow> 0 < n \<and> n \<le> length ts \<and> py_truthy (ts ! (n - 1))"
proof -
  have "n \<in> fst ` set (kept_pages ts) \<longleftrightarrow> (\<exists>s. (n, s) \<in> set (kept_pages ts))"
    by force
  also have "\<dots> \<longleftrightarrow> (\<exists>s. 0 < n \<and> n \<le> length ts \<and> ts ! (n - 1) = Some s \<and> s \<noteq> [])"
    by (simp add: kept_pages_from_mem)
  also have "\<dots> \<longleftrightarrow> 0 < n \<and> n \<le> length ts \<and> py_truthy (ts ! (n - 1))"
    by (auto simp: py_truthy_iff)
  finally show ?thesis .
qed

theorem extract_header_iff_witness:
  "2 \<notin> fst ` set (kept_pages [Some (py ''A''), Some [], Some (py ''C'')])
   \<and> 3 \<in> fst ` set (kept_pages [Some (py ''A''), Some [], Some (py ''C'')])"
  using extract_header_iff [of 2 "[Some (py ''A''), Some [], Some (py ''C'')]"]
    extract_header_iff [of 3 "[Some (py ''A''), Some [], Some (py ''C'')]"]
  by (simp add: numeral_eq_Suc)

text \<open>
  C13. The page numbers of the blocks are strictly increasing and lie between 1 and the
  number of pages.
\<close>

theorem kept_pages_ordered:
  "sorted_wrt (<) (map fst (kept_pages ts)) \<and>
   (\<forall>p\<in>set (kept_pages ts). 0 < fst p \<and> fst p \<le> length ts)"
  using kept_pages_from_sorted [of 0 ts] kept_pages_from_bounds [of _ _ 0 ts] by fastforce

theorem kept_pages_ordered_witness:
  "sorted_wrt (<) (map fst (kept_pages [Some (py ''A''), None, Some (py ''C'')])) \<and>
   list_all (\<lambda>p. 0 < fst p \<and> fst p \<le> 3) (kept_pages [Some (py ''A''), None, Some (py ''C'')])"
  using kept_pages_ordered [of "[Some (py ''A''), None, Some (py ''C'')]"] by (simp add: list_all_iff)

text \<open>
  C14. When every page has non-empty text, the output carries the headers of pages
  \<open>1, ..., N\<close>, in increasing order.
\<close>

theorem extract_all_pages_headers:
  "\<forall>t\<in>set ts. py_truthy t \<Longrightarrow> map fst (kept_pages ts) = [1..<Suc (length ts)]"
  using kept_pages_from_all_truthy [of ts 0] by simp

theorem extract_all_pages_headers_witness:
  "list_all py_truthy [Some (py ''A''), Some (py ''B'')] \<and>
   map fst (kept_pages [Some (py ''A''), Some (py ''B'')]) = [1, 2]"
proof -
  have h: "\<forall>t\<in>set [Some (py ''A''), Some (py ''B'')]. py_truthy t" by (simp add: py_def)
  show ?thesis using extract_all_pages_headers [OF h] h by (simp add: upt_rec)
qed

lemma sum_kept_pages_from:
  "(\<Sum>(n, s)\<leftarrow>kept_pages_from i ts. 15 + length (str_nat n) + length s) =
   (\<Sum>(j, t)\<leftarrow>enumerate i ts. if py_truthy t then 15 + length (str_nat (j + 1)) + length (the t) else 0)"
  by (induction ts arbitrary: i) auto

text \<open>
  C15. The count line 33 prints: when no \<open>extract_text()\<close> raises, the loop of lines
  20--25 returns a text whose length is, over the pages in order, the length of each
  truthy page's text plus its 15-character header and the digits of its number
  \<open>i + 1\<close>; pages whose text is empty or \<open>None\<close> add nothing.
\<close>

theorem extract_loop_length:
  "\<exists>text. extract_loop 0 (map Inr ts) [] = Inr text \<and>
     length text = (\<Sum>(i, t)\<leftarrow>enumerate 0 ts.
                      if py_truthy t then 15 + length (str_nat (i + 1)) + length (the t) else 0)"
  using sum_kept_pages_from [of 0 ts] by (simp add: extract_loop_eq length_blocks)

end
