(* ===== verification/Utf8.thy ===== *)
theory Utf8
  imports Prelude
begin

text \<open>
  The text layer of \<open>open(output_path, "w", encoding="utf-8")\<close> and \<open>f.write(text)\<close>
  (lines 30--31). CPython's UTF-8 encoder with the \<open>strict\<close> error handler encodes
  every code point in one to four bytes and refuses the surrogates
  \<open>U+D800..U+DFFF\<close>: it raises \<open>UnicodeEncodeError\<close> at the first surrogate, for the
  maximal run of surrogates that starts there (\<open>utf8_encode\<close> returns that run as
  \<open>Inl (start, end)\<close>). \<open>utf8_decode\<close> is the strict decoder that reads the file
  back; the theory proves the round trip and the length bounds of the encoding. The
  same encoder writes \<open>print\<close>'s lines to standard output, under the error handler of
  its locale: \<open>encode_error\<close> follows it under \<open>strict\<close> and \<open>surrogateescape\<close>
  (which writes the escaped bytes \<open>U+DC80..U+DCFF\<close> back as bytes), and
  \<open>encodable\<close> is the set of strings it prints.
\<close>

definition is_surrogate :: "codepoint \<Rightarrow> bool" where
  "is_surrogate c = (55296 \<le> c \<and> c < 57344)"

definition byte_of :: "nat \<Rightarrow> byte" where
  "byte_of n = of_nat n"

definition utf8_char :: "codepoint \<Rightarrow> bytes" where
  "utf8_char c =
     (if c < 128 then [byte_of c]
      else if c < 2048 then [byte_of (192 + c div 64), byte_of (128 + c mod 64)]
      else if c < 65536 then
        [byte_of (224 + c div 4096), byte_of (128 + c div 64 mod 64), byte_of (128 + c mod 64)]
      else [byte_of (240 + c div 262144), byte_of (128 + c div 4096 mod 64),
            byte_of (128 + c div 64 mod 64), byte_of (128 + c mod 64)])"

definition utf8_encode :: "pystr \<Rightarrow> (nat \<times> nat) + bytes" where
  "utf8_encode s =
     (let i = length (takeWhile (\<lambda>c. \<not> is_surrogate c) s)
      in if i = length s then Inr (concat (map utf8_char s))
         else Inl (i, i + length (takeWhile is_surrogate (drop i s))))"

subsection \<open>Strict decoding\<close>

definition is_cont :: "byte \<Rightarrow> bool" where
  "is_cont b = (128 \<le> unat b \<and> unat b < 192)"

definition utf8_step :: "bytes \<Rightarrow> (codepoint \<times> bytes) option" where
  "utf8_step bs =
     (case bs of
        [] \<Rightarrow> None
      | b0 # r0 \<Rightarrow>
          let n = unat b0 in
          if n < 128 then Some (n, r0)
          else if 194 \<le> n \<and> n < 224 then
            (case r0 of b1 # r1 \<Rightarrow>
               if is_cont b1 then Some ((n - 192) * 64 + (unat b1 - 128), r1) else None
             | [] \<Rightarrow> None)
          else if 224 \<le> n \<and> n < 240 then
            (case r0 of b1 # b2 # r2 \<Rightarrow>
               let c = (n - 224) * 4096 + (unat b1 - 128) * 64 + (unat b2 - 128) in
               if is_cont b1 \<and> is_cont b2 \<and> 2048 \<le> c \<and> \<not> is_surrogate c
               then Some (c, r2) else None
             | _ \<Rightarrow> None)
          else if 240 \<le> n \<and> n < 245 then
            (case r0 of b1 # b2 # b3 # r3 \<Rightarrow>
               let c = (n - 240) * 262144 + (unat b1 - 128) * 4096 + (unat b2 - 128) * 64
                       + (unat b3 - 128) in
               if is_cont b1 \<and> is_cont b2 \<and> is_cont b3 \<and> 65536 \<le> c \<and> c < 1114112
               then Some (c, r3) else None
             | _ \<Rightarrow> None)
          else None)"

function utf8_decode :: "bytes \<Rightarrow> pystr option" where
  "utf8_decode bs =
     (if bs = [] then Some []
      else case utf8_step bs of
             None \<Rightarrow> None
           | Some (c, r) \<Rightarrow> map_option (Cons c) (utf8_decode r))"
  by pat_completeness auto
termination
  by (relation "measure length") (auto simp: utf8_step_def Let_def split: list.splits if_splits)

declare utf8_decode.simps [simp del]

subsection \<open>Error handlers\<close>

text \<open>
  Standard output encodes with the same UTF-8 codec, under the error handler of
  \<open>sys.stdout\<close>: \<open>strict\<close>, or \<open>surrogateescape\<close> (the C and POSIX locales),
  which writes the lone surrogates \<open>U+DC80..U+DCFF\<close> that \<open>os.fsdecode\<close> makes of
  undecodable bytes back as those bytes. CPython's encoder handles one maximal run of
  surrogates at a time: under \<open>surrogateescape\<close> it writes the escapable prefix of the
  run and raises for the rest of the run; under \<open>strict\<close> it raises for the whole run.
  \<open>encode_error h i s\<close> is the \<open>[start, end)\<close> of that exception, the positions
  counted from \<open>i\<close>.
\<close>

datatype err_handler = Strict | SurrogateEscape

definition escapable :: "codepoint \<Rightarrow> bool" where
  "escapable c = (56448 \<le> c \<and> c \<le> 56575)"

definition char_encodable :: "err_handler \<Rightarrow> codepoint \<Rightarrow> bool" where
  "char_encodable h c = (\<not> is_surrogate c \<or> (h = SurrogateEscape \<and> escapable c))"

definition encodable :: "err_handler \<Rightarrow> pystr \<Rightarrow> bool" where
  "encodable h s = list_all (char_encodable h) s"

function encode_error :: "err_handler \<Rightarrow> nat \<Rightarrow> pystr \<Rightarrow> (nat \<times> nat) option" where
  "encode_error h i s =
     (let j = length (takeWhile (\<lambda>c. \<not> is_surrogate c) s); r = dropWhile (\<lambda>c. \<not> is_surrogate c) s in
      if r = [] then None
      else let n = length (takeWhile is_surrogate r);
               k = (if h = SurrogateEscape then length (takeWhile escapable r) else 0)
           in if k < n then Some (i + j + k, i + j + n)
              else encode_error h (i + j + n) (drop n r))"
  by pat_completeness auto

termination
proof (relation "measure (\<lambda>(h, i, s). length s)")
  fix h :: err_handler and i :: nat and s :: pystr and j r n
  assume j: "j = length (takeWhile (\<lambda>c. \<not> is_surrogate c) s)"
    and r: "r = dropWhile (\<lambda>c. \<not> is_surrogate c) s"
    and ne: "r \<noteq> []" and n: "n = length (takeWhile is_surrogate r)"
  have "is_surrogate (hd r)"
    using ne unfolding r by (metis hd_dropWhile)
  then have "0 < n" using ne n by (cases r) auto
  moreover have "0 < length r" using ne by simp
  moreover have "length r \<le> length s" using r by (simp add: length_dropWhile_le)
  ultimately have "length r - n < length s" by linarith
  then show "((h, i + j + n, drop n r), (h, i, s)) \<in> measure (\<lambda>(h, i, s). length s)"
    by simp
qed simp

declare encode_error.simps [simp del]

subsection \<open>Round trip\<close>

lemma unat_byte: "x < 256 \<Longrightarrow> unat (byte_of x) = x"
  by (simp add: byte_of_def unat_of_nat)

lemma div_4096: "(c::nat) div 4096 = c div 64 div 64"
  by (simp add: div_mult2_eq [symmetric])

lemma div_262144: "(c::nat) div 262144 = c div 4096 div 64"
  by (simp add: div_mult2_eq [symmetric])

lemma decomp_2: "(c::nat) div 64 * 64 + c mod 64 = c"
  by simp

lemma shift_64: "((a::nat) * 64 + b) * 64 + d = a * 4096 + b * 64 + d"
  by (simp add: algebra_simps)

lemma decomp_3: "(c::nat) div 4096 * 4096 + c div 64 mod 64 * 64 + c mod 64 = c"
proof -
  have h: "c div 64 = c div 4096 * 64 + c div 64 mod 64"
    using div_mult_mod_eq [of "c div 64" 64] by (simp add: div_4096)
  have "c = c div 64 * 64 + c mod 64" by simp
  also have "c div 64 * 64 = (c div 4096 * 64 + c div 64 mod 64) * 64"
    using h by (rule arg_cong)
  finally show ?thesis by (simp only: shift_64)
qed

lemma decomp_4:
  "(c::nat) div 262144 * 262144 + c div 4096 mod 64 * 4096 + c div 64 mod 64 * 64 + c mod 64 = c"
proof -
  have h: "c div 4096 = c div 262144 * 64 + c div 4096 mod 64"
    using div_mult_mod_eq [of "c div 4096" 64] by (simp add: div_262144)
  have "c div 4096 * 4096 = (c div 262144 * 64 + c div 4096 mod 64) * 4096"
    using h by (rule arg_cong)
  also have "\<dots> = c div 262144 * 262144 + c div 4096 mod 64 * 4096"
    by (simp add: algebra_simps)
  finally show ?thesis using decomp_3 [of c] by linarith
qed

lemma is_cont_byte: "x < 64 \<Longrightarrow> is_cont (byte_of (128 + x))"
  by (simp add: is_cont_def unat_byte)

lemma cont_val: "x < 64 \<Longrightarrow> unat (byte_of (128 + x)) - 128 = x"
  by (simp add: unat_byte)

lemma utf8_step_2:
  assumes "194 \<le> n" "n < 224" "is_cont b1" "c = (n - 192) * 64 + (unat b1 - 128)"
  shows "utf8_step (byte_of n # b1 # r) = Some (c, r)"
  using assms by (simp add: utf8_step_def unat_byte)

lemma utf8_step_3:
  assumes "224 \<le> n" "n < 240" "is_cont b1" "is_cont b2"
    and "c = (n - 224) * 4096 + (unat b1 - 128) * 64 + (unat b2 - 128)"
    and "2048 \<le> c" "\<not> is_surrogate c"
  shows "utf8_step (byte_of n # b1 # b2 # r) = Some (c, r)"
  using assms by (simp add: utf8_step_def unat_byte Let_def)

lemma utf8_step_4:
  assumes "240 \<le> n" "n < 245" "is_cont b1" "is_cont b2" "is_cont b3"
    and "c = (n - 240) * 262144 + (unat b1 - 128) * 4096 + (unat b2 - 128) * 64 + (unat b3 - 128)"
    and "65536 \<le> c" "c < 1114112"
  shows "utf8_step (byte_of n # b1 # b2 # b3 # r) = Some (c, r)"
  using assms by (simp add: utf8_step_def unat_byte Let_def)

lemmas cont_eq = cont_val mod_less_divisor zero_less_numeral add_diff_cancel_left'

lemma utf8_step_char:
  assumes "c < 1114112" and "\<not> is_surrogate c"
  shows "utf8_step (utf8_char c @ r) = Some (c, r)"
proof -
  consider "c < 128" | "128 \<le> c" "c < 2048" | "2048 \<le> c" "c < 65536" | "65536 \<le> c"
    by linarith
  then show ?thesis
  proof cases
    case 1
    then show ?thesis by (simp add: utf8_char_def utf8_step_def unat_byte)
  next
    case 2
    have lo: "2 \<le> c div 64" using div_le_mono [OF \<open>128 \<le> c\<close>, of 64] by simp
    have hi: "c div 64 < 32" by (rule less_mult_imp_div_less) (use 2 in simp)
    have "utf8_step (byte_of (192 + c div 64) # byte_of (128 + c mod 64) # r) = Some (c, r)"
    proof (rule utf8_step_2)
      show "194 \<le> 192 + c div 64" "192 + c div 64 < 224" using lo hi by simp_all
      show "is_cont (byte_of (128 + c mod 64))" by (simp add: is_cont_byte)
      show "c = (192 + c div 64 - 192) * 64 + (unat (byte_of (128 + c mod 64)) - 128)"
        by (simp only: cont_eq decomp_2)
    qed
    with 2 show ?thesis by (simp add: utf8_char_def)
  next
    case 3
    have hi: "c div 4096 < 16" by (rule less_mult_imp_div_less) (use 3 in simp)
    have "utf8_step (byte_of (224 + c div 4096) # byte_of (128 + c div 64 mod 64)
            # byte_of (128 + c mod 64) # r) = Some (c, r)"
    proof (rule utf8_step_3)
      show "224 \<le> 224 + c div 4096" "224 + c div 4096 < 240" using hi by simp_all
      show "is_cont (byte_of (128 + c div 64 mod 64))" "is_cont (byte_of (128 + c mod 64))"
        by (simp_all add: is_cont_byte)
      show "c = (224 + c div 4096 - 224) * 4096 + (unat (byte_of (128 + c div 64 mod 64)) - 128) * 64
               + (unat (byte_of (128 + c mod 64)) - 128)"
        by (simp only: cont_eq decomp_3)
      show "2048 \<le> c" "\<not> is_surrogate c" using 3 assms(2) by simp_all
    qed
    with 3 show ?thesis by (simp add: utf8_char_def)
  next
    case 4
    have hi: "c div 262144 < 5" by (rule less_mult_imp_div_less) (use assms(1) in simp)
    have "utf8_step (byte_of (240 + c div 262144) # byte_of (128 + c div 4096 mod 64)
            # byte_of (128 + c div 64 mod 64) # byte_of (128 + c mod 64) # r) = Some (c, r)"
    proof (rule utf8_step_4)
      show "240 \<le> 240 + c div 262144" "240 + c div 262144 < 245" using hi by simp_all
      show "is_cont (byte_of (128 + c div 4096 mod 64))" "is_cont (byte_of (128 + c div 64 mod 64))"
        "is_cont (byte_of (128 + c mod 64))"
        by (simp_all add: is_cont_byte)
      show "c = (240 + c div 262144 - 240) * 262144
               + (unat (byte_of (128 + c div 4096 mod 64)) - 128) * 4096
               + (unat (byte_of (128 + c div 64 mod 64)) - 128) * 64
               + (unat (byte_of (128 + c mod 64)) - 128)"
        by (simp only: cont_eq decomp_4)
      show "65536 \<le> c" "c < 1114112" using 4 assms(1) by simp_all
    qed
    with 4 show ?thesis by (simp add: utf8_char_def)
  qed
qed

lemma utf8_char_nonempty [simp]: "utf8_char c \<noteq> []"
  by (simp add: utf8_char_def)

lemma utf8_decode_Nil [simp]: "utf8_decode [] = Some []"
  by (simp add: utf8_decode.simps)

lemma utf8_decode_chars:
  "valid_pystr s \<Longrightarrow> \<forall>c\<in>set s. \<not> is_surrogate c \<Longrightarrow> utf8_decode (concat (map utf8_char s)) = Some s"
proof (induction s)
  case (Cons c s)
  then have "utf8_step (utf8_char c @ concat (map utf8_char s)) = Some (c, concat (map utf8_char s))"
    by (simp add: utf8_step_char)
  with Cons show ?case by (simp add: utf8_decode.simps [of "utf8_char c @ _"])
qed simp

lemma utf8_encode_Inr_iff:
  "utf8_encode s = Inr bs \<longleftrightarrow> (\<forall>c\<in>set s. \<not> is_surrogate c) \<and> bs = concat (map utf8_char s)"
proof -
  have "length (takeWhile (\<lambda>c. \<not> is_surrogate c) s) = length s \<longleftrightarrow> (\<forall>c\<in>set s. \<not> is_surrogate c)"
    by (rule length_takeWhile_eq_iff)
  then show ?thesis by (auto simp: utf8_encode_def Let_def)
qed

lemma utf8_encode_no_surrogate:
  "\<forall>c\<in>set s. \<not> is_surrogate c \<Longrightarrow> utf8_encode s = Inr (concat (map utf8_char s))"
  by (simp add: utf8_encode_Inr_iff)

subsection \<open>Encodability under an error handler\<close>

lemma drop_takeWhile_not:
  "drop (length (takeWhile (\<lambda>c. \<not> P c) s)) s = dropWhile (\<lambda>c. \<not> P c) s"
  by (simp add: dropWhile_eq_drop)

lemma run_nonempty:
  "dropWhile (\<lambda>c. \<not> P c) s \<noteq> [] \<Longrightarrow> 0 < length (takeWhile P (dropWhile (\<lambda>c. \<not> P c) s))"
  using hd_dropWhile [of "\<lambda>c. \<not> P c" s] by (cases "dropWhile (\<lambda>c. \<not> P c) s") auto

lemma encode_error_Strict:
  "encode_error Strict i s =
     (case utf8_encode s of Inl (a, b) \<Rightarrow> Some (i + a, i + b) | Inr bs \<Rightarrow> None)"
proof -
  let ?j = "length (takeWhile (\<lambda>c. \<not> is_surrogate c) s)"
  have e: "?j = length s \<longleftrightarrow> dropWhile (\<lambda>c. \<not> is_surrogate c) s = []"
    by (simp add: length_takeWhile_eq_iff)
  show ?thesis
  proof (cases "dropWhile (\<lambda>c. \<not> is_surrogate c) s = []")
    case True
    then show ?thesis
      by (simp add: encode_error.simps [of Strict i s] utf8_encode_def Let_def length_takeWhile_eq_iff)
  next
    case False
    with e run_nonempty [OF False] show ?thesis
      by (simp add: encode_error.simps [of Strict i s] utf8_encode_def Let_def drop_takeWhile_not)
  qed
qed

lemma list_all_takeWhile_dropWhile:
  "list_all Q s \<longleftrightarrow> list_all Q (takeWhile P s) \<and> list_all Q (dropWhile P s)"
  by (metis list_all_append takeWhile_dropWhile_id)

lemma takeWhile_takeWhile_weaker:
  "(\<And>x. P x \<Longrightarrow> Q x) \<Longrightarrow> takeWhile P xs = takeWhile P (takeWhile Q xs)"
  by (induction xs) auto

lemma escapable_surrogate: "escapable c \<Longrightarrow> is_surrogate c"
  by (simp add: escapable_def is_surrogate_def)

lemma run_encodable_iff:
  assumes "r \<noteq> []" and "is_surrogate (hd r)"
  shows "list_all (char_encodable h) (takeWhile is_surrogate r) \<longleftrightarrow>
         \<not> (if h = SurrogateEscape then length (takeWhile escapable r) else 0)
             < length (takeWhile is_surrogate r)"
proof (cases h)
  case Strict
  then show ?thesis using assms by (cases r) (simp_all add: char_encodable_def)
next
  case SurrogateEscape
  let ?run = "takeWhile is_surrogate r"
  have "takeWhile escapable r = takeWhile escapable ?run"
    by (rule takeWhile_takeWhile_weaker) (rule escapable_surrogate)
  moreover have "list_all (char_encodable h) ?run \<longleftrightarrow> list_all escapable ?run"
    using SurrogateEscape by (auto simp: list_all_iff char_encodable_def dest: set_takeWhileD)
  moreover have "list_all escapable ?run \<longleftrightarrow> length (takeWhile escapable ?run) = length ?run"
    by (simp add: length_takeWhile_eq_iff list_all_iff)
  moreover have "length (takeWhile escapable ?run) \<le> length ?run" by (rule length_takeWhile_le)
  ultimately show ?thesis using SurrogateEscape by auto
qed

lemma encode_error_None_iff:
  "encode_error h i s = None \<longleftrightarrow> list_all (char_encodable h) s"
proof (induction h i s rule: encode_error.induct)
  case (1 h i s)
  let ?j = "length (takeWhile (\<lambda>c. \<not> is_surrogate c) s)"
  let ?r = "dropWhile (\<lambda>c. \<not> is_surrogate c) s"
  let ?n = "length (takeWhile is_surrogate ?r)"
  let ?k = "if h = SurrogateEscape then length (takeWhile escapable ?r) else 0"
  have pre: "list_all (char_encodable h) (takeWhile (\<lambda>c. \<not> is_surrogate c) s)"
    by (auto simp: list_all_iff char_encodable_def dest: set_takeWhileD)
  have all: "list_all (char_encodable h) s \<longleftrightarrow> list_all (char_encodable h) ?r"
    using pre list_all_takeWhile_dropWhile [of "char_encodable h" s] by blast
  show ?case
  proof (cases "?r = []")
    case True
    then show ?thesis using all by (simp add: encode_error.simps [of h i s] del: dropWhile_eq_Nil_conv)
  next
    case False
    have hd: "is_surrogate (hd ?r)" using False by (metis hd_dropWhile)
    have split: "list_all (char_encodable h) ?r \<longleftrightarrow>
                 list_all (char_encodable h) (takeWhile is_surrogate ?r) \<and>
                 list_all (char_encodable h) (drop ?n ?r)"
      using list_all_takeWhile_dropWhile [of "char_encodable h" ?r is_surrogate]
      by (simp add: dropWhile_eq_drop)
    have eq: "encode_error h i s =
                (if ?k < ?n then Some (i + ?j + ?k, i + ?j + ?n) else encode_error h (i + ?j + ?n) (drop ?n ?r))"
      using False by (simp add: encode_error.simps [of h i s] Let_def del: dropWhile_eq_Nil_conv)
    show ?thesis
    proof (cases "?k < ?n")
      case True
      then show ?thesis using eq all split run_encodable_iff [OF False hd, of h] by simp
    next
      case nk: False
      have ih: "encode_error h (i + ?j + ?n) (drop ?n ?r) = None \<longleftrightarrow>
                list_all (char_encodable h) (drop ?n ?r)"
        by (rule "1.IH" [OF refl refl False refl refl nk])
      show ?thesis using nk eq all split ih run_encodable_iff [OF False hd, of h] by simp
    qed
  qed
qed

lemma encodable_simps [simp]:
  "encodable h []"
  "encodable h (s @ t) \<longleftrightarrow> encodable h s \<and> encodable h t"
  "encodable h (c # s) \<longleftrightarrow> char_encodable h c \<and> encodable h s"
  by (simp_all add: encodable_def)

lemma char_encodable_small [simp]: "c < 55296 \<Longrightarrow> char_encodable h c"
  by (simp add: char_encodable_def is_surrogate_def)

lemma char_encodable_no_surrogate: "\<not> is_surrogate c \<Longrightarrow> char_encodable h c"
  by (simp add: char_encodable_def)

lemma encodable_no_surrogate: "\<forall>c\<in>set s. \<not> is_surrogate c \<Longrightarrow> encodable h s"
  by (simp add: encodable_def list_all_iff char_encodable_no_surrogate)

subsection \<open>Lengths and the error run\<close>

lemma length_utf8_char: "1 \<le> length (utf8_char c) \<and> length (utf8_char c) \<le> 4"
  by (simp add: utf8_char_def)

lemma length_utf8_char_1_iff: "length (utf8_char c) = 1 \<longleftrightarrow> c < 128"
  by (simp add: utf8_char_def)

lemma length_utf8_chars_bounds:
  "length s \<le> length (concat (map utf8_char s)) \<and> length (concat (map utf8_char s)) \<le> 4 * length s"
proof (induction s)
  case (Cons c s)
  then show ?case using length_utf8_char [of c] by simp
qed simp

lemma length_utf8_chars_eq_iff:
  "length (concat (map utf8_char s)) = length s \<longleftrightarrow> (\<forall>c\<in>set s. c < 128)"
proof (induction s)
  case (Cons c s)
  have "length s \<le> length (concat (map utf8_char s))"
    using length_utf8_chars_bounds by blast
  then show ?case
    using Cons.IH length_utf8_char [of c] length_utf8_char_1_iff [of c] by auto
qed simp

subsection \<open>Decoding accepts only encoder output\<close>

lemma byte_of_unat [simp]: "byte_of (unat b) = b"
  by (simp add: byte_of_def)

lemma div_mod_64:
  assumes "x < 64"
  shows "((q::nat) * 64 + x) div 64 = q" "(q * 64 + x) mod 64 = x"
  using assms by simp_all

lemma cont_split:
  assumes "is_cont b"
  shows "unat b - 128 < 64" "128 + (unat b - 128) = unat b"
  using assms unfolding is_cont_def by arith+

lemma utf8_step_inv_2:
  assumes "194 \<le> n" "n < 224" "is_cont b1" "c = (n - 192) * 64 + (unat b1 - 128)"
  shows "128 \<le> c \<and> c < 2048 \<and> utf8_char c = [byte_of n, b1]"
proof -
  note b1 = cont_split [OF assms(3)]
  have dv: "c div 64 = n - 192" "c mod 64 = unat b1 - 128"
    by (simp_all only: assms(4) div_mod_64 [OF b1(1)])
  have lo: "128 \<le> c" using assms(1,4) by simp
  have hi: "c < 2048" using assms(2) b1(1) assms(4) by simp
  have "192 + (n - 192) = n" using assms(1) by simp
  with lo hi dv b1(2) show ?thesis by (simp add: utf8_char_def)
qed

lemma utf8_step_inv_3:
  assumes "224 \<le> n" "n < 240" "is_cont b1" "is_cont b2"
    and "c = (n - 224) * 4096 + (unat b1 - 128) * 64 + (unat b2 - 128)" "2048 \<le> c"
  shows "c < 65536 \<and> utf8_char c = [byte_of n, b1, b2]"
proof -
  note b1 = cont_split [OF assms(3)] and b2 = cont_split [OF assms(4)]
  have c: "c = ((n - 224) * 64 + (unat b1 - 128)) * 64 + (unat b2 - 128)"
    using assms(5) by (simp add: algebra_simps)
  have d1: "c div 64 = (n - 224) * 64 + (unat b1 - 128)" "c mod 64 = unat b2 - 128"
    by (simp_all only: c div_mod_64 [OF b2(1)])
  have d2: "c div 64 mod 64 = unat b1 - 128" "c div 64 div 64 = n - 224"
    by (simp_all only: d1(1) div_mod_64 [OF b1(1)])
  have d3: "c div 4096 = n - 224" using d2(2) by (simp add: div_4096)
  have hi: "c < 65536"
  proof -
    have "c div 4096 < 16" using d3 assms(2) by simp
    then show ?thesis by simp
  qed
  have "224 + (n - 224) = n" using assms(1) by simp
  with hi assms(6) d1(2) d2(1) d3 b1(2) b2(2) show ?thesis by (simp add: utf8_char_def)
qed

lemma utf8_step_inv_4:
  assumes "240 \<le> n" "n < 245" "is_cont b1" "is_cont b2" "is_cont b3"
    and "c = (n - 240) * 262144 + (unat b1 - 128) * 4096 + (unat b2 - 128) * 64 + (unat b3 - 128)"
    and "65536 \<le> c"
  shows "utf8_char c = [byte_of n, b1, b2, b3]"
proof -
  note b1 = cont_split [OF assms(3)] and b2 = cont_split [OF assms(4)] and b3 = cont_split [OF assms(5)]
  have c: "c = (((n - 240) * 64 + (unat b1 - 128)) * 64 + (unat b2 - 128)) * 64 + (unat b3 - 128)"
    using assms(6) by (simp add: algebra_simps)
  have d1: "c div 64 = ((n - 240) * 64 + (unat b1 - 128)) * 64 + (unat b2 - 128)" "c mod 64 = unat b3 - 128"
    by (simp_all only: c div_mod_64 [OF b3(1)])
  have d2: "c div 64 mod 64 = unat b2 - 128" "c div 64 div 64 = (n - 240) * 64 + (unat b1 - 128)"
    by (simp_all only: d1(1) div_mod_64 [OF b2(1)])
  have d3: "c div 4096 mod 64 = unat b1 - 128" "c div 4096 div 64 = n - 240"
    by (simp_all only: div_4096 d2(2) div_mod_64 [OF b1(1)])
  have d4: "c div 262144 = n - 240" using d3(2) by (simp add: div_262144)
  have "240 + (n - 240) = n" using assms(1) by simp
  with assms(7) d1(2) d2(1) d3(1) d4 b1(2) b2(2) b3(2) show ?thesis by (simp add: utf8_char_def)
qed

lemma utf8_step_inv:
  assumes "utf8_step bs = Some (c, r)"
  shows "c < 1114112 \<and> \<not> is_surrogate c \<and> bs = utf8_char c @ r"
proof (cases bs)
  case Nil
  with assms show ?thesis by (simp add: utf8_step_def)
next
  case (Cons b0 r0)
  let ?n = "unat b0"
  have b0: "byte_of ?n = b0" by simp
  consider "?n < 128" | "194 \<le> ?n" "?n < 224" | "224 \<le> ?n" "?n < 240" | "240 \<le> ?n" "?n < 245"
    | "\<not> ?n < 128" "\<not> (194 \<le> ?n \<and> ?n < 224)" "\<not> (224 \<le> ?n \<and> ?n < 240)" "\<not> (240 \<le> ?n \<and> ?n < 245)"
    by linarith
  then show ?thesis
  proof cases
    case 1
    with assms Cons have "c = ?n" "r = r0" by (simp_all add: utf8_step_def)
    with 1 Cons b0 show ?thesis by (simp add: utf8_char_def is_surrogate_def)
  next
    case 2
    with assms Cons obtain b1 r1 where r0: "r0 = b1 # r1" and cb: "is_cont b1"
      and cv: "c = (?n - 192) * 64 + (unat b1 - 128)" and r: "r = r1"
      by (auto simp: utf8_step_def split: list.splits if_splits)
    from utf8_step_inv_2 [OF 2 cb cv] Cons r0 r b0 show ?thesis by (simp add: is_surrogate_def)
  next
    case 3
    with assms Cons obtain b1 b2 r2 where r0: "r0 = b1 # b2 # r2" and cb: "is_cont b1" "is_cont b2"
      and cv: "c = (?n - 224) * 4096 + (unat b1 - 128) * 64 + (unat b2 - 128)"
      and lo: "2048 \<le> c" and ns: "\<not> is_surrogate c" and r: "r = r2"
      by (auto simp: utf8_step_def Let_def split: list.splits if_splits)
    from utf8_step_inv_3 [OF 3 cb cv lo] Cons r0 r b0 ns show ?thesis by simp
  next
    case 4
    with assms Cons obtain b1 b2 b3 r3 where r0: "r0 = b1 # b2 # b3 # r3"
      and cb: "is_cont b1" "is_cont b2" "is_cont b3"
      and cv: "c = (?n - 240) * 262144 + (unat b1 - 128) * 4096 + (unat b2 - 128) * 64 + (unat b3 - 128)"
      and lo: "65536 \<le> c" and hi: "c < 1114112" and r: "r = r3"
      by (auto simp: utf8_step_def Let_def split: list.splits if_splits)
    have "\<not> is_surrogate c" using lo by (simp add: is_surrogate_def)
    with utf8_step_inv_4 [OF 4 cb cv lo] Cons r0 r b0 hi show ?thesis by simp
  next
    case 5
    with assms Cons show ?thesis by (simp add: utf8_step_def)
  qed
qed

lemma utf8_decode_inv:
  "utf8_decode bs = Some s \<Longrightarrow>
   valid_pystr s \<and> (\<forall>c\<in>set s. \<not> is_surrogate c) \<and> bs = concat (map utf8_char s)"
proof (induction bs arbitrary: s rule: utf8_decode.induct)
  case (1 bs)
  show ?case
  proof (cases "bs = []")
    case True
    with "1.prems" show ?thesis by simp
  next
    case False
    with "1.prems" obtain c r s' where st: "utf8_step bs = Some (c, r)"
      and dr: "utf8_decode r = Some s'" and s: "s = c # s'"
      by (auto simp: utf8_decode.simps [of bs] split: option.splits)
    from "1.IH" [OF False st _ dr] have "valid_pystr s' \<and> (\<forall>c\<in>set s'. \<not> is_surrogate c) \<and> r = concat (map utf8_char s')"
      by simp
    with utf8_step_inv [OF st] s show ?thesis by simp
  qed
qed

subsection \<open>Properties of the codec\<close>

text \<open>
  C16. Whatever the encoder writes, the strict decoder reads back as the same string.
\<close>

theorem utf8_roundtrip:
  "valid_pystr s \<Longrightarrow> utf8_encode s = Inr bs \<Longrightarrow> utf8_decode bs = Some s"
  by (simp add: utf8_encode_Inr_iff utf8_decode_chars)

theorem utf8_roundtrip_witness:
  "valid_pystr [65, 233, 8364, 128512] \<and>
   utf8_encode [65, 233, 8364, 128512] = Inr [65, 195, 169, 226, 130, 172, 240, 159, 152, 128] \<and>
   utf8_decode [65, 195, 169, 226, 130, 172, 240, 159, 152, 128] = Some [65, 233, 8364, 128512]"
proof -
  have v: "valid_pystr [65, 233, 8364, 128512]" by simp
  have e: "utf8_encode [65, 233, 8364, 128512] = Inr [65, 195, 169, 226, 130, 172, 240, 159, 152, 128]"
    by (simp add: utf8_encode_def utf8_char_def is_surrogate_def byte_of_def)
  show ?thesis using utf8_roundtrip [OF v e] v e by simp
qed

text \<open>
  C17. Each code point takes one to four bytes, and the byte count equals the
  character count exactly when the text is ASCII.
\<close>

theorem utf8_length_bounds:
  "utf8_encode s = Inr bs \<Longrightarrow>
   length s \<le> length bs \<and> length bs \<le> 4 * length s \<and> (length bs = length s \<longleftrightarrow> (\<forall>c\<in>set s. c < 128))"
  using length_utf8_chars_bounds length_utf8_chars_eq_iff by (simp add: utf8_encode_Inr_iff)

theorem utf8_length_bounds_witness:
  "utf8_encode [65, 233] = Inr [65, 195, 169] \<and> 2 \<le> length [65::byte, 195, 169] \<and>
   length [65::byte, 195, 169] \<noteq> 2"
proof -
  have e: "utf8_encode [65, 233] = Inr [65, 195, 169]"
    by (simp add: utf8_encode_def utf8_char_def is_surrogate_def byte_of_def)
  show ?thesis using utf8_length_bounds [OF e] e by simp
qed

text \<open>
  C18. The encoder refuses a string exactly at its first surrogate: the error names the
  maximal run of surrogates that starts there, and everything before it is encodable.
\<close>

theorem utf8_encode_error_run:
  assumes "utf8_encode s = Inl (a, b)"
  shows "a < b \<and> b \<le> length s \<and> (\<forall>j<a. \<not> is_surrogate (s ! j))
         \<and> (\<forall>j. a \<le> j \<and> j < b \<longrightarrow> is_surrogate (s ! j))
         \<and> (b < length s \<longrightarrow> \<not> is_surrogate (s ! b))"
proof -
  let ?i = "length (takeWhile (\<lambda>c. \<not> is_surrogate c) s)"
  from assms have ne: "?i \<noteq> length s" and a: "a = ?i"
    and b: "b = ?i + length (takeWhile is_surrogate (drop ?i s))"
    by (auto simp: utf8_encode_def Let_def split: if_splits)
  then have lt: "?i < length s" using length_takeWhile_le [of _ s] le_neq_implies_less by blast
  then have sur: "is_surrogate (s ! ?i)" using nth_length_takeWhile by fastforce
  let ?d = "drop ?i s"
  have run_pos: "0 < length (takeWhile is_surrogate ?d)"
    using lt sur by (cases ?d) (auto simp: Cons_nth_drop_Suc [symmetric])
  have stop: "length (takeWhile is_surrogate ?d) < length ?d \<longrightarrow>
              \<not> is_surrogate (?d ! length (takeWhile is_surrogate ?d))"
    using nth_length_takeWhile by blast
  have bound: "length (takeWhile is_surrogate ?d) \<le> length ?d" by (rule length_takeWhile_le)
  show ?thesis
  proof (intro conjI allI impI)
    show "a < b" using a b run_pos by simp
    show "b \<le> length s" using b bound lt by simp
    show "\<And>j. j < a \<Longrightarrow> \<not> is_surrogate (s ! j)"
      using a nth_takeWhile_prop [of _ "\<lambda>c. \<not> is_surrogate c" s] by simp
    fix j assume j: "a \<le> j \<and> j < b"
    then have "j - ?i < length (takeWhile is_surrogate ?d)" using a b by linarith
    then have "is_surrogate (?d ! (j - ?i))" by (rule nth_takeWhile_prop)
    then show "is_surrogate (s ! j)" using j a lt by simp
  next
    assume "b < length s"
    then show "\<not> is_surrogate (s ! b)" using stop a b lt by simp
  qed
qed

theorem utf8_encode_error_run_witness:
  "utf8_encode [65, 55296, 56320, 66] = Inl (1, 3) \<and> is_surrogate ([65, 55296, 56320, 66] ! 2)
   \<and> \<not> is_surrogate ([65, 55296, 56320, 66] ! 3)"
proof -
  have e: "utf8_encode [65, 55296, 56320, 66] = Inl (1, 3)"
    by (simp add: utf8_encode_def is_surrogate_def)
  show ?thesis using utf8_encode_error_run [OF e] e by (simp add: is_surrogate_def)
qed

end
