(* ===== verification/Glob.thy ===== *)
theory Glob
  imports Prelude
begin

text \<open>
  The file discovery of \<open>main\<close> (line 8): \<open>glob.glob\<close> on \<open>cwd/BKGR Lettre
  Quotidienne*.pdf\<close>. In a directory, the standard library lists the names
  (\<open>glob._listdir\<close>, where an \<open>OSError\<close> gives no names), drops the names that start
  with a dot unless the pattern does (\<open>glob._ishidden\<close>), and keeps the names that
  \<open>fnmatch\<close> matches, in listing order (\<open>fnmatch.filter\<close>). This theory holds the
  pattern language: \<open>fnmatch_translate\<close> follows CPython's \<open>fnmatch._translate\<close>
  (compressed \<open>*\<close>, \<open>?\<close>, bracket expressions with their chunking into ranges and
  the removal of empty ranges, a \<open>[\<close> without closing \<open>]\<close> as a literal), and
  \<open>bracket_tok\<close> reads the character class the way the \<open>re\<close> parser reads the
  translated \<open>[...]\<close>. \<open>wmatch\<close> is the backtracking matcher of the tokens, proved
  equal to the inductive language \<open>matches\<close>.
\<close>

datatype 'a pat_tok = Lit 'a | AnyChar | AnyString | CharSet bool "('a \<times> 'a) list"

definition in_ranges :: "('a::linorder \<times> 'a) list \<Rightarrow> 'a \<Rightarrow> bool" where
  "in_ranges rs x = list_ex (\<lambda>(a, b). a \<le> x \<and> x \<le> b) rs"

fun wmatch :: "'a::linorder pat_tok list \<Rightarrow> 'a list \<Rightarrow> bool" where
  "wmatch [] s = (s = [])"
| "wmatch (Lit c # p) [] = False"
| "wmatch (Lit c # p) (x # s) = (x = c \<and> wmatch p s)"
| "wmatch (AnyChar # p) [] = False"
| "wmatch (AnyChar # p) (x # s) = wmatch p s"
| "wmatch (AnyString # p) [] = wmatch p []"
| "wmatch (AnyString # p) (x # s) = (wmatch p (x # s) \<or> wmatch (AnyString # p) s)"
| "wmatch (CharSet neg rs # p) [] = False"
| "wmatch (CharSet neg rs # p) (x # s) = (in_ranges rs x \<noteq> neg \<and> wmatch p s)"

inductive matches :: "'a::linorder pat_tok list \<Rightarrow> 'a list \<Rightarrow> bool" where
  m_nil: "matches [] []"
| m_lit: "matches p s \<Longrightarrow> matches (Lit c # p) (c # s)"
| m_any: "matches p s \<Longrightarrow> matches (AnyChar # p) (c # s)"
| m_star: "matches p s \<Longrightarrow> matches (AnyString # p) (u @ s)"
| m_set: "in_ranges rs c \<noteq> neg \<Longrightarrow> matches p s \<Longrightarrow> matches (CharSet neg rs # p) (c # s)"

inductive_cases matches_StarE: "matches (AnyString # p) s"

subsection \<open>Bracket expressions\<close>

text \<open>
  The scan for the closing bracket: after \<open>[\<close>, an optional \<open>!\<close>, then an optional
  \<open>]\<close> taken literally, then up to the next \<open>]\<close>. \<open>bracket_end pat\<close> is the length
  of the text between the brackets, when there is a closing one.
\<close>

definition bracket_end :: "pystr \<Rightarrow> nat option" where
  "bracket_end pat =
     (let k1 = (if pat \<noteq> [] \<and> hd pat = 33 then 1 else 0);
          k2 = (if k1 < length pat \<and> pat ! k1 = 93 then Suc k1 else k1);
          j = k2 + length (takeWhile (\<lambda>c. c \<noteq> 93) (drop k2 pat))
      in if j < length pat then Some j else None)"

text \<open>\<open>str.find(c, k)\<close>: the first index at or after \<open>k\<close> holding \<open>c\<close>.\<close>

definition find_from :: "codepoint \<Rightarrow> pystr \<Rightarrow> nat \<Rightarrow> nat option" where
  "find_from c s k =
     (if c \<in> set (drop k s) then Some (k + length (takeWhile (\<lambda>x. x \<noteq> c) (drop k s))) else None)"

text \<open>
  The chunking loop of \<open>_translate\<close>: \<open>k = pat.find('-', k, j)\<close>; the chunk
  \<open>pat[i:k]\<close> is kept, \<open>i = k+1\<close>, \<open>k = k+3\<close>.
\<close>

function chunk_loop :: "pystr \<Rightarrow> nat \<Rightarrow> nat \<Rightarrow> pystr list \<Rightarrow> pystr list \<times> nat" where
  "chunk_loop s i k acc =
     (case find_from 45 s k of
        None \<Rightarrow> (acc, i)
      | Some f \<Rightarrow> chunk_loop s (Suc f) (f + 3) (acc @ [drop i (take f s)]))"
  by pat_completeness auto

termination
proof (relation "measure (\<lambda>(s, i, k, acc). length s - k)")
  fix s :: pystr and i k :: nat and acc :: "pystr list" and f :: nat
  assume f: "find_from 45 s k = Some f"
  then have m: "45 \<in> set (drop k s)" by (simp add: find_from_def split: if_splits)
  have "length (takeWhile (\<lambda>x. x \<noteq> 45) (drop k s)) < length (drop k s)"
    using m by (metis (mono_tags) length_takeWhile_eq_iff linorder_neqE_nat
        length_takeWhile_le not_le)
  then have "k \<le> f \<and> f < length s" using f m by (auto simp: find_from_def)
  then show "((s, Suc f, f + 3, acc @ [drop i (take f s)]), (s, i, k, acc))
             \<in> measure (\<lambda>(s, i, k, acc). length s - k)" by auto
qed simp

declare chunk_loop.simps [simp del]

text \<open>
  The chunks of the text between the brackets; an empty last chunk turns the last
  \<open>-\<close> into a literal one.
\<close>

definition bracket_chunks :: "pystr \<Rightarrow> pystr list" where
  "bracket_chunks s =
     (let (cs, i) = chunk_loop s 0 (if s \<noteq> [] \<and> hd s = 33 then 2 else 1) [];
          chunk = drop i s
      in if chunk \<noteq> [] then cs @ [chunk] else butlast cs @ [last cs @ [45]])"

text \<open>
  Removal of empty ranges, \<open>for k in range(len(chunks)-1, 0, -1)\<close>: a chunk whose
  first character is below the last one of the chunk before is merged with it.
\<close>

fun merge_ranges :: "nat \<Rightarrow> pystr list \<Rightarrow> pystr list" where
  "merge_ranges 0 cs = cs"
| "merge_ranges (Suc k) cs =
     merge_ranges k
       (if hd (cs ! Suc k) < last (cs ! k)
        then take k cs @ [butlast (cs ! k) @ tl (cs ! Suc k)] @ drop (Suc (Suc k)) cs
        else cs)"

text \<open>
  The translated class: escaped characters and the hyphens that join chunks, read
  as the \<open>re\<close> parser reads a class (\<open>a-b\<close> a range, any other character itself).
\<close>

datatype class_atom = CChr codepoint | CDash

fun join_dash :: "class_atom list list \<Rightarrow> class_atom list" where
  "join_dash [] = []"
| "join_dash [x] = x"
| "join_dash (x # y # r) = x @ CDash # join_dash (y # r)"

definition bracket_atoms :: "pystr \<Rightarrow> class_atom list" where
  "bracket_atoms s =
     (if 45 \<notin> set s then map CChr s
      else let cs = bracket_chunks s in join_dash (map (map CChr) (merge_ranges (length cs - 1) cs)))"

fun class_ranges :: "class_atom list \<Rightarrow> (codepoint \<times> codepoint) list" where
  "class_ranges [] = []"
| "class_ranges (CChr a # CDash # CChr b # r) = (a, b) # class_ranges r"
| "class_ranges (CChr a # r) = (a, a) # class_ranges r"
| "class_ranges (CDash # r) = (45, 45) # class_ranges r"

text \<open>
  An empty class never matches (\<open>(?!)\<close>), a lone \<open>!\<close> matches any character
  (\<open>.\<close> under \<open>(?s:...)\<close>), a leading \<open>!\<close> negates.
\<close>

definition bracket_tok :: "pystr \<Rightarrow> codepoint pat_tok" where
  "bracket_tok s =
     (let a = bracket_atoms s in
      if a = [] then CharSet False []
      else if a = [CChr 33] then CharSet True []
      else if hd a = CChr 33 then CharSet True (class_ranges (tl a))
      else CharSet False (class_ranges a))"

fun translate_loop :: "pystr \<Rightarrow> codepoint pat_tok list \<Rightarrow> codepoint pat_tok list" where
  "translate_loop [] res = res"
| "translate_loop (c # pat) res =
     (if c = 42 then translate_loop pat (if res \<noteq> [] \<and> last res = AnyString then res else res @ [AnyString])
      else if c = 63 then translate_loop pat (res @ [AnyChar])
      else if c = 91 then
        (case bracket_end pat of
           None \<Rightarrow> translate_loop pat (res @ [Lit 91])
         | Some j \<Rightarrow> translate_loop (drop (Suc j) pat) (res @ [bracket_tok (take j pat)]))
      else translate_loop pat (res @ [Lit c]))"

definition fnmatch_translate :: "pystr \<Rightarrow> codepoint pat_tok list" where
  "fnmatch_translate pat = translate_loop pat []"

text \<open>\<open>glob.has_magic\<close>: the pattern holds \<open>*\<close>, \<open>?\<close> or \<open>[\<close>.\<close>

definition has_magic :: "pystr \<Rightarrow> bool" where
  "has_magic s = (42 \<in> set s \<or> 63 \<in> set s \<or> 91 \<in> set s)"

definition glob_ishidden :: "pystr \<Rightarrow> bool" where
  "glob_ishidden s = (case s of c # _ \<Rightarrow> c = 46 | [] \<Rightarrow> False)"

definition glob1 :: "pystr list \<Rightarrow> pystr \<Rightarrow> codepoint pat_tok list \<Rightarrow> pystr list" where
  "glob1 names pattern toks =
     filter (wmatch toks)
       (if glob_ishidden pattern then names else filter (\<lambda>x. \<not> glob_ishidden x) names)"

subsection \<open>The backtracking matcher is the inductive language\<close>

lemma wmatch_star_append: "wmatch p s \<Longrightarrow> wmatch (AnyString # p) (u @ s)"
proof (induction u)
  case Nil
  then show ?case by (cases s) simp_all
qed simp

lemma matches_star_Cons: "matches (AnyString # p) s \<Longrightarrow> matches (AnyString # p) (x # s)"
  by (erule matches_StarE) (metis append_Cons matches.m_star)

lemma wmatch_matches: "wmatch p s \<Longrightarrow> matches p s"
proof (induction p s rule: wmatch.induct)
  case (6 p)
  then show ?case using matches.m_star [of p "[]" "[]"] by simp
next
  case (7 p x s)
  then show ?case using matches.m_star [of p "x # s" "[]"] matches_star_Cons by auto
qed (auto intro: matches.intros)

lemma matches_wmatch: "matches p s \<Longrightarrow> wmatch p s"
  by (induction rule: matches.induct) (simp_all add: wmatch_star_append)

subsection \<open>Literal prefix, one star, literal suffix\<close>

lemma wmatch_Lits_append: "wmatch (map Lit u @ p) s \<longleftrightarrow> (\<exists>r. s = u @ r \<and> wmatch p r)"
proof (induction u arbitrary: s)
  case (Cons c u)
  then show ?case by (cases s) auto
qed simp

lemma wmatch_Lits: "wmatch (map Lit v) s \<longleftrightarrow> s = v"
  using wmatch_Lits_append [of v "[]" s] by simp

lemma wmatch_star_Lits: "wmatch (AnyString # map Lit v) s \<longleftrightarrow> (\<exists>m. s = m @ v)"
proof (induction s)
  case Nil
  then show ?case by (auto simp: wmatch_Lits)
next
  case (Cons x s)
  then show ?case by (auto simp: wmatch_Lits Cons_eq_append_conv)
qed

lemma wmatch_prefix_star_suffix:
  "wmatch (map Lit u @ AnyString # map Lit v) s \<longleftrightarrow> (\<exists>m. s = u @ m @ v)"
  by (auto simp: wmatch_Lits_append wmatch_star_Lits)

subsection \<open>Patterns without wildcards\<close>

lemma translate_loop_no_magic:
  "\<not> has_magic p \<Longrightarrow> translate_loop p res = res @ map Lit p"
  by (induction p arbitrary: res) (auto simp: has_magic_def)

lemma fnmatch_literal:
  "\<not> has_magic p \<Longrightarrow> wmatch (fnmatch_translate p) s \<longleftrightarrow> s = p"
  by (simp add: fnmatch_translate_def translate_loop_no_magic wmatch_Lits)

text \<open>
  C19. The backtracking matcher accepts exactly the strings of the pattern's language.
\<close>

theorem wmatch_iff_matches:
  "wmatch p s \<longleftrightarrow> matches p s"
  using wmatch_matches matches_wmatch by blast

end
