(* ===== verification/World.thy ===== *)
theory World
  imports PyFormat Utf8 Glob
begin

text \<open>
  The part of the operating system the script touches: its working directory (its
  entries in \<open>os.scandir\<close> order, each a regular file with its bytes or a
  subdirectory with its own tree), whether the directory can be listed, the names that \<open>open(..., "w")\<close> refuses, and standard output as the
  list of printed lines with the error handler of its encoder. \<open>print\<close> appends a
  line, or raises \<open>UnicodeEncodeError\<close> when the encoder refuses it; \<open>open(path, "w")\<close>
  raises \<open>IsADirectoryError\<close> on a directory (the kernel's \<open>EISDIR\<close> comes before its
  permission check) and otherwise creates or truncates the file before anything is written (\<open>AList.update\<close> keeps the position of
  an existing name and appends a new one, as a directory listing does); \<open>f.write\<close>
  encodes the text with the UTF-8 codec of \<open>Utf8\<close> and raises without writing when
  the codec refuses it. The \<open>with\<close> block closes the file on both paths, so the world
  after a failed write is the truncated one. Paths are joined as
  \<open>posixpath.join\<close> joins two components.
\<close>

datatype node = File bytes | Dir bool "(pystr \<times> node) list"

fun is_dir :: "node \<Rightarrow> bool" where
  "is_dir (Dir r es) = True"
| "is_dir (File b) = False"

record world =
  cwd :: pystr
  entries :: "(pystr \<times> node) list"
  listable :: bool
  denied :: "pystr list"
  console :: "pystr list"
  stdout_errors :: err_handler

definition path_join :: "pystr \<Rightarrow> pystr \<Rightarrow> pystr" where
  "path_join a b =
     (if b \<noteq> [] \<and> hd b = 47 then b
      else if a = [] \<or> last a = 47 then a @ b
      else a @ [47] @ b)"

definition py_print :: "world \<Rightarrow> pystr \<Rightarrow> world" where
  "py_print w s = w\<lparr>console := console w @ [s]\<rparr>"

text \<open>
  \<open>print(s)\<close>: standard output encodes the whole line first; when its codec refuses
  the line, \<open>UnicodeEncodeError\<close> is raised and nothing is written.
\<close>

definition print_line :: "world \<Rightarrow> pystr \<Rightarrow> (py_exc \<times> world) + world" where
  "print_line w s =
     (case encode_error (stdout_errors w) 0 s of
        None \<Rightarrow> Inr (py_print w s)
      | Some (a, b) \<Rightarrow> Inl (UnicodeEncodeError s a b, w))"

definition scandir_names :: "world \<Rightarrow> pystr list" where
  "scandir_names w = (if listable w then map fst (entries w) else [])"

definition glob_cwd :: "world \<Rightarrow> pystr \<Rightarrow> codepoint pat_tok list \<Rightarrow> pystr list" where
  "glob_cwd w pattern toks = map (path_join (cwd w)) (glob1 (scandir_names w) pattern toks)"

definition resolve :: "world \<Rightarrow> pystr \<Rightarrow> node option" where
  "resolve w p = map_option snd (find (\<lambda>e. path_join (cwd w) (fst e) = p) (entries w))"

definition dir_entry :: "world \<Rightarrow> pystr \<Rightarrow> bool" where
  "dir_entry w name = (case map_of (entries w) name of Some nd \<Rightarrow> is_dir nd | None \<Rightarrow> False)"

definition open_write :: "world \<Rightarrow> pystr \<Rightarrow> py_exc + world" where
  "open_write w name =
     (if dir_entry w name
      then Inl (OSError 21 (py ''Is a directory'') (path_join (cwd w) name))
      else if name \<in> set (denied w)
      then Inl (OSError 13 (py ''Permission denied'') (path_join (cwd w) name))
      else Inr (w\<lparr>entries := AList.update name (File []) (entries w)\<rparr>))"

definition write_text :: "world \<Rightarrow> pystr \<Rightarrow> pystr \<Rightarrow> (py_exc \<times> world) + world" where
  "write_text w name text =
     (case open_write w name of
        Inl e \<Rightarrow> Inl (e, w)
      | Inr w1 \<Rightarrow>
          (case utf8_encode text of
             Inl (a, b) \<Rightarrow> Inl (UnicodeEncodeError text a b, w1)
           | Inr bs \<Rightarrow> Inr (w1\<lparr>entries := AList.update name (File bs) (entries w1)\<rparr>)))"

text \<open>
  Well-formed directories: entry names are distinct, non-empty, valid strings without a
  slash.
\<close>

definition good_name :: "pystr \<Rightarrow> bool" where
  "good_name n = (n \<noteq> [] \<and> 47 \<notin> set n \<and> valid_pystr n)"

definition wf_world :: "world \<Rightarrow> bool" where
  "wf_world w = (distinct (map fst (entries w)) \<and> (\<forall>n\<in>set (map fst (entries w)). good_name n))"

subsection \<open>Effects of the operations\<close>

lemma py_print_simps [simp]:
  "entries (py_print w s) = entries w"
  "cwd (py_print w s) = cwd w"
  "listable (py_print w s) = listable w"
  "denied (py_print w s) = denied w"
  "console (py_print w s) = console w @ [s]"
  by (simp_all add: py_print_def)

lemma print_line_ok:
  "encodable (stdout_errors w) s \<Longrightarrow> print_line w s = Inr (py_print w s)"
  using encode_error_None_iff [of "stdout_errors w" 0 s] by (simp add: print_line_def encodable_def)

lemma print_line_fail:
  "\<not> encodable (stdout_errors w) s \<Longrightarrow> \<exists>a b. print_line w s = Inl (UnicodeEncodeError s a b, w)"
  using encode_error_None_iff [of "stdout_errors w" 0 s]
  by (cases "encode_error (stdout_errors w) 0 s") (auto simp: print_line_def encodable_def)

lemma stdout_errors_print [simp]: "stdout_errors (py_print w s) = stdout_errors w"
  by (simp add: py_print_def)

lemma write_text_ok:
  "write_text w name text = Inr w' \<longleftrightarrow>
     \<not> dir_entry w name \<and> name \<notin> set (denied w) \<and> (\<forall>c\<in>set text. \<not> is_surrogate c) \<and>
     w' = w\<lparr>entries := AList.update name (File (concat (map utf8_char text))) (entries w)\<rparr>"
proof -
  have "AList.update name nd (AList.update name (File []) al) = AList.update name nd al" for nd al
    by (induction al) auto
  then show ?thesis
    by (auto simp: write_text_def open_write_def utf8_encode_Inr_iff utf8_encode_no_surrogate
        split: sum.splits)
qed

lemma write_text_success:
  "\<not> dir_entry w name \<Longrightarrow> name \<notin> set (denied w) \<Longrightarrow> \<forall>c\<in>set text. \<not> is_surrogate c \<Longrightarrow>
   write_text w name text = Inr (w\<lparr>entries := AList.update name (File (concat (map utf8_char text))) (entries w)\<rparr>)"
  by (simp add: write_text_ok)

lemma write_text_is_dir:
  "dir_entry w name \<Longrightarrow>
   write_text w name text = Inl (OSError 21 (py ''Is a directory'') (path_join (cwd w) name), w)"
  by (simp add: write_text_def open_write_def)

lemma write_text_denied:
  "\<not> dir_entry w name \<Longrightarrow> name \<in> set (denied w) \<Longrightarrow>
   write_text w name text = Inl (OSError 13 (py ''Permission denied'') (path_join (cwd w) name), w)"
  by (simp add: write_text_def open_write_def)

lemma write_text_encode_error:
  "\<not> dir_entry w name \<Longrightarrow> name \<notin> set (denied w) \<Longrightarrow> utf8_encode text = Inl (a, b) \<Longrightarrow>
   write_text w name text = Inl (UnicodeEncodeError text a b, w\<lparr>entries := AList.update name (File []) (entries w)\<rparr>)"
  by (simp add: write_text_def open_write_def)

lemma wf_world_update:
  "wf_world w \<Longrightarrow> good_name n \<Longrightarrow> wf_world (w\<lparr>entries := AList.update n nd (entries w)\<rparr>)"
  by (auto simp: wf_world_def AList.distinct_update AList.update_keys)

lemma wf_world_print [simp]: "wf_world (py_print w s) = wf_world w"
  by (simp add: wf_world_def)

lemma path_join_name:
  "good_name n \<Longrightarrow> cwd w \<noteq> [] \<Longrightarrow> last (cwd w) \<noteq> 47 \<Longrightarrow>
   path_join (cwd w) n = cwd w @ [47] @ n"
  by (cases n) (auto simp: path_join_def good_name_def)

lemma path_join_good:
  "good_name n \<Longrightarrow> path_join c n = (if c = [] \<or> last c = 47 then c @ n else c @ [47] @ n)"
  by (cases n) (auto simp: path_join_def good_name_def)

lemma valid_path_join [simp]:
  "valid_pystr a \<Longrightarrow> valid_pystr b \<Longrightarrow> valid_pystr (path_join a b)"
  by (simp add: path_join_def)

lemma path_join_inj:
  "good_name a \<Longrightarrow> good_name b \<Longrightarrow> path_join c a = path_join c b \<longleftrightarrow> a = b"
  by (simp add: path_join_good)

lemma find_path_join:
  "\<forall>e\<in>set al. good_name (fst e) \<Longrightarrow> good_name n \<Longrightarrow>
   map_option snd (find (\<lambda>e. path_join c (fst e) = path_join c n) al) = map_of al n"
  by (induction al) (auto simp: path_join_inj)

lemma resolve_name:
  "wf_world w \<Longrightarrow> n \<in> set (map fst (entries w)) \<Longrightarrow>
   resolve w (path_join (cwd w) n) = map_of (entries w) n"
  unfolding resolve_def wf_world_def
  by (rule find_path_join) auto

lemma map_of_entries:
  "wf_world w \<Longrightarrow> (n, nd) \<in> set (entries w) \<Longrightarrow> map_of (entries w) n = Some nd"
  by (simp add: wf_world_def)

lemma dir_entry_file:
  "wf_world w \<Longrightarrow> (n, File bs) \<in> set (entries w) \<Longrightarrow> \<not> dir_entry w n"
  by (simp add: dir_entry_def map_of_entries)

lemma dir_entry_dir:
  "wf_world w \<Longrightarrow> (n, Dir b es) \<in> set (entries w) \<Longrightarrow> dir_entry w n"
  by (simp add: dir_entry_def map_of_entries)

lemma dir_entry_print [simp]:
  "dir_entry (py_print w s) n = dir_entry w n"
  "dir_entry (w\<lparr>console := c\<rparr>) n = dir_entry w n"
  by (simp_all add: dir_entry_def)

text \<open>
  C22. The output file is never reinterpreted: for any bytes the strict decoder reads
  as a string, the string is valid and writing it back with \<open>write_text\<close> (the
  \<open>with open(..., "w", encoding="utf-8")\<close> block) to a name that is not a directory
  and may be written leaves exactly those bytes in the file.
\<close>

theorem write_text_decoded:
  assumes "utf8_decode bs = Some s" and "\<not> dir_entry w name" and "name \<notin> set (denied w)"
  shows "valid_pystr s \<and> write_text w name s = Inr (w\<lparr>entries := AList.update name (File bs) (entries w)\<rparr>)"
  using utf8_decode_inv [OF assms(1)] write_text_success [OF assms(2,3)] by simp

end
