(* ===== verification/Runner.thy ===== *)
theory Runner
  imports Extract World
begin

text \<open>
  \<open>main\<close> of \<open>src/scripts/analyze_pdf.py\<close> (lines 6--39). The PDF library is the
  opaque collaborator \<open>pdf_reader\<close>: given the bytes of a file, \<open>PdfReader\<close> and
  \<open>reader.pages\<close> either raise or give the pages, each page being the outcome of its
  \<open>extract_text()\<close> call. The \<open>try\<close> body is \<open>main_try\<close>; it returns the
  exception together with the world as it was when the exception was raised (lines
  printed and files truncated before it stay), and \<open>main\<close> prints the handler's
  message. \<open>report\<close> is the four \<open>print\<close> calls after the write.
\<close>

type_synonym pdf_reader = "bytes \<Rightarrow> py_exc + page list"

definition pdf_prefix :: pystr where
  "pdf_prefix = py ''BKGR Lettre Quotidienne''"

definition pdf_suffix :: pystr where
  "pdf_suffix = py ''.pdf''"

definition pdf_pattern :: pystr where
  "pdf_pattern = pdf_prefix @ py ''*'' @ pdf_suffix"

definition pdf_tokens :: "codepoint pat_tok list" where
  "pdf_tokens = map Lit pdf_prefix @ AnyString # map Lit pdf_suffix"

definition output_name :: pystr where
  "output_name = py ''latest_pdf_content.txt''"

definition read_pdf :: "pdf_reader \<Rightarrow> world \<Rightarrow> pystr \<Rightarrow> py_exc + page list" where
  "read_pdf rd w path =
     (case resolve w path of
        None \<Rightarrow> Inl (OSError 2 (py ''No such file or directory'') path)
      | Some (File bs) \<Rightarrow> rd bs
      | Some (Dir r es) \<Rightarrow> Inl (OSError 21 (py ''Is a directory'') path))"

definition report :: "world \<Rightarrow> pystr \<Rightarrow> (py_exc \<times> world) + world" where
  "report w text =
     res_bind (print_line w (py ''Success! Extracted '' @ str_nat (length text) @ py '' characters.''))
       (\<lambda>w1. res_bind (print_line w1 (py ''--- First 500 characters ---''))
       (\<lambda>w2. res_bind (print_line w2 (take 500 text))
       (\<lambda>w3. print_line w3 (py ''----------------------------''))))"

definition main_try :: "pdf_reader \<Rightarrow> pystr \<Rightarrow> world \<Rightarrow> (py_exc \<times> world) + world" where
  "main_try rd pdf_path w =
     (case read_pdf rd w pdf_path of
        Inl e \<Rightarrow> Inl (e, w)
      | Inr pages \<Rightarrow>
          res_bind (print_line w (py ''Number of Pages: '' @ str_nat (length pages))) (\<lambda>w1.
          (case extract_loop 0 pages [] of
             Inl e \<Rightarrow> Inl (e, w1)
           | Inr text \<Rightarrow>
               let output_path = path_join (cwd w1) output_name in
               res_bind (print_line w1 (py ''Writing to: '' @ output_path)) (\<lambda>w2.
               res_bind (write_text w2 output_name text) (\<lambda>w3.
               report w3 text)))))"

text \<open>
  \<open>main\<close> returns the world it leaves, or the exception that escapes it with the world
  at that point: the \<open>print\<close> of line 14 is outside the \<open>try\<close>, and the \<open>print\<close> of
  line 39 inside the handler.
\<close>

definition main :: "pdf_reader \<Rightarrow> world \<Rightarrow> (py_exc \<times> world) + world" where
  "main rd w =
     (case glob_cwd w pdf_pattern pdf_tokens of
        [] \<Rightarrow> print_line w (py ''No matching PDF file found.'')
      | pdf_path # _ \<Rightarrow>
          res_bind (print_line w (py ''Reading PDF: '' @ pdf_path)) (\<lambda>w1.
          (case main_try rd pdf_path w1 of
             Inr w2 \<Rightarrow> Inr w2
           | Inl (e, w2) \<Rightarrow> print_line w2 (py ''Error parsing PDF: '' @ exc_str e))))"

text \<open>
  Lines 41--42: the script runs \<open>main()\<close>; an exception that escapes it ends the
  interpreter with exit status 1 (after its traceback on standard error), otherwise
  the status is 0.
\<close>

definition exit_status :: "(py_exc \<times> world) + world \<Rightarrow> nat" where
  "exit_status r = (case r of Inl ew \<Rightarrow> 1 | Inr w \<Rightarrow> 0)"

definition final_world :: "(py_exc \<times> world) + world \<Rightarrow> world" where
  "final_world r = (case r of Inl (e, w) \<Rightarrow> w | Inr w \<Rightarrow> w)"

subsection \<open>The pattern\<close>

lemma fnmatch_translate_pdf_pattern: "fnmatch_translate pdf_pattern = pdf_tokens"
  by (simp add: fnmatch_translate_def pdf_pattern_def pdf_tokens_def pdf_prefix_def
      pdf_suffix_def py_def)

lemma pdf_tokens_match: "wmatch pdf_tokens n \<longleftrightarrow> (\<exists>m. n = pdf_prefix @ m @ pdf_suffix)"
  by (simp add: pdf_tokens_def wmatch_prefix_star_suffix)

lemma pdf_match_not_hidden: "wmatch pdf_tokens n \<Longrightarrow> \<not> glob_ishidden n"
  by (auto simp: pdf_tokens_match glob_ishidden_def pdf_prefix_def py_def)

lemma glob_cwd_pdf:
  "glob_cwd w pdf_pattern pdf_tokens =
     map (path_join (cwd w)) (filter (wmatch pdf_tokens) (scandir_names w))"
proof -
  have "\<not> glob_ishidden pdf_pattern"
    by (simp add: glob_ishidden_def pdf_pattern_def pdf_prefix_def py_def)
  moreover have "filter (wmatch pdf_tokens) (filter (\<lambda>x. \<not> glob_ishidden x) ns) =
                 filter (wmatch pdf_tokens) ns" for ns
    by (induction ns) (auto dest: pdf_match_not_hidden)
  ultimately show ?thesis by (simp add: glob_cwd_def glob1_def)
qed

lemma output_name_no_match: "\<not> wmatch pdf_tokens output_name"
  by (simp add: pdf_tokens_match output_name_def pdf_prefix_def py_def)

lemma good_output_name: "good_name output_name"
  by (simp add: good_name_def output_name_def py_def)

subsection \<open>Lines standard output can always print\<close>

lemma encodable_py [simp]: "encodable h (py s)"
proof (induction s)
  case (Cons c s)
  have "(of_char c :: nat) < 55296" using of_char_nat_less [of c] by linarith
  with Cons show ?case by (simp add: py_Cons)
qed simp

lemma encodable_str_nat [simp]: "encodable h (str_nat n)"
  using str_nat_digits [of n] by (auto simp: encodable_def list_all_iff is_digit_def)

lemma encodable_path_join [simp]:
  "encodable h a \<Longrightarrow> encodable h b \<Longrightarrow> encodable h (path_join a b)"
  by (simp add: path_join_def)

lemma encodable_path_join_dir:
  "good_name n \<Longrightarrow> encodable h (path_join c n) \<Longrightarrow> encodable h c"
  by (simp add: path_join_good split: if_splits)

lemma encodable_output_name [simp]: "encodable h output_name"
  by (simp add: output_name_def)

lemma encodable_take: "\<forall>c\<in>set t. \<not> is_surrogate c \<Longrightarrow> encodable h (take n t)"
  by (rule encodable_no_surrogate) (auto dest: in_set_takeD)

subsection \<open>The paths of \<open>main\<close>\<close>

lemma main_no_file:
  "filter (wmatch pdf_tokens) (scandir_names w) = [] \<Longrightarrow>
   main rd w = Inr (py_print w (py ''No matching PDF file found.''))"
  by (simp add: main_def glob_cwd_pdf print_line_ok)

lemma main_first_file:
  "filter (wmatch pdf_tokens) (scandir_names w) = n # ns \<Longrightarrow>
   main rd w =
     (let p = path_join (cwd w) n in
      res_bind (print_line w (py ''Reading PDF: '' @ p)) (\<lambda>w1.
      case main_try rd p w1 of
        Inr w2 \<Rightarrow> Inr w2
      | Inl (e, w2) \<Rightarrow> print_line w2 (py ''Error parsing PDF: '' @ exc_str e)))"
  by (simp add: main_def glob_cwd_pdf Let_def)

lemma first_file_entry:
  assumes "filter (wmatch pdf_tokens) (scandir_names w) = n # ns"
  shows "n \<in> set (map fst (entries w))"
proof -
  have "n \<in> set (filter (wmatch pdf_tokens) (scandir_names w))" using assms by simp
  then have "n \<in> set (scandir_names w)" by simp
  then show ?thesis by (simp add: scandir_names_def split: if_splits)
qed

lemma resolve_first:
  assumes "wf_world w" and "filter (wmatch pdf_tokens) (scandir_names w) = n # ns"
    and "(n, nd) \<in> set (entries w)"
    and "entries w' = entries w" and "cwd w' = cwd w"
  shows "resolve w' (path_join (cwd w) n) = Some nd"
proof -
  have "resolve w (path_join (cwd w) n) = Some nd"
    using resolve_name [OF assms(1) first_file_entry [OF assms(2)]] map_of_entries [OF assms(1,3)]
    by simp
  moreover have "resolve w' = resolve w" using assms(4,5) by (simp add: resolve_def fun_eq_iff)
  ultimately show ?thesis by simp
qed

lemma read_pdf_first:
  assumes "wf_world w" and "filter (wmatch pdf_tokens) (scandir_names w) = n # ns"
    and "(n, File bs) \<in> set (entries w)"
    and "entries w' = entries w" and "cwd w' = cwd w"
  shows "read_pdf rd w' (path_join (cwd w) n) = rd bs"
  by (simp add: read_pdf_def resolve_first [OF assms])

lemma read_pdf_first_dir:
  assumes "wf_world w" and "filter (wmatch pdf_tokens) (scandir_names w) = n # ns"
    and "(n, Dir b es) \<in> set (entries w)"
    and "entries w' = entries w" and "cwd w' = cwd w"
  shows "read_pdf rd w' (path_join (cwd w) n) = Inl (OSError 21 (py ''Is a directory'') (path_join (cwd w) n))"
  by (simp add: read_pdf_def resolve_first [OF assms])

lemma main_try_read_error:
  "read_pdf rd w p = Inl e \<Longrightarrow> main_try rd p w = Inl (e, w)"
  by (simp add: main_try_def)

lemma main_try_page_error:
  "read_pdf rd w p = Inr pages \<Longrightarrow> page_texts pages = Inl e \<Longrightarrow>
   main_try rd p w = Inl (e, py_print w (py ''Number of Pages: '' @ str_nat (length pages)))"
  by (simp add: main_try_def extract_loop_eq print_line_ok)

lemma main_try_pages:
  "read_pdf rd w p = Inr pages \<Longrightarrow> page_texts pages = Inr ts \<Longrightarrow> encodable (stdout_errors w) (cwd w) \<Longrightarrow>
   main_try rd p w =
     (let w2 = py_print (py_print w (py ''Number of Pages: '' @ str_nat (length pages)))
                 (py ''Writing to: '' @ path_join (cwd w) output_name)
      in res_bind (write_text w2 output_name (extract_spec ts)) (\<lambda>w3. report w3 (extract_spec ts)))"
  by (simp add: main_try_def extract_loop_pages Let_def print_line_ok)

lemma main_first_printed:
  assumes "wf_world w" and "filter (wmatch pdf_tokens) (scandir_names w) = n # ns"
    and "encodable (stdout_errors w) (path_join (cwd w) n)"
  shows "encodable (stdout_errors w) (cwd w) \<and>
         main rd w =
           (case main_try rd (path_join (cwd w) n) (py_print w (py ''Reading PDF: '' @ path_join (cwd w) n)) of
              Inr w2 \<Rightarrow> Inr w2
            | Inl (e, w2) \<Rightarrow> print_line w2 (py ''Error parsing PDF: '' @ exc_str e))"
proof -
  have "good_name n" using assms(1) first_file_entry [OF assms(2)] by (auto simp: wf_world_def)
  then have "encodable (stdout_errors w) (cwd w)" by (rule encodable_path_join_dir) (rule assms(3))
  then show ?thesis using main_first_file [OF assms(2), of rd] assms(3) by (simp add: Let_def print_line_ok)
qed

lemma encodable_hex4 [simp]: "encodable h (hex4 c)"
  by (simp add: hex4_def hex_digit_def)

lemma encodable_exc_str_unicode [simp]: "encodable h (exc_str (UnicodeEncodeError s a b))"
  by (simp add: quote_def)

lemma encodable_exc_str_os [simp]:
  "encodable h msg \<Longrightarrow> encodable h fname \<Longrightarrow> encodable h (exc_str (OSError n msg fname))"
  by (simp add: quote_def)

lemma report_ok:
  "\<forall>c\<in>set t. \<not> is_surrogate c \<Longrightarrow>
   report w t = Inr (w\<lparr>console := console w @
     [py ''Success! Extracted '' @ str_nat (length t) @ py '' characters.'',
      py ''--- First 500 characters ---'', take 500 t, py ''----------------------------'']\<rparr>)"
  by (simp add: report_def print_line_ok encodable_take py_print_def)

text \<open>
  C12. \<open>glob\<close> with the script's pattern: \<open>fnmatch\<close> compiles it to a literal prefix,
  one star and a literal suffix; the result lists, in directory order, the paths of
  exactly the names that start with \<open>BKGR Lettre Quotidienne\<close> and end with
  \<open>.pdf\<close>, and the script's own output file is never among them.
\<close>

theorem glob_pdf_selects:
  "fnmatch_translate pdf_pattern = pdf_tokens \<and>
   glob_cwd w pdf_pattern pdf_tokens =
     map (path_join (cwd w)) (filter (\<lambda>n. \<exists>m. n = pdf_prefix @ m @ pdf_suffix) (scandir_names w)) \<and>
   \<not> (\<exists>m. output_name = pdf_prefix @ m @ pdf_suffix)"
proof -
  have "wmatch pdf_tokens = (\<lambda>n. \<exists>m. n = pdf_prefix @ m @ pdf_suffix)"
    by (rule ext) (rule pdf_tokens_match)
  then show ?thesis
    using fnmatch_translate_pdf_pattern glob_cwd_pdf [of w] output_name_no_match by simp
qed

end
