(* ===== verification/Effect.thy ===== *)
theory Effect
  imports Runner
begin

text \<open>
  The abstract specification of one run of \<open>main\<close>: \<open>run_effect\<close> computes, from
  what the script observes (the matching names in listing order, the bytes of the first
  one, the permissions, the library's answer), the lines it prints and the bytes it
  leaves in \<open>latest_pdf_content.txt\<close> (\<open>None\<close>: the file is not touched), and
  \<open>apply_effect\<close> performs them on a world. \<open>print_effect\<close> performs them the
  way the script does: it prints the lines one by one through standard output's codec,
  the output file being written after the third line (\<open>Writing to:\<close>), and stops at
  the first line the codec refuses. \<open>main_effect\<close> is the refinement: on a
  well-formed directory, \<open>main\<close> is \<open>print_effect\<close> of \<open>run_effect\<close>; when standard
  output can print every line, that is \<open>apply_effect\<close>. The lemmas after it say what
  an effect changes and that a run does not change what the next run observes.
\<close>

definition err_line :: "py_exc \<Rightarrow> pystr" where
  "err_line e = py ''Error parsing PDF: '' @ exc_str e"

definition run_effect :: "pdf_reader \<Rightarrow> world \<Rightarrow> pystr list \<times> bytes option" where
  "run_effect rd w =
     (case filter (wmatch pdf_tokens) (scandir_names w) of
        [] \<Rightarrow> ([py ''No matching PDF file found.''], None)
      | n # _ \<Rightarrow>
          let r = py ''Reading PDF: '' @ path_join (cwd w) n in
          (case the (map_of (entries w) n) of
             Dir b es \<Rightarrow> ([r, err_line (OSError 21 (py ''Is a directory'') (path_join (cwd w) n))], None)
           | File bs \<Rightarrow>
          (case rd bs of
             Inl e \<Rightarrow> ([r, err_line e], None)
           | Inr pages \<Rightarrow>
               let np = py ''Number of Pages: '' @ str_nat (length pages) in
               (case page_texts pages of
                  Inl e \<Rightarrow> ([r, np, err_line e], None)
                | Inr ts \<Rightarrow>
                    let text = extract_spec ts;
                        wl = py ''Writing to: '' @ path_join (cwd w) output_name in
                    if dir_entry w output_name
                    then ([r, np, wl, err_line (OSError 21 (py ''Is a directory'')
                                                 (path_join (cwd w) output_name))], None)
                    else if output_name \<in> set (denied w)
                    then ([r, np, wl, err_line (OSError 13 (py ''Permission denied'')
                                                 (path_join (cwd w) output_name))], None)
                    else (case utf8_encode text of
                            Inl (a, b) \<Rightarrow> ([r, np, wl, err_line (UnicodeEncodeError text a b)], Some [])
                          | Inr bs \<Rightarrow>
                              ([r, np, wl,
                                py ''Success! Extracted '' @ str_nat (length text) @ py '' characters.'',
                                py ''--- First 500 characters ---'', take 500 text,
                                py ''----------------------------''], Some bs))))))"

definition apply_effect :: "world \<Rightarrow> pystr list \<times> bytes option \<Rightarrow> world" where
  "apply_effect w eff =
     w\<lparr>entries := (case snd eff of None \<Rightarrow> entries w | Some bs \<Rightarrow> AList.update output_name (File bs) (entries w)),
       console := console w @ fst eff\<rparr>"

definition apply_out :: "world \<Rightarrow> bytes option \<Rightarrow> world" where
  "apply_out w out =
     (case out of None \<Rightarrow> w | Some bs \<Rightarrow> w\<lparr>entries := AList.update output_name (File bs) (entries w)\<rparr>)"

fun print_lines :: "world \<Rightarrow> pystr list \<Rightarrow> (py_exc \<times> world) + world" where
  "print_lines w [] = Inr w"
| "print_lines w (l # ls) = res_bind (print_line w l) (\<lambda>w1. print_lines w1 ls)"

definition print_effect :: "world \<Rightarrow> pystr list \<times> bytes option \<Rightarrow> (py_exc \<times> world) + world" where
  "print_effect w eff =
     res_bind (print_lines w (take 3 (fst eff))) (\<lambda>w1. print_lines (apply_out w1 (snd eff)) (drop 3 (fst eff)))"

text \<open>
  What of an effect happens under the handler \<open>h\<close>: the lines up to the first one the
  codec refuses, and the output only when the refusal comes after the third line.
\<close>

definition effect_done :: "err_handler \<Rightarrow> pystr list \<times> bytes option \<Rightarrow> pystr list \<times> bytes option" where
  "effect_done h eff =
     (let k = length (takeWhile (encodable h) (fst eff))
      in (take k (fst eff), if k < length (fst eff) \<and> k < 3 then None else snd eff))"

text \<open>
  A library whose exception messages, for the file and for each page, standard output
  can print under the handler \<open>h\<close>.
\<close>

definition reader_msgs_encodable :: "err_handler \<Rightarrow> pdf_reader \<Rightarrow> bool" where
  "reader_msgs_encodable h rd =
     (\<forall>bs. case rd bs of
             Inl e \<Rightarrow> encodable h (exc_str e)
           | Inr pages \<Rightarrow> (\<forall>e. Inl e \<in> set pages \<longrightarrow> encodable h (exc_str e)))"

lemma read_first_file:
  assumes "wf_world w" "filter (wmatch pdf_tokens) (scandir_names w) = n # ns"
    "(n, File bs) \<in> set (entries w)"
  shows "read_pdf rd (py_print w (py ''Reading PDF: '' @ path_join (cwd w) n)) (path_join (cwd w) n) = rd bs"
  using read_pdf_first [OF assms] by simp

subsection \<open>Refinement: main performs the abstract run\<close>

lemma res_bind_Inr [simp]: "res_bind r Inr = r"
  by (cases r) simp_all

lemma apply_out_simps [simp]:
  "apply_out w None = w"
  "stdout_errors (apply_out w out) = stdout_errors w"
  by (simp_all add: apply_out_def split: option.split)

lemma run_effect_first_line:
  "filter (wmatch pdf_tokens) (scandir_names w) = n # ns \<Longrightarrow>
   \<exists>ls. fst (run_effect rd w) = (py ''Reading PDF: '' @ path_join (cwd w) n) # ls"
  by (simp add: run_effect_def Let_def split: node.split sum.split if_split prod.split)

lemma main_effect:
  assumes "wf_world w"
  shows "main rd w = print_effect w (run_effect rd w)"
proof (cases "filter (wmatch pdf_tokens) (scandir_names w)")
  case Nil
  then show ?thesis by (simp add: main_no_file run_effect_def print_effect_def print_line_ok)
next
  case (Cons n ns)
  have mem: "n \<in> set (map fst (entries w))" by (rule first_file_entry [OF Cons])
  then obtain nd where nd: "(n, nd) \<in> set (entries w)" by auto
  have the_nd: "the (map_of (entries w) n) = nd" using map_of_entries [OF assms nd] by simp
  have good: "good_name n" using assms mem by (auto simp: wf_world_def)
  let ?p = "path_join (cwd w) n"
  let ?r = "py ''Reading PDF: '' @ ?p"
  let ?w1 = "py_print w ?r"
  have main1: "main rd w = res_bind (print_line w ?r) (\<lambda>w1. case main_try rd ?p w1 of Inr w2 \<Rightarrow> Inr w2
                 | Inl (e, w2) \<Rightarrow> print_line w2 (py ''Error parsing PDF: '' @ exc_str e))"
    using main_first_file [OF Cons, of rd] by (simp add: Let_def)
  show ?thesis
  proof (cases "encodable (stdout_errors w) ?r")
    case False
    then obtain a b where pl: "print_line w ?r = Inl (UnicodeEncodeError ?r a b, w)"
      using print_line_fail by blast
    obtain ls where "fst (run_effect rd w) = ?r # ls" using run_effect_first_line [OF Cons] by blast
    then show ?thesis using main1 pl by (simp add: print_effect_def)
  next
    case True
    then have "encodable (stdout_errors w) ?p" by simp
    then have c: "encodable (stdout_errors w) (cwd w)" by (rule encodable_path_join_dir [OF good])
    have pl: "print_line w ?r = Inr ?w1" by (rule print_line_ok [OF True])
    note simps = Let_def run_effect_def print_effect_def print_line_ok apply_out_def err_line_def
    show ?thesis
    proof (cases nd)
      case (Dir b es)
      have "read_pdf rd ?w1 ?p = Inl (OSError 21 (py ''Is a directory'') ?p)"
        by (rule read_pdf_first_dir [OF assms Cons nd [unfolded Dir]]) simp_all
      with main1 pl Cons the_nd Dir True show ?thesis by (simp add: main_try_read_error simps)
    next
      case (File bs)
      note bs = nd [unfolded File]
      have the_bs: "the (map_of (entries w) n) = File bs" using the_nd File by simp
      have rd1: "read_pdf rd ?w1 ?p = rd bs" by (rule read_first_file [OF assms Cons bs])
      show ?thesis
      proof (cases "rd bs")
        case (Inl e)
        with rd1 main1 pl Cons the_bs show ?thesis by (simp add: main_try_read_error simps)
      next
        case (Inr pages)
        note rdp = rd1 [unfolded Inr]
        show ?thesis
        proof (cases "page_texts pages")
          case (Inl e)
          with rdp main1 pl Cons the_bs \<open>rd bs = Inr pages\<close> show ?thesis
            by (simp add: main_try_page_error simps)
        next
          case (Inr ts)
          have mt: "main_try rd ?p ?w1 =
            (let w2 = py_print (py_print ?w1 (py ''Number of Pages: '' @ str_nat (length pages)))
                        (py ''Writing to: '' @ path_join (cwd w) output_name)
             in res_bind (write_text w2 output_name (extract_spec ts)) (\<lambda>w3. report w3 (extract_spec ts)))"
            using main_try_pages [OF rdp Inr] c by simp
          note ctx = mt main1 pl c Cons the_bs \<open>rd bs = Inr pages\<close> Inr
          show ?thesis
          proof (cases "dir_entry w output_name")
            case True
            with ctx show ?thesis by (simp add: write_text_is_dir simps)
          next
            case notdir: False
            show ?thesis
            proof (cases "output_name \<in> set (denied w)")
              case True
              with notdir ctx show ?thesis by (simp add: write_text_denied simps)
            next
              case False
              show ?thesis
              proof (cases "utf8_encode (extract_spec ts)")
                case (Inl ab)
                then obtain a b where ab: "utf8_encode (extract_spec ts) = Inl (a, b)" by (cases ab) auto
                with notdir False ctx show ?thesis
                  by (simp add: write_text_encode_error simps)
              next
                case (Inr bs')
                then have ns: "\<forall>c\<in>set (extract_spec ts). \<not> is_surrogate c"
                  and bs': "bs' = concat (map utf8_char (extract_spec ts))"
                  by (simp_all add: utf8_encode_Inr_iff)
                with Inr notdir False ctx
                show ?thesis
                  by (simp add: write_text_success report_ok encodable_take simps py_print_def)
              qed
            qed
          qed
        qed
      qed
    qed
  qed
qed

lemma print_lines_ok:
  "list_all (encodable (stdout_errors w)) ls \<Longrightarrow>
   print_lines w ls = Inr (w\<lparr>console := console w @ ls\<rparr>)"
  by (induction ls arbitrary: w) (simp_all add: print_line_ok py_print_def)

lemma print_lines_fail:
  "\<not> list_all (encodable (stdout_errors w)) ls \<Longrightarrow> \<exists>ew. print_lines w ls = Inl ew"
proof (induction ls arbitrary: w)
  case (Cons l ls)
  show ?case
  proof (cases "encodable (stdout_errors w) l")
    case True
    with Cons show ?thesis by (simp add: print_line_ok)
  next
    case False
    then show ?thesis using print_line_fail [OF False] by auto
  qed
qed simp

lemma print_effect_ok:
  "list_all (encodable (stdout_errors w)) (fst eff) \<Longrightarrow> print_effect w eff = Inr (apply_effect w eff)"
proof -
  assume a: "list_all (encodable (stdout_errors w)) (fst eff)"
  let ?w1 = "w\<lparr>console := console w @ take 3 (fst eff)\<rparr>"
  let ?w2 = "apply_out ?w1 (snd eff)"
  have t: "list_all (encodable (stdout_errors w)) (take 3 (fst eff))"
    and d: "list_all (encodable (stdout_errors w)) (drop 3 (fst eff))"
    using a by (auto simp: list_all_iff dest: in_set_takeD in_set_dropD)
  have 1: "print_lines w (take 3 (fst eff)) = Inr ?w1" by (rule print_lines_ok [OF t])
  have 2: "print_lines ?w2 (drop 3 (fst eff)) = Inr (?w2\<lparr>console := console ?w2 @ drop 3 (fst eff)\<rparr>)"
    by (rule print_lines_ok) (simp add: d)
  have 3: "?w2\<lparr>console := console ?w2 @ drop 3 (fst eff)\<rparr> = apply_effect w eff"
    by (cases "snd eff") (simp_all add: apply_out_def apply_effect_def)
  show ?thesis using 1 2 3 by (simp add: print_effect_def)
qed

lemma print_effect_fail:
  "\<not> list_all (encodable (stdout_errors w)) (fst eff) \<Longrightarrow> \<exists>ew. print_effect w eff = Inl ew"
proof -
  assume a: "\<not> list_all (encodable (stdout_errors w)) (fst eff)"
  show ?thesis
  proof (cases "list_all (encodable (stdout_errors w)) (take 3 (fst eff))")
    case True
    then have "\<not> list_all (encodable (stdout_errors w)) (drop 3 (fst eff))"
      using a by (metis append_take_drop_id list_all_append)
    then show ?thesis
      using print_lines_ok [OF True] print_lines_fail [of "apply_out _ (snd eff)" "drop 3 (fst eff)"]
      by (simp add: print_effect_def)
  next
    case False
    then show ?thesis using print_lines_fail [OF False] by (auto simp: print_effect_def)
  qed
qed

lemma main_effect_ok:
  "wf_world w \<Longrightarrow> list_all (encodable (stdout_errors w)) (fst (run_effect rd w)) \<Longrightarrow>
   main rd w = Inr (apply_effect w (run_effect rd w))"
  by (simp add: main_effect print_effect_ok)

lemma print_lines_final:
  "final_world (print_lines w ls) = w\<lparr>console := console w @ takeWhile (encodable (stdout_errors w)) ls\<rparr>"
proof (induction ls arbitrary: w)
  case Nil
  show ?case by (simp add: final_world_def)
next
  case (Cons l ls)
  show ?case
  proof (cases "encodable (stdout_errors w) l")
    case True
    with Cons.IH [of "py_print w l"] show ?thesis by (simp add: print_line_ok py_print_def)
  next
    case False
    with print_line_fail [OF False] show ?thesis by (auto simp: final_world_def)
  qed
qed

lemma takeWhile_take_all:
  "list_all P (take n xs) \<Longrightarrow> takeWhile P xs = take n xs @ takeWhile P (drop n xs)"
  by (metis append_take_drop_id list_all_iff takeWhile_append2)

lemma takeWhile_take_fail:
  "\<not> list_all P (take n xs) \<Longrightarrow> takeWhile P (take n xs) = takeWhile P xs"
  by (metis append_take_drop_id list_all_iff takeWhile_append1)

lemma effect_done_eq:
  "effect_done h eff =
     (takeWhile (encodable h) (fst eff),
      if length (takeWhile (encodable h) (fst eff)) < length (fst eff) \<and>
         length (takeWhile (encodable h) (fst eff)) < 3 then None else snd eff)"
  unfolding effect_done_def Let_def by (metis takeWhile_eq_take)

lemma print_effect_final:
  "final_world (print_effect w eff) = apply_effect w (effect_done (stdout_errors w) eff)"
proof -
  let ?h = "stdout_errors w" and ?ls = "fst eff"
  let ?k = "length (takeWhile (encodable ?h) ?ls)"
  show ?thesis
  proof (cases "list_all (encodable ?h) (take 3 ?ls)")
    case True
    let ?w1 = "w\<lparr>console := console w @ take 3 ?ls\<rparr>"
    have tw: "takeWhile (encodable ?h) ?ls = take 3 ?ls @ takeWhile (encodable ?h) (drop 3 ?ls)"
      by (rule takeWhile_take_all [OF True])
    have nk: "\<not> (?k < length ?ls \<and> ?k < 3)"
      using tw by (auto simp: min_def split: if_splits)
    have "effect_done ?h eff = (takeWhile (encodable ?h) ?ls, snd eff)"
      using nk by (auto simp: effect_done_eq)
    then have dn: "effect_done ?h eff = (take 3 ?ls @ takeWhile (encodable ?h) (drop 3 ?ls), snd eff)"
      using tw by simp
    show ?thesis
      using print_lines_ok [OF True] print_lines_final [of "apply_out ?w1 (snd eff)" "drop 3 ?ls"] dn
      by (cases "snd eff") (simp_all add: print_effect_def apply_effect_def apply_out_def final_world_def)
  next
    case False
    obtain ew where ew: "print_lines w (take 3 ?ls) = Inl ew" using print_lines_fail [OF False] by blast
    have tw: "takeWhile (encodable ?h) (take 3 ?ls) = takeWhile (encodable ?h) ?ls"
      by (rule takeWhile_take_fail [OF False])
    have "length (takeWhile (encodable ?h) (take 3 ?ls)) \<noteq> length (take 3 ?ls)"
      using False by (metis length_takeWhile_eq_iff list_all_iff)
    then have "length (takeWhile (encodable ?h) (take 3 ?ls)) < length (take 3 ?ls)"
      using length_takeWhile_le [of "encodable ?h" "take 3 ?ls"] by linarith
    then have "?k < length ?ls \<and> ?k < 3" using tw by simp
    then have dn: "effect_done ?h eff = (takeWhile (encodable ?h) ?ls, None)"
      by (simp add: effect_done_eq)
    have "final_world (print_effect w eff) = final_world (print_lines w (take 3 ?ls))"
      using ew by (simp add: print_effect_def final_world_def)
    then show ?thesis
      using print_lines_final [of w "take 3 ?ls"] tw dn by (simp add: apply_effect_def)
  qed
qed

lemma main_final:
  "wf_world w \<Longrightarrow>
   final_world (main rd w) = apply_effect w (effect_done (stdout_errors w) (run_effect rd w))"
  by (simp add: main_effect print_effect_final)

lemma effect_done_ok:
  "list_all (encodable h) (fst eff) \<Longrightarrow> effect_done h eff = eff"
proof -
  assume "list_all (encodable h) (fst eff)"
  then have "takeWhile (encodable h) (fst eff) = fst eff" by (simp add: list_all_iff)
  then have "length (takeWhile (encodable h) (fst eff)) = length (fst eff)" by (metis)
  then show ?thesis by (simp add: effect_done_def Let_def)
qed

lemma effect_done_prefix:
  "\<exists>k. fst (effect_done h eff) = take k (fst eff) \<and> (snd (effect_done h eff) = None \<or> snd (effect_done h eff) = snd eff)"
  by (auto simp: effect_done_def Let_def)

lemma main_Inr_iff:
  "wf_world w \<Longrightarrow>
   (\<exists>w'. main rd w = Inr w') \<longleftrightarrow> list_all (encodable (stdout_errors w)) (fst (run_effect rd w))"
proof
  assume wf: "wf_world w"
  show "(\<exists>w'. main rd w = Inr w') \<Longrightarrow> list_all (encodable (stdout_errors w)) (fst (run_effect rd w))"
    using print_effect_fail [of w "run_effect rd w"] main_effect [OF wf, of rd] by fastforce
  show "list_all (encodable (stdout_errors w)) (fst (run_effect rd w)) \<Longrightarrow> \<exists>w'. main rd w = Inr w'"
    using print_effect_ok [of w "run_effect rd w"] main_effect [OF wf, of rd] by simp
qed

lemma apply_effect_simps [simp]:
  "stdout_errors (apply_effect w eff) = stdout_errors w"
  "cwd (apply_effect w eff) = cwd w"
  "listable (apply_effect w eff) = listable w"
  "denied (apply_effect w eff) = denied w"
  "console (apply_effect w eff) = console w @ fst eff"
  by (simp_all add: apply_effect_def)

lemma entries_apply_effect:
  "entries (apply_effect w eff) =
     (case snd eff of None \<Rightarrow> entries w | Some bs \<Rightarrow> AList.update output_name (File bs) (entries w))"
  by (simp add: apply_effect_def)

lemma dir_entry_apply_effect:
  "snd eff = None \<Longrightarrow> dir_entry (apply_effect w eff) n = dir_entry w n"
  "snd eff = Some bs \<Longrightarrow> dir_entry (apply_effect w eff) n = (n \<noteq> output_name \<and> dir_entry w n)"
  by (simp_all add: dir_entry_def entries_apply_effect AList.update_conv')

lemma wf_apply_effect: "wf_world w \<Longrightarrow> wf_world (apply_effect w eff)"
  using wf_world_update [OF _ good_output_name]
  by (cases "snd eff") (simp_all add: apply_effect_def wf_world_def)

lemma keys_apply_effect:
  "filter (wmatch pdf_tokens) (scandir_names (apply_effect w eff)) =
   filter (wmatch pdf_tokens) (scandir_names w)"
  using output_name_no_match
  by (cases "snd eff") (simp_all add: apply_effect_def scandir_names_def AList.update_keys)

lemma map_of_apply_effect:
  "k \<noteq> output_name \<Longrightarrow> map_of (entries (apply_effect w eff)) k = map_of (entries w) k"
  by (cases "snd eff") (simp_all add: entries_apply_effect AList.update_conv)

text \<open>
  An effect that writes the output file only where the output path is not a directory
  leaves everything a run observes as it was.
\<close>

lemma run_effect_apply_effect:
  assumes "snd eff = None \<or> \<not> dir_entry w output_name"
  shows "run_effect rd (apply_effect w eff) = run_effect rd w"
proof (cases "filter (wmatch pdf_tokens) (scandir_names w)")
  case (Cons n ns)
  then have "n \<in> set (filter (wmatch pdf_tokens) (scandir_names w))" by simp
  then have "wmatch pdf_tokens n" by simp
  then have "n \<noteq> output_name" using output_name_no_match by auto
  moreover have "dir_entry (apply_effect w eff) output_name = dir_entry w output_name"
    using assms by (cases "snd eff") (auto simp: dir_entry_apply_effect)
  ultimately show ?thesis using Cons
    by (simp add: run_effect_def keys_apply_effect map_of_apply_effect cong: sum.case_cong if_cong node.case_cong)
qed (simp add: run_effect_def keys_apply_effect)

lemma run_effect_writes_file: "snd (run_effect rd w) = Some bs \<Longrightarrow> \<not> dir_entry w output_name"
  by (auto simp: run_effect_def Let_def split: list.splits node.splits sum.splits if_splits prod.splits)

lemma length_run_effect: "1 \<le> length (fst (run_effect rd w)) \<and> length (fst (run_effect rd w)) \<le> 7"
  by (simp add: run_effect_def Let_def split: list.split node.split sum.split if_split prod.split)

lemma run_effect_success:
  assumes "wf_world w" "filter (wmatch pdf_tokens) (scandir_names w) = n # ns"
    "(n, File bs) \<in> set (entries w)" "rd bs = Inr (map Inr ts)"
    "\<not> dir_entry w output_name" "output_name \<notin> set (denied w)"
    "\<forall>c\<in>set (extract_spec ts). \<not> is_surrogate c"
  shows "run_effect rd w =
     ([py ''Reading PDF: '' @ path_join (cwd w) n,
       py ''Number of Pages: '' @ str_nat (length ts),
       py ''Writing to: '' @ path_join (cwd w) output_name,
       py ''Success! Extracted '' @ str_nat (length (extract_spec ts)) @ py '' characters.'',
       py ''--- First 500 characters ---'', take 500 (extract_spec ts),
       py ''----------------------------''], Some (concat (map utf8_char (extract_spec ts))))"
  using assms map_of_entries [OF assms(1,3)]
  by (simp add: run_effect_def Let_def utf8_encode_no_surrogate)


lemma run_effect_encodable:
  assumes "wf_world w" and "encodable h (cwd w)" and "list_all (encodable h) (map fst (entries w))"
    and "reader_msgs_encodable h rd"
  shows "list_all (encodable h) (fst (run_effect rd w))"
proof (cases "filter (wmatch pdf_tokens) (scandir_names w)")
  case Nil
  then show ?thesis by (simp add: run_effect_def)
next
  case (Cons n ns)
  have "n \<in> set (map fst (entries w))" by (rule first_file_entry [OF Cons])
  then have "encodable h n" using assms(3) by (auto simp: list_all_iff)
  then have n: "encodable h (path_join (cwd w) n)" using assms(2) by simp
  have o: "encodable h (path_join (cwd w) output_name)" using assms(2) by simp
  have rd: "encodable h (exc_str e)" if "rd bs = Inl e" for bs e
    using assms(4) that by (auto simp: reader_msgs_encodable_def dest: spec [of _ bs])
  have pg: "encodable h (exc_str e)" if "rd bs = Inr pages" "page_texts pages = Inl e" for bs pages e
    using assms(4) that page_texts_Inl_mem [OF that(2)]
    by (auto simp: reader_msgs_encodable_def dest: spec [of _ bs])
  show ?thesis
    using Cons n o rd pg
    by (auto simp: run_effect_def Let_def err_line_def utf8_encode_Inr_iff encodable_take
        simp del: exc_str.simps
        split: node.splits sum.splits if_splits prod.splits)
qed

end
