(* ===== verification/Session.thy ===== *)
theory Session
  imports Effect
begin

text \<open>
  Runs of the script interleaved with the rest of the world. Between two runs other
  processes may add, replace or remove files and create directories (but not touch the
  script's output file), change
  which names may be written, and make the directory unlistable. \<open>session_step\<close> is
  one run or one such action; \<open>reachable\<close> closes it from a start world. The library
  is trusted only as far as \<open>reader_ok\<close> says: every text it returns is a valid Python
  \<open>str\<close>. The invariant \<open>session_inv\<close> (a well-formed directory whose output file, if
  any, is valid UTF-8) holds in every reachable world, by rule induction; so does the
  fact that an output path which is a directory stays that directory.
\<close>

datatype env_action =
    PutFile pystr bytes
  | RemoveFile pystr
  | MakeDir pystr
  | SetDenied "pystr list"
  | SetListable bool

fun env_apply :: "world \<Rightarrow> env_action \<Rightarrow> world" where
  "env_apply w (PutFile n bs) = w\<lparr>entries := AList.update n (File bs) (entries w)\<rparr>"
| "env_apply w (RemoveFile n) = w\<lparr>entries := AList.delete n (entries w)\<rparr>"
| "env_apply w (MakeDir n) = w\<lparr>entries := AList.update n (Dir True []) (entries w)\<rparr>"
| "env_apply w (SetDenied d) = w\<lparr>denied := d\<rparr>"
| "env_apply w (SetListable b) = w\<lparr>listable := b\<rparr>"

fun env_ok :: "env_action \<Rightarrow> bool" where
  "env_ok (PutFile n bs) = (good_name n \<and> n \<noteq> output_name)"
| "env_ok (RemoveFile n) = (n \<noteq> output_name)"
| "env_ok (MakeDir n) = (good_name n \<and> n \<noteq> output_name)"
| "env_ok (SetDenied d) = True"
| "env_ok (SetListable b) = True"

inductive session_step :: "pdf_reader \<Rightarrow> world \<Rightarrow> world \<Rightarrow> bool" for rd where
  run: "session_step rd w (final_world (main rd w))"
| env: "env_ok a \<Longrightarrow> session_step rd w (env_apply w a)"

inductive reachable :: "pdf_reader \<Rightarrow> world \<Rightarrow> world \<Rightarrow> bool" for rd w0 where
  start: "reachable rd w0 w0"
| step: "reachable rd w0 w \<Longrightarrow> session_step rd w w' \<Longrightarrow> reachable rd w0 w'"

definition page_ok :: "page \<Rightarrow> bool" where
  "page_ok p = (case p of Inr (Some t) \<Rightarrow> valid_pystr t | _ \<Rightarrow> True)"

definition reader_ok :: "pdf_reader \<Rightarrow> bool" where
  "reader_ok rd = (\<forall>bs pages. rd bs = Inr pages \<longrightarrow> list_all page_ok pages)"

definition output_decodes :: "world \<Rightarrow> bool" where
  "output_decodes w =
     (case map_of (entries w) output_name of Some (File bs) \<Rightarrow> utf8_decode bs \<noteq> None | _ \<Rightarrow> True)"

definition session_inv :: "world \<Rightarrow> bool" where
  "session_inv w = (wf_world w \<and> output_decodes w)"

subsection \<open>Every step keeps the invariant\<close>

lemma page_texts_valid:
  "page_texts pages = Inr ts \<Longrightarrow> list_all page_ok pages \<Longrightarrow> valid_page_texts ts"
proof (induction pages arbitrary: ts rule: page_texts.induct)
  case (3 t pages)
  then show ?case
    by (auto simp: valid_page_texts_def page_ok_def split: sum.splits option.splits)
qed (auto simp: valid_page_texts_def)

lemma run_effect_output:
  assumes "reader_ok rd" and "snd (run_effect rd w) = Some bs"
  shows "utf8_decode bs \<noteq> None"
proof -
  have dec: "utf8_decode (concat (map utf8_char (extract_spec ts))) = Some (extract_spec ts)"
    if "rd b = Inr pages" "page_texts pages = Inr ts" "\<forall>c\<in>set (extract_spec ts). \<not> is_surrogate c"
    for b pages ts
  proof -
    have "list_all page_ok pages" using assms(1) that(1) by (simp add: reader_ok_def)
    then have "valid_pystr (extract_spec ts)"
      using page_texts_valid [OF that(2)] valid_extract_spec by blast
    then show ?thesis using utf8_decode_chars that(3) by blast
  qed
  show ?thesis
    using assms(2) dec
    by (auto simp: run_effect_def Let_def utf8_encode_Inr_iff
        split: list.splits node.splits sum.splits if_splits prod.splits)
qed

lemma env_apply_wf: "wf_world w \<Longrightarrow> env_ok a \<Longrightarrow> wf_world (env_apply w a)"
proof (cases a)
  case (RemoveFile n)
  assume wf: "wf_world w"
  have "distinct (map fst (AList.delete n (entries w)))"
    using wf by (simp add: wf_world_def AList.distinct_delete)
  moreover have "set (AList.delete n (entries w)) \<subseteq> set (entries w)"
    by (auto simp: AList.delete_eq)
  ultimately show ?thesis using wf RemoveFile by (auto simp: wf_world_def)
qed (auto simp: wf_world_def AList.distinct_update AList.update_keys)

lemma env_apply_output:
  "env_ok a \<Longrightarrow> map_of (entries (env_apply w a)) output_name = map_of (entries w) output_name"
  by (cases a) (auto simp: AList.update_conv)

lemma session_step_inv:
  assumes "reader_ok rd" "session_inv w" "session_step rd w w'"
  shows "session_inv w'"
  using assms(3)
proof (cases rule: session_step.cases)
  case run
  have wf: "wf_world w" using assms(2) by (simp add: session_inv_def)
  obtain k where k: "fst (effect_done (stdout_errors w) (run_effect rd w)) = take k (fst (run_effect rd w))"
    and out: "snd (effect_done (stdout_errors w) (run_effect rd w)) = None \<or>
              snd (effect_done (stdout_errors w) (run_effect rd w)) = snd (run_effect rd w)"
    using effect_done_prefix by blast
  obtain out where o: "out = snd (effect_done (stdout_errors w) (run_effect rd w))" by blast
  have fw: "final_world (main rd w) = apply_effect w (take k (fst (run_effect rd w)), out)"
    using main_final [OF wf, of rd] k o by (metis prod.collapse)
  have out: "out = None \<or> out = snd (run_effect rd w)" using out o by simp
  have "output_decodes (apply_effect w (take k (fst (run_effect rd w)), out))"
  proof (cases out)
    case None
    then show ?thesis using assms(2) by (simp add: session_inv_def output_decodes_def entries_apply_effect)
  next
    case (Some bs)
    then have "snd (run_effect rd w) = Some bs" using out by simp
    then show ?thesis
      using run_effect_output [OF assms(1)] Some
      by (simp add: output_decodes_def entries_apply_effect AList.update_conv)
  qed
  with run fw wf_apply_effect [OF wf] show ?thesis
    by (simp add: session_inv_def)
next
  case (env a)
  with assms(2) show ?thesis
    by (simp add: session_inv_def output_decodes_def env_apply_wf env_apply_output)
qed

text \<open>
  C23. In every world reachable by runs of the script interleaved with other processes'
  actions, the directory is well formed and \<open>latest_pdf_content.txt\<close>, when present,
  is valid UTF-8, provided the library returns valid strings and the start world
  satisfies the invariant.
\<close>

theorem session_invariant:
  assumes "reader_ok rd" "session_inv w0" "reachable rd w0 w"
  shows "session_inv w"
  using assms(3)
proof (induction rule: reachable.induct)
  case start
  show ?case by (rule assms(2))
next
  case (step w w')
  then show ?case using session_step_inv [OF assms(1)] by blast
qed

subsection \<open>An output path that is a directory\<close>

lemma run_keeps_output_dir:
  assumes "wf_world w" "dir_entry w output_name"
  shows "final_world (main rd w) = apply_effect w (fst (effect_done (stdout_errors w) (run_effect rd w)), None)"
proof -
  let ?D = "effect_done (stdout_errors w) (run_effect rd w)"
  have "snd ?D = None"
  proof (cases "snd ?D")
    case (Some bs)
    then have "snd (run_effect rd w) = Some bs"
      using effect_done_prefix [of "stdout_errors w" "run_effect rd w"] by auto
    then show ?thesis using run_effect_writes_file assms(2) by blast
  qed
  then show ?thesis using main_final [OF assms(1), of rd] by (metis prod.collapse)
qed

lemma session_step_wf: "session_step rd w w' \<Longrightarrow> wf_world w \<Longrightarrow> wf_world w'"
  by (induction rule: session_step.induct) (simp_all add: main_final wf_apply_effect env_apply_wf)

lemma reachable_wf: "reachable rd w0 w \<Longrightarrow> wf_world w0 \<Longrightarrow> wf_world w"
  by (induction rule: reachable.induct) (auto intro: session_step_wf)

lemma step_keeps_output_dir:
  assumes "session_step rd w w'" "wf_world w" "dir_entry w output_name"
  shows "wf_world w' \<and> map_of (entries w') output_name = map_of (entries w) output_name"
  using assms(1)
proof (cases rule: session_step.cases)
  case run
  then show ?thesis
    using run_keeps_output_dir [OF assms(2,3), of rd] wf_apply_effect [OF assms(2)]
    by (simp add: entries_apply_effect)
next
  case (env a)
  then show ?thesis using assms(2) by (simp add: env_apply_wf env_apply_output)
qed

text \<open>
  C30. Once \<open>latest_pdf_content.txt\<close> is a directory, it stays that directory in every
  world the session reaches: runs only report \<open>IsADirectoryError\<close> and other processes
  do not touch it. No run ever writes the extracted text then: the runs of the script
  never replace or remove a directory at the output path, on any path of \<open>main\<close>.
\<close>

theorem output_dir_persists:
  assumes "wf_world w0" "dir_entry w0 output_name" "reachable rd w0 w"
  shows "dir_entry w output_name \<and> map_of (entries w) output_name = map_of (entries w0) output_name"
  using assms(3)
proof (induction rule: reachable.induct)
  case start
  show ?case using assms(2) by simp
next
  case (step w w')
  have wf: "wf_world w" by (rule reachable_wf [OF step.hyps(1) assms(1)])
  have d: "dir_entry w output_name" using step.IH by simp
  have "map_of (entries w') output_name = map_of (entries w) output_name"
    using step_keeps_output_dir [OF step.hyps(2) wf d] by simp
  then show ?case using step.IH d by (simp add: dir_entry_def)
qed

end
