(* ===== verification/GlobTree.thy ===== *)
theory GlobTree
  imports Runner "HOL-Library.Monad_Syntax"
begin

text \<open>
  \<open>glob.glob\<close> on a whole path, as line 8 calls it: \<open>glob.glob(os.path.join(cwd,
  pattern))\<close>. The file system is a tree of plain files and directories (a directory
  records whether \<open>os.scandir\<close> may list it and its entries in listing order); paths
  are looked up component by component as the kernel does (empty and \<open>.\<close> components
  stay, \<open>..\<close> goes up, a component after a plain file fails). \<open>path_split\<close> is
  \<open>posixpath.split\<close>; \<open>listdir\<close> is \<open>glob._listdir\<close> (an \<open>OSError\<close> gives no names);
  \<open>glob0_dir\<close> and \<open>glob1_dir\<close> are \<open>glob._glob0\<close> and \<open>glob._glob1\<close>; \<open>iglob\<close> is
  the recursive generator \<open>glob._iglob\<close>, which globs the directory part of the
  pattern first when it holds a wildcard. Its recursion is on the directory part, which
  is shorter than the path whenever it differs from it; \<open>iglob\<close> is written as a
  \<open>partial_function\<close> in the option monad and proved total. The nodes of the
  tree are those of \<open>World\<close>: the working directory of a world is the node
  \<open>dir_of_world\<close>, subdirectories included.
\<close>

function split_slash :: "pystr \<Rightarrow> pystr list" where
  "split_slash s =
     (let a = takeWhile (\<lambda>c. c \<noteq> 47) s; r = dropWhile (\<lambda>c. c \<noteq> 47) s
      in if r = [] then [a] else a # split_slash (tl r))"
  by pat_completeness auto

termination
proof (relation "measure length")
  fix s :: pystr and a r
  assume "r = dropWhile (\<lambda>c. c \<noteq> 47) s" "r \<noteq> []"
  then have "length r \<le> length s" by (simp add: length_dropWhile_le)
  with \<open>r \<noteq> []\<close> show "(tl r, s) \<in> measure length" by (cases r) simp_all
qed simp

declare split_slash.simps [simp del]

text \<open>
  The walk keeps the stack of directories from the root to the current one, so that
  \<open>..\<close> can go up; at the root \<open>..\<close> stays.
\<close>

fun walk :: "node list \<Rightarrow> pystr list \<Rightarrow> node option" where
  "walk [] cs = None"
| "walk (n # up) [] = Some n"
| "walk (File b # up) (c # cs) = None"
| "walk (Dir r es # up) (c # cs) =
     (if c = [] \<or> c = py ''.'' then walk (Dir r es # up) cs
      else if c = py ''..'' then walk (if up = [] then [Dir r es] else up) cs
      else case map_of es c of
             None \<Rightarrow> None
           | Some n \<Rightarrow> walk (n # Dir r es # up) cs)"

text \<open>
  A path is looked up from the root when it is absolute and from the working directory
  \<open>cwdp\<close> (an absolute path) otherwise; the empty path names nothing.
\<close>

definition lookup_path :: "node \<Rightarrow> pystr \<Rightarrow> pystr \<Rightarrow> node option" where
  "lookup_path root cwdp p =
     (if p = [] then None
      else walk [root] (split_slash (if hd p = 47 then p else cwdp @ [47] @ p)))"

definition lexists :: "node \<Rightarrow> pystr \<Rightarrow> pystr \<Rightarrow> bool" where
  "lexists root cwdp p = (lookup_path root cwdp p \<noteq> None)"

definition isdir :: "node \<Rightarrow> pystr \<Rightarrow> pystr \<Rightarrow> bool" where
  "isdir root cwdp p = (case lookup_path root cwdp p of Some n \<Rightarrow> is_dir n | None \<Rightarrow> False)"

text \<open>
  \<open>glob._listdir\<close>: \<open>os.scandir\<close> of the directory (of \<open>os.curdir\<close> for the empty
  name), keeping only directories when \<open>dironly\<close>; a missing path, a plain file or an
  unreadable directory raise \<open>OSError\<close>, which gives no names.
\<close>

definition listdir :: "node \<Rightarrow> pystr \<Rightarrow> pystr \<Rightarrow> bool \<Rightarrow> pystr list" where
  "listdir root cwdp d dironly =
     (case lookup_path root cwdp (if d = [] then py ''.'' else d) of
        Some (Dir True es) \<Rightarrow> map fst (filter (\<lambda>e. \<not> dironly \<or> is_dir (snd e)) es)
      | _ \<Rightarrow> [])"

text \<open>
  \<open>posixpath.split\<close>: the head is the text up to the last slash, with its trailing
  slashes removed unless it consists of slashes only.
\<close>

definition path_split :: "pystr \<Rightarrow> pystr \<times> pystr" where
  "path_split p =
     (let i = length p - length (takeWhile (\<lambda>c. c \<noteq> 47) (rev p));
          head = take i p
      in (if list_ex (\<lambda>c. c \<noteq> 47) head then rev (dropWhile (\<lambda>c. c = 47) (rev head)) else head,
          drop i p))"

definition glob0_dir :: "node \<Rightarrow> pystr \<Rightarrow> pystr \<Rightarrow> pystr \<Rightarrow> pystr list" where
  "glob0_dir root cwdp d b =
     (if b \<noteq> [] then (if lexists root cwdp (path_join d b) then [b] else [])
      else if isdir root cwdp d then [b] else [])"

definition glob1_dir :: "node \<Rightarrow> pystr \<Rightarrow> pystr \<Rightarrow> pystr \<Rightarrow> bool \<Rightarrow> pystr list" where
  "glob1_dir root cwdp d pat dironly =
     glob1 (listdir root cwdp d dironly) pat (fnmatch_translate pat)"

definition glob_in_dir :: "node \<Rightarrow> pystr \<Rightarrow> pystr \<Rightarrow> pystr \<Rightarrow> bool \<Rightarrow> pystr list" where
  "glob_in_dir root cwdp d b dironly =
     (if has_magic b then glob1_dir root cwdp d b dironly else glob0_dir root cwdp d b)"

partial_function (option) iglob :: "node \<Rightarrow> pystr \<Rightarrow> pystr \<Rightarrow> bool \<Rightarrow> pystr list option" where
  "iglob root cwdp pathname dironly =
     (let dirname = fst (path_split pathname); basename = snd (path_split pathname) in
      if \<not> has_magic pathname then
        Some (if basename \<noteq> [] then (if lexists root cwdp pathname then [pathname] else [])
              else if isdir root cwdp dirname then [pathname] else [])
      else if dirname = [] then Some (glob1_dir root cwdp [] basename dironly)
      else do {
        dirs \<leftarrow> (if dirname \<noteq> pathname \<and> has_magic dirname then iglob root cwdp dirname True
                 else Some [dirname]);
        Some (concat (map (\<lambda>d. map (path_join d) (glob_in_dir root cwdp d basename dironly)) dirs))
      })"

declare iglob.simps [code]

definition glob_glob :: "node \<Rightarrow> pystr \<Rightarrow> pystr \<Rightarrow> pystr list option" where
  "glob_glob root cwdp pathname = iglob root cwdp pathname False"

text \<open>Line 8: \<open>glob.glob(os.path.join(os.getcwd(), "BKGR Lettre Quotidienne*.pdf"))\<close>.\<close>

definition find_pdfs :: "node \<Rightarrow> pystr \<Rightarrow> pystr list option" where
  "find_pdfs root cwdp = glob_glob root cwdp (path_join cwdp pdf_pattern)"

text \<open>
  What \<open>os.getcwd()\<close> returns: an absolute path without trailing slash, unless it is
  the root.
\<close>

definition abs_dir_path :: "pystr \<Rightarrow> bool" where
  "abs_dir_path c = (c \<noteq> [] \<and> hd c = 47 \<and> (c = [47] \<or> last c \<noteq> 47))"

text \<open>The working directory of a \<open>world\<close> as a node of the tree.\<close>

definition dir_of_world :: "world \<Rightarrow> node" where
  "dir_of_world w = Dir (listable w) (entries w)"

subsection \<open>Splitting paths\<close>

lemma rev_dropWhile_rev_prefix: "\<exists>t. xs = rev (dropWhile P (rev xs)) @ t"
proof -
  have "xs = rev (dropWhile P (rev xs)) @ rev (takeWhile P (rev xs))"
    by (metis rev_append rev_rev_ident takeWhile_dropWhile_id)
  then show ?thesis by blast
qed

lemma path_split_head: "\<exists>t. p = fst (path_split p) @ t"
proof -
  define i where "i = length p - length (takeWhile (\<lambda>c. c \<noteq> 47) (rev p))"
  obtain t where t: "take i p = rev (dropWhile (\<lambda>c. c = 47) (rev (take i p))) @ t"
    using rev_dropWhile_rev_prefix by blast
  have p1: "p = take i p @ drop i p" by simp
  then have p2: "p = rev (dropWhile (\<lambda>c. c = 47) (rev (take i p))) @ (t @ drop i p)"
    using t by (metis append.assoc)
  show ?thesis
  proof (cases "list_ex (\<lambda>c. c \<noteq> 47) (take i p)")
    case True
    then have "fst (path_split p) = rev (dropWhile (\<lambda>c. c = 47) (rev (take i p)))"
      by (simp add: path_split_def Let_def i_def [symmetric])
    then show ?thesis using p2 by metis
  next
    case False
    then have "fst (path_split p) = take i p" by (simp add: path_split_def Let_def i_def [symmetric])
    then show ?thesis using p1 by metis
  qed
qed

lemma path_split_shorter: "fst (path_split p) \<noteq> p \<Longrightarrow> length (fst (path_split p)) < length p"
  using path_split_head [of p] by (metis append.right_neutral length_append less_add_same_cancel1
      length_greater_0_conv)

lemma path_split_join:
  assumes "abs_dir_path c" and "47 \<notin> set b" and "b \<noteq> []"
  shows "path_split (path_join c b) = (c, b)"
proof (cases "c = [47]")
  case True
  have tw: "takeWhile (\<lambda>x. x \<noteq> 47) (rev b @ [47]) = rev b"
    using assms(2) by (subst takeWhile_append2) auto
  have "hd b \<noteq> 47" using assms(2,3) by (cases b) auto
  then show ?thesis using True assms(3) by (simp add: path_join_def path_split_def tw)
next
  case False
  then have c: "c \<noteq> []" "last c \<noteq> 47" using assms(1) by (simp_all add: abs_dir_path_def)
  have j: "path_join c b = c @ [47] @ b"
    using c assms(2,3) by (cases b) (auto simp: path_join_def)
  have tw: "takeWhile (\<lambda>x. x \<noteq> 47) (rev b @ 47 # rev c) = rev b"
    using assms(2) by (subst takeWhile_append2) auto
  have ex: "list_ex (\<lambda>x. x \<noteq> 47) (c @ [47])"
    using c by (auto simp: list_ex_iff intro: bexI [of _ "last c"])
  have dw: "dropWhile (\<lambda>x. x = 47) (rev c) = rev c"
    using c by (cases "rev c") (auto simp flip: last_rev)
  show ?thesis using ex dw by (simp add: j path_split_def tw)
qed

subsection \<open>Directory listings\<close>

lemma listdir_world:
  "d \<noteq> [] \<Longrightarrow> lookup_path root c d = Some (dir_of_world w) \<Longrightarrow>
   listdir root c d False = scandir_names w"
  by (simp add: listdir_def dir_of_world_def scandir_names_def comp_def case_prod_unfold)

lemma iglob_unfold:
  "iglob root cwdp p dironly =
     (if \<not> has_magic p then
        Some (if snd (path_split p) \<noteq> [] then (if lexists root cwdp p then [p] else [])
              else if isdir root cwdp (fst (path_split p)) then [p] else [])
      else if fst (path_split p) = [] then Some (glob1_dir root cwdp [] (snd (path_split p)) dironly)
      else map_option
        (\<lambda>dirs. concat (map (\<lambda>d. map (path_join d)
                         (glob_in_dir root cwdp d (snd (path_split p)) dironly)) dirs))
        (if fst (path_split p) \<noteq> p \<and> has_magic (fst (path_split p))
         then iglob root cwdp (fst (path_split p)) True else Some [fst (path_split p)]))"
  by (subst iglob.simps) (simp add: Let_def map_option_case split: option.split)

text \<open>
  \<open>glob._iglob\<close> always returns: its recursion on the directory part of the pattern
  ends, for every path, whether or not it asks for directories only.
\<close>

lemma iglob_total: "\<exists>r. iglob root cwdp p dironly = Some r"
proof (induction "length p" arbitrary: p dironly rule: less_induct)
  case less
  let ?d = "fst (path_split p)"
  have "\<exists>ds. (if ?d \<noteq> p \<and> has_magic ?d then iglob root cwdp ?d True else Some [?d]) = Some ds"
    using less path_split_shorter [of p] by auto
  then show ?case by (auto simp: iglob_unfold [of root cwdp p dironly])
qed

text \<open>
  When the working directory's path holds no wildcard, \<open>glob.glob\<close> of
  \<open>os.path.join(os.getcwd(), pattern)\<close> for a one-component pattern with a wildcard is
  the listing of the working directory filtered by \<open>fnmatch\<close> and joined to it.
\<close>

lemma glob_refines_cwd:
  assumes "abs_dir_path (cwd w)" and "\<not> has_magic (cwd w)"
    and "lookup_path root (cwd w) (cwd w) = Some (dir_of_world w)"
    and "has_magic pat" and "47 \<notin> set pat"
  shows "glob_glob root (cwd w) (path_join (cwd w) pat) = Some (glob_cwd w pat (fnmatch_translate pat))"
proof -
  have ne: "pat \<noteq> []" using assms(4) by (auto simp: has_magic_def)
  have c: "cwd w \<noteq> []" using assms(1) by (simp add: abs_dir_path_def)
  have sp: "path_split (path_join (cwd w) pat) = (cwd w, pat)"
    by (rule path_split_join [OF assms(1,5) ne])
  have m: "has_magic (path_join (cwd w) pat)"
    using assms(4) by (auto simp: has_magic_def path_join_def)
  have "glob_in_dir root (cwd w) (cwd w) pat False = glob1 (scandir_names w) pat (fnmatch_translate pat)"
    using assms(4) listdir_world [OF c assms(3)] by (simp add: glob_in_dir_def glob1_dir_def)
  then show ?thesis
    using m c assms(2) by (simp add: glob_glob_def iglob_unfold sp glob_cwd_def)
qed

subsection \<open>The file discovery of line 8\<close>

lemma path_split_snd_join:
  assumes "47 \<notin> set pat"
  shows "snd (path_split (path_join c pat)) = pat"
proof -
  have tw: "takeWhile (\<lambda>x. x \<noteq> 47) (rev pat @ xs) = rev pat @ takeWhile (\<lambda>x. x \<noteq> 47) xs" for xs
    by (rule takeWhile_append2) (use assms in auto)
  obtain pre where pj: "path_join c pat = pre @ pat"
    and pre: "pre = [] \<or> last pre = 47"
  proof (cases "c = [] \<or> last c = 47")
    case True
    have "path_join c pat = c @ pat"
      using True assms by (cases pat) (auto simp: path_join_def)
    with True show ?thesis using that by blast
  next
    case False
    have "path_join c pat = (c @ [47]) @ pat"
      using False assms by (cases pat) (auto simp: path_join_def)
    then show ?thesis using that by fastforce
  qed
  have "takeWhile (\<lambda>x. x \<noteq> 47) (rev (pre @ pat)) = rev pat"
    using pre tw [of "rev pre"] by (cases pre rule: rev_cases) auto
  then show ?thesis by (simp add: path_split_def pj Let_def)
qed

lemma glob1_mem: "n \<in> set (glob1 names pat toks) \<Longrightarrow> n \<in> set names \<and> wmatch toks n"
  by (auto simp: glob1_def split: if_splits)

lemma glob_in_dir_pdf:
  "n \<in> set (glob_in_dir root cwdp d pdf_pattern False) \<Longrightarrow>
   n \<in> set (listdir root cwdp d False) \<and> (\<exists>m. n = pdf_prefix @ m @ pdf_suffix)"
proof -
  assume n: "n \<in> set (glob_in_dir root cwdp d pdf_pattern False)"
  have "has_magic pdf_pattern" by (simp add: has_magic_def pdf_pattern_def pdf_prefix_def py_def)
  then have "n \<in> set (glob1 (listdir root cwdp d False) pdf_pattern pdf_tokens)"
    using n by (simp add: glob_in_dir_def glob1_dir_def fnmatch_translate_pdf_pattern)
  from glob1_mem [OF this] show ?thesis by (simp add: pdf_tokens_match)
qed

text \<open>
  C24. The file discovery of line 8 always returns, whatever the tree and whatever
  characters the working directory's path holds, and every path it returns is an entry
  that some directory lists, under a name with the pattern's prefix and suffix, joined
  to that directory: \<open>glob\<close> never invents a path or returns a non-matching name.
  The directory need not be the working directory (see the finding on wildcards in the
  working directory's path).
\<close>

theorem find_pdfs_sound:
  "\<exists>fs. find_pdfs root cwdp = Some fs \<and>
     (\<forall>p\<in>set fs. \<exists>d n. p = path_join d n \<and> n \<in> set (listdir root cwdp d False) \<and>
                       (\<exists>m. n = pdf_prefix @ m @ pdf_suffix))"
proof -
  let ?p = "path_join cwdp pdf_pattern"
  have sl: "47 \<notin> set pdf_pattern" by (simp add: pdf_pattern_def pdf_prefix_def pdf_suffix_def py_def)
  have m: "has_magic ?p" by (auto simp: has_magic_def path_join_def pdf_pattern_def pdf_prefix_def py_def)
  have sn: "snd (path_split ?p) = pdf_pattern" by (rule path_split_snd_join [OF sl])
  obtain fs where fs: "find_pdfs root cwdp = Some fs"
    using iglob_total [of root cwdp ?p False] unfolding find_pdfs_def glob_glob_def by blast
  have "\<forall>p\<in>set fs. \<exists>d n. p = path_join d n \<and> n \<in> set (listdir root cwdp d False) \<and>
                       (\<exists>m. n = pdf_prefix @ m @ pdf_suffix)"
  proof (cases "fst (path_split ?p) = []")
    case True
    have "has_magic pdf_pattern" by (simp add: has_magic_def pdf_pattern_def pdf_prefix_def py_def)
    then have gi: "fs = glob_in_dir root cwdp [] pdf_pattern False"
      using fs m sn True by (simp add: find_pdfs_def glob_glob_def glob_in_dir_def iglob_unfold [of root cwdp ?p False])
    show ?thesis
    proof
      fix p assume "p \<in> set fs"
      then have "p \<in> set (listdir root cwdp [] False) \<and> (\<exists>m. p = pdf_prefix @ m @ pdf_suffix)"
        using glob_in_dir_pdf gi by blast
      moreover have "p = path_join [] p" by (cases p) (auto simp: path_join_def)
      ultimately show "\<exists>d n. p = path_join d n \<and> n \<in> set (listdir root cwdp d False) \<and>
                       (\<exists>m. n = pdf_prefix @ m @ pdf_suffix)" by blast
    qed
  next
    case False
    obtain dirs where dirs: "fs = concat (map (\<lambda>d. map (path_join d) (glob_in_dir root cwdp d pdf_pattern False)) dirs)"
      using fs m sn False by (auto simp: find_pdfs_def glob_glob_def iglob_unfold [of root cwdp ?p False])
    show ?thesis
    proof
      fix p assume "p \<in> set fs"
      then obtain d n where "n \<in> set (glob_in_dir root cwdp d pdf_pattern False)" "p = path_join d n"
        using dirs by auto
      then show "\<exists>d n. p = path_join d n \<and> n \<in> set (listdir root cwdp d False) \<and>
                       (\<exists>m. n = pdf_prefix @ m @ pdf_suffix)" using glob_in_dir_pdf by blast
    qed
  qed
  with fs show ?thesis by blast
qed

text \<open>
  C25. When the working directory's path (as \<open>os.getcwd()\<close> returns it) holds no
  \<open>*\<close>, \<open>?\<close> or \<open>[\<close>, line 8 returns exactly what the model of \<open>main\<close> uses: the
  names of the working directory that match the pattern, in listing order, joined to
  the directory (\<open>glob_cwd\<close> with the tokens of the pattern).
\<close>

theorem find_pdfs_refines:
  assumes "abs_dir_path (cwd w)" and "\<not> has_magic (cwd w)"
    and "lookup_path root (cwd w) (cwd w) = Some (dir_of_world w)"
  shows "find_pdfs root (cwd w) = Some (glob_cwd w pdf_pattern pdf_tokens)"
proof -
  have "has_magic pdf_pattern" by (simp add: has_magic_def pdf_pattern_def pdf_prefix_def py_def)
  moreover have "47 \<notin> set pdf_pattern"
    by (simp add: pdf_pattern_def pdf_prefix_def pdf_suffix_def py_def)
  ultimately show ?thesis
    using glob_refines_cwd [OF assms] fnmatch_translate_pdf_pattern by (simp add: find_pdfs_def)
qed

end
