(* ===== verification/Spec2Isabelle.thy ===== *)
theory Spec2Isabelle
  imports Session GlobTree
begin

text \<open>
  \<^bold>\<open>A verified model of \<open>src/scripts/analyze_pdf.py\<close>.\<close>

  The repository is one script. \<open>main()\<close> globs the working directory for
  \<open>BKGR Lettre Quotidienne*.pdf\<close>, takes the first match, lets \<open>pypdf\<close> extract the
  text of each page, concatenates the truthy page texts behind \<open>--- Page n ---\<close>
  headers, writes the result to \<open>latest_pdf_content.txt\<close> as UTF-8 and prints a report;
  every exception inside the \<open>try\<close> block becomes the line \<open>Error parsing PDF: ...\<close>.

  \<^bold>\<open>Theories and what they model.\<close>
  \<^item> \<open>Prelude\<close>: Python strings as lists of code points (\<open>pystr\<close>), bytes as
    \<open>8 word\<close>, the literal conversion \<open>py\<close>, Python truthiness of \<open>str | None\<close>
    (\<open>py_truthy\<close>), shared list lemmas.
  \<^item> \<open>PyFormat\<close>: \<open>str(n)\<close> in f-strings (\<open>str_nat\<close>), the exceptions the handler
    catches (\<open>py_exc\<close>) and their \<open>str(e)\<close> (\<open>exc_str\<close>).
  \<^item> \<open>Extract\<close>: lines 20--25, the page loop (\<open>extract_loop\<close>, the header
    \<open>page_header\<close>), and its reference reading \<open>extract_spec\<close> /
    \<open>kept_pages\<close> (numbered blocks of the truthy pages).
  \<^item> \<open>Glob\<close>: the pattern language of line 8: \<open>fnmatch_translate\<close> follows
    CPython's \<open>fnmatch._translate\<close> (compressed \<open>*\<close>, \<open>?\<close>, bracket expressions
    with their chunking into ranges and the removal of empty ranges, \<open>bracket_tok\<close>),
    \<open>glob1\<close> is the filter of \<open>glob._glob1\<close> (with \<open>glob._ishidden\<close>), \<open>wmatch\<close>
    the matcher of the tokens and \<open>matches\<close> its inductive language.
  \<^item> \<open>GlobTree\<close>: \<open>glob.glob\<close> on a whole path over a directory tree (\<open>node\<close>,
    looked up component by component): \<open>path_split\<close> (\<open>posixpath.split\<close>),
    \<open>listdir\<close>, \<open>glob0_dir\<close>, \<open>glob1_dir\<close>, the recursive \<open>iglob\<close>
    (\<open>glob._iglob\<close>, a \<open>partial_function\<close> in the option monad proved total), and
    \<open>find_pdfs\<close>, the call of line 8.
  \<^item> \<open>Utf8\<close>: the strict UTF-8 codec behind \<open>open(..., encoding="utf-8")\<close> and
    \<open>f.write\<close> (lines 30--31): \<open>utf8_encode\<close> refuses surrogates with the run CPython
    reports, \<open>utf8_decode\<close> reads the file back; the same encoder writing to
    standard output under the error handler \<open>strict\<close> or \<open>surrogateescape\<close>
    (\<open>err_handler\<close>): \<open>encode_error\<close> is the position CPython's
    \<open>UnicodeEncodeError\<close> reports, \<open>encodable\<close> the strings that print.
  \<^item> \<open>World\<close>: the working directory (\<open>entries\<close>, in listing order, each a
    \<open>node\<close>: a regular \<open>File\<close> with its bytes or a subdirectory \<open>Dir\<close> with its
    own tree), the names \<open>open\<close> may not write, standard output (\<open>console\<close>, and the error handler of
    its UTF-8 encoder, \<open>stdout_errors\<close>); the builtin \<open>print\<close> as \<open>print_line\<close>
    (a line it cannot encode raises before anything is written), \<open>py_print\<close>,
    \<open>open_write\<close> (\<open>IsADirectoryError\<close> on a directory, \<open>PermissionError\<close> on a
    refused name, otherwise create or truncate), \<open>write_text\<close> (the whole \<open>with\<close> block),
    \<open>glob_cwd\<close>, \<open>resolve\<close>, \<open>path_join\<close> (\<open>posixpath.join\<close>).
  \<^item> \<open>Runner\<close>: \<open>main\<close> (lines 6--39) and its \<open>try\<close> body \<open>main_try\<close>
    (lines 16--39), with Python statements sequenced by \<open>res_bind\<close>, so that an exception
    of a \<open>print\<close> outside the \<open>try\<close> (line 14) or inside the handler (line 39)
    escapes \<open>main\<close> as an \<open>Inl\<close>; \<open>exit_status\<close> and \<open>final_world\<close>
    read the outcome of lines 41--42, the constants of the script, \<open>report\<close> (lines 33--36), and the
    opaque PDF library \<open>pdf_reader\<close>: bytes to an exception or the outcomes of
    \<open>extract_text()\<close> per page (an exception of \<open>PdfReader\<close> or of
    \<open>len(reader.pages)\<close> is an \<open>Inl\<close> of the reader, one of \<open>extract_text\<close> an
    \<open>Inl\<close> page).
  \<^item> \<open>Effect\<close>: the abstract run \<open>run_effect\<close> (the printed lines and the bytes
    left in the output file, from what the script observes), \<open>apply_effect\<close>, and the
    refinement \<open>main_effect\<close>: \<open>main\<close> is \<open>print_effect\<close> of \<open>run_effect\<close> on
    every well-formed world, where \<open>print_effect\<close> prints the lines one by one through
    \<open>print_line\<close> and applies the file effect after the third; \<open>effect_done\<close> is the
    part of an effect that happens before the first line standard output refuses.
  \<^item> \<open>Session\<close>: repeated runs interleaved with other processes acting on the
    directory (\<open>env_action\<close>: a file put or removed, a directory created,
    permissions or listability changed; never the output file), as the inductive step
    relation \<open>session_step\<close> and its closure \<open>reachable\<close>; \<open>session_inv\<close> is
    well-formedness plus "the output file, if present, is valid UTF-8";
    \<open>reachable_wf\<close> carries well-formedness along any session.
  \<^item> this theory: sample directories and readers, and the properties of \<open>main\<close>
    that span the components, proved through \<open>main_effect\<close>.

  \<^bold>\<open>What is proved.\<close> The success path of \<open>main\<close> exactly (C1, for a PDF
  whose path standard output can print); each error path with its exact final world
  (C4--C8), including the two behaviours the spec describes
  otherwise: a refused \<open>open\<close> is caught by the broad handler (C7), and a text with a
  surrogate leaves an empty, truncated output file (C8). The page loop equals its
  reference (C2), omits the header of every page whose text is empty or \<open>None\<close> (C3),
  numbers blocks in increasing order (C13, C14), and returns a text whose length, the
  count line 33 prints, is the sum over the truthy pages of text, header and page
  number (C15). A second run leaves the directory as the first left it and prints the
  same lines (C9); a run touches no other file (C10), appends one to seven lines
  (C21), and reports the length and the first 500 characters of exactly what the
  output file decodes to (C11). \<open>glob\<close> selects the names with the prefix and suffix
  in directory order and never the output file (C12); the matcher is its inductive
  language (C19). The codec round-trips (C16), takes one to four bytes per character
  (C17), and fails exactly at the first surrogate run (C18); \<open>str(n)\<close> is a
  canonical numeral (C20). Writing back what the decoder reads reproduces the file byte
  for byte (C22), and in every session reachable from a good start, with a library
  returning valid strings, the output file is always valid UTF-8 (C23, by rule
  induction on \<open>reachable\<close>).

  \<^bold>\<open>Discovery on the directory tree.\<close> Line 8 always returns, and only paths
  that some directory lists under a matching name (C24: the recursion of
  \<open>glob._iglob\<close> is on the directory part, shorter than the path whenever it differs
  from it). When the working directory's path holds no \<open>*\<close>, \<open>?\<close> or \<open>[\<close>, line 8
  returns exactly \<open>glob_cwd\<close>, the discovery the model of \<open>main\<close> uses (C25, a
  refinement); so the theorems on \<open>main\<close> hold of the script in every such directory.
  When it holds one, \<open>glob\<close> reads the directory itself as a pattern and its first
  result can be a sibling directory's PDF (\<open>glob_magic_cwd_sibling\<close>, a computation
  on one tree, which the witness of C24 reuses); the model of \<open>main\<close> does not cover
  that case.

  \<^bold>\<open>Standard output.\<close> \<open>print\<close> encodes with the locale's encoding, taken here
  to be UTF-8, under \<open>strict\<close> (a UTF-8 locale) or \<open>surrogateescape\<close> (the C
  locale); a file name with an undecodable byte holds a lone surrogate
  (\<open>U+DC80..U+DCFF\<close>). The exit status is 1 exactly when one of the lines the run
  prints cannot be encoded, every other failure being caught (C26); whenever the
  first line cannot be, line 14, outside the \<open>try\<close>, raises with the world untouched
  and the position the encoder reports (C27). Conversely, when standard output can
  print the working directory, every name in it and every message of the library
  (\<open>reader_msgs_encodable\<close>), the status is 0 on every path, as the spec promises
  (C31). The lines inside the \<open>try\<close> never fail once line 14 printed (the output
  path's characters are the working directory's, and a text that was written has no
  surrogate), which \<open>main_effect\<close> proves on the way.

  \<^bold>\<open>Directories.\<close> \<open>glob\<close> returns every matching name, directories included, and
  \<open>files[0]\<close> may be one: \<open>PdfReader\<close>'s \<open>open(path, "rb")\<close> then raises
  \<open>IsADirectoryError\<close>, which the handler reports, even when a readable PDF matches
  later in the listing (C28). When \<open>latest_pdf_content.txt\<close> is a directory,
  \<open>open(output_path, "w")\<close> raises \<open>IsADirectoryError\<close> after the three progress
  lines (C29), and no run replaces or removes it: the directory stays in every later
  world of the session (C30, by rule induction on \<open>reachable\<close>; other processes do
  not touch the output path by the definition of \<open>env_ok\<close>, so the content of the
  theorem is in its run steps).

  \<^bold>\<open>Not modelled.\<close> The PDF library itself (opaque by design: the script only
  calls it); symbolic links, read permissions and search permissions in the tree
  (a matching file that cannot be read is an exception of the library's \<open>open\<close>,
  covered by C5 as any \<open>Inl\<close> of \<open>pdf_reader\<close>); the case-folding of \<open>os.path.normcase\<close> (the identity on
  POSIX); standard output encodings other than UTF-8, and the traceback an uncaught
  exception prints on standard error;
  write failures after \<open>open\<close> succeeded other than the codec's (disk full); the
  \<open>repr\<close> escaping of file names in \<open>OSError\<close> messages, which depends on the
  Unicode database's printable characters (file names are quoted as they are); a
  working directory removed before line 8 (\<open>os.getcwd\<close> raising). No loop of the
  script can diverge: every definition is total, with termination proved
  (\<open>utf8_decode\<close> and \<open>chunk_loop\<close> by a measure, \<open>iglob\<close> by C24), so no fuel is
  needed.
\<close>

subsection \<open>Sample inputs\<close>

definition demo_name :: pystr where
  "demo_name = py ''BKGR Lettre Quotidienne 2024-05-02.pdf''"

definition demo_pdf :: bytes where
  "demo_pdf = [37, 80, 68, 70]"

definition demo_world :: world where
  "demo_world =
     \<lparr>cwd = py ''/home/analyst'', entries = [(py ''notes.txt'', File []), (demo_name, File demo_pdf)],
      listable = True, denied = [], console = [], stdout_errors = Strict\<rparr>"

definition demo_pages :: "pystr option list" where
  "demo_pages = [Some (py ''Cours du jour''), Some [], None, Some (py ''MASI +0.4%'')]"

definition demo_reader :: pdf_reader where
  "demo_reader bs =
     (if bs = demo_pdf then Inr (map Inr demo_pages) else Inl (PdfError (py ''EOF marker not found'')))"

definition broken_reader :: pdf_reader where
  "broken_reader bs = Inl (PdfError (py ''EOF marker not found''))"

definition surrogate_reader :: pdf_reader where
  "surrogate_reader bs = Inr [Inr (Some [55296])]"

definition empty_world :: world where
  "empty_world = demo_world\<lparr>entries := [(py ''notes.txt'', File [])]\<rparr>"

definition locked_world :: world where
  "locked_world = demo_world\<lparr>denied := [output_name]\<rparr>"

definition page_fail_reader :: pdf_reader where
  "page_fail_reader bs = Inr [Inr (Some (py ''p1'')), Inl (PdfError (py ''bad font'')), Inr None]"

text \<open>
  A PDF whose name was written in Latin-1 (\<open>\<e>\<close> as the byte \<open>0xE9\<close>) on a UTF-8
  system: \<open>os.scandir\<close> returns the byte as the lone surrogate \<open>U+DCE9\<close>.
\<close>

definition latin1_name :: pystr where
  "latin1_name = py ''BKGR Lettre Quotidienne '' @ [56553] @ py ''.pdf''"

definition latin1_world :: world where
  "latin1_world = demo_world\<lparr>entries := [(py ''notes.txt'', File []), (latin1_name, File demo_pdf)]\<rparr>"

text \<open>
  A directory whose name matches the pattern, listed before the PDF (an unpacked
  archive, say), and a directory where the output file should be.
\<close>

definition dir_name :: pystr where
  "dir_name = py ''BKGR Lettre Quotidienne 2024-05-01.pdf''"

definition dir_world :: world where
  "dir_world = demo_world\<lparr>entries := [(py ''notes.txt'', File []), (dir_name, Dir True []), (demo_name, File demo_pdf)]\<rparr>"

definition outdir_world :: world where
  "outdir_world = demo_world\<lparr>entries := entries demo_world @ [(output_name, Dir True [])]\<rparr>"

text \<open>
  The directory tree around \<open>demo_world\<close>, and a tree whose working directory
  \<open>/data/q?\<close> has a sibling \<open>/data/qa\<close> listed before it.
\<close>

definition demo_root :: node where
  "demo_root = Dir True [(py ''home'', Dir True [(py ''analyst'', dir_of_world demo_world)])]"

definition magic_cwd :: pystr where
  "magic_cwd = py ''/data/q?''"

definition sibling_root :: node where
  "sibling_root =
     Dir True [(py ''data'', Dir True
       [(py ''qa'', Dir True [(py ''BKGR Lettre Quotidienne 2.pdf'', File demo_pdf)]),
        (py ''q?'', Dir True [(py ''BKGR Lettre Quotidienne 1.pdf'', File demo_pdf)])])]"

subsection \<open>Behaviour of main\<close>

text \<open>
  C1. A run on a directory whose first matching file the library reads without error,
  with an output path that is no directory and may be written, text the codec accepts and a path standard
  output can print: the directory gains (or overwrites) \<open>latest_pdf_content.txt\<close>
  holding the UTF-8 bytes of the extracted text, exactly seven lines are printed, in
  this order, and \<open>main\<close> returns normally.
\<close>

theorem main_success:
  assumes "wf_world w"
    and "filter (wmatch pdf_tokens) (scandir_names w) = n # ns"
    and "(n, File bs) \<in> set (entries w)"
    and "rd bs = Inr (map Inr ts)"
    and "output_name \<notin> set (denied w)"
    and "\<forall>c\<in>set (extract_spec ts). \<not> is_surrogate c"
    and "encodable (stdout_errors w) (path_join (cwd w) n)"
    and "\<not> dir_entry w output_name"
  shows "main rd w = Inr
     (w\<lparr>entries := AList.update output_name (File (concat (map utf8_char (extract_spec ts)))) (entries w),
       console := console w @
         [py ''Reading PDF: '' @ path_join (cwd w) n,
          py ''Number of Pages: '' @ str_nat (length ts),
          py ''Writing to: '' @ path_join (cwd w) output_name,
          py ''Success! Extracted '' @ str_nat (length (extract_spec ts)) @ py '' characters.'',
          py ''--- First 500 characters ---'',
          take 500 (extract_spec ts),
          py ''----------------------------'']\<rparr>)"
proof -
  let ?p = "path_join (cwd w) n"
  let ?w1 = "py_print w (py ''Reading PDF: '' @ ?p)"
  note mf = main_first_printed [OF assms(1,2,7), of rd]
  have rd1: "read_pdf rd ?w1 ?p = Inr (map Inr ts)"
    using read_pdf_first [OF assms(1,2,3), of ?w1] assms(4) by simp
  let ?w2 = "py_print (py_print ?w1 (py ''Number of Pages: '' @ str_nat (length ts)))
               (py ''Writing to: '' @ path_join (cwd w) output_name)"
  have wr: "write_text ?w2 output_name (extract_spec ts) =
            Inr (?w2\<lparr>entries := AList.update output_name (File (concat (map utf8_char (extract_spec ts)))) (entries w)\<rparr>)"
    using assms(5,6,8) by (simp add: write_text_ok)
  have "main_try rd ?p ?w1 =
          report (?w2\<lparr>entries := AList.update output_name (File (concat (map utf8_char (extract_spec ts)))) (entries w)\<rparr>)
                 (extract_spec ts)"
    using main_try_pages [OF rd1] wr mf by (simp add: Let_def)
  then show ?thesis
    using mf assms(6) by (simp add: report_ok py_print_def)
qed

lemma demo_facts:
  "wf_world demo_world"
  "filter (wmatch pdf_tokens) (scandir_names demo_world) = [demo_name]"
  "(demo_name, File demo_pdf) \<in> set (entries demo_world)"
  "output_name \<notin> set (denied demo_world)"
  "\<forall>c\<in>set (extract_spec demo_pages). \<not> is_surrogate c"
  "encodable (stdout_errors demo_world) (path_join (cwd demo_world) demo_name)"
  "\<not> dir_entry demo_world output_name"
  by (simp_all add: dir_entry_def demo_world_def demo_name_def wf_world_def good_name_def py_def scandir_names_def
      pdf_tokens_def pdf_prefix_def pdf_suffix_def output_name_def extract_spec_def demo_pages_def
      blocks_def page_header_def newline_def is_surrogate_def path_join_def)

theorem main_success_witness:
  "wf_world demo_world \<and> filter (wmatch pdf_tokens) (scandir_names demo_world) = demo_name # []
   \<and> (demo_name, File demo_pdf) \<in> set (entries demo_world)
   \<and> demo_reader demo_pdf = Inr (map Inr demo_pages)
   \<and> output_name \<notin> set (denied demo_world)
   \<and> \<not> dir_entry demo_world output_name
   \<and> main demo_reader demo_world = Inr
     (demo_world\<lparr>entries := AList.update output_name (File (concat (map utf8_char (extract_spec demo_pages)))) (entries demo_world),
       console := console demo_world @
         [py ''Reading PDF: '' @ path_join (cwd demo_world) demo_name,
          py ''Number of Pages: '' @ str_nat (length demo_pages),
          py ''Writing to: '' @ path_join (cwd demo_world) output_name,
          py ''Success! Extracted '' @ str_nat (length (extract_spec demo_pages)) @ py '' characters.'',
          py ''--- First 500 characters ---'',
          take 500 (extract_spec demo_pages),
          py ''----------------------------'']\<rparr>)"
proof -
  have rd: "demo_reader demo_pdf = Inr (map Inr demo_pages)" by (simp add: demo_reader_def)
  show ?thesis
    using main_success [where rd = demo_reader and ts = demo_pages, OF demo_facts(1,2,3) rd demo_facts(4,5,6,7)]
      demo_facts rd by simp
qed

text \<open>
  C4. With no matching file the run prints only \<open>No matching PDF file found.\<close>,
  changes nothing else and returns normally.
\<close>

theorem main_no_match:
  assumes "filter (wmatch pdf_tokens) (scandir_names w) = []"
  shows "main rd w = Inr (w\<lparr>console := console w @ [py ''No matching PDF file found.'']\<rparr>)"
  using main_no_file [OF assms] by (simp add: py_print_def)

text \<open>
  C5. When \<open>PdfReader\<close> (or \<open>len(reader.pages)\<close>) raises, the run prints the path
  and the error message, and writes no file.
\<close>

theorem main_reader_error:
  assumes "wf_world w" "filter (wmatch pdf_tokens) (scandir_names w) = n # ns"
    "(n, File bs) \<in> set (entries w)" "rd bs = Inl e"
    "encodable (stdout_errors w) (path_join (cwd w) n)" "encodable (stdout_errors w) (exc_str e)"
  shows "main rd w = Inr (w\<lparr>console := console w @
           [py ''Reading PDF: '' @ path_join (cwd w) n, py ''Error parsing PDF: '' @ exc_str e]\<rparr>)"
  using main_first_printed [OF assms(1,2,5), of rd] main_try_read_error read_first_file [OF assms(1-3), of rd]
    assms(4,6)
  by (simp add: print_line_ok py_print_def)

text \<open>
  C6. When some \<open>extract_text()\<close> raises, the page count has been printed, the error is
  reported, and no file is written: the text of earlier pages is discarded.
\<close>

theorem main_page_error:
  assumes "wf_world w" "filter (wmatch pdf_tokens) (scandir_names w) = n # ns"
    "(n, File bs) \<in> set (entries w)" "rd bs = Inr pages" "page_texts pages = Inl e"
    "encodable (stdout_errors w) (path_join (cwd w) n)" "encodable (stdout_errors w) (exc_str e)"
  shows "main rd w = Inr (w\<lparr>console := console w @
           [py ''Reading PDF: '' @ path_join (cwd w) n,
            py ''Number of Pages: '' @ str_nat (length pages),
            py ''Error parsing PDF: '' @ exc_str e]\<rparr>)"
  using main_first_printed [OF assms(1,2,6), of rd] read_first_file [OF assms(1-3), of rd] assms(4,5,7)
  by (simp add: print_line_ok py_print_def main_try_page_error)

text \<open>
  C7. When \<open>open(output_path, "w")\<close> is refused on an output path that is not a
  directory, the \<open>OSError\<close> is caught by the
  same handler and reported as \<open>Error parsing PDF: [Errno 13] ...\<close>; the directory is
  unchanged.
\<close>

theorem main_write_denied:
  assumes "wf_world w" "filter (wmatch pdf_tokens) (scandir_names w) = n # ns"
    "(n, File bs) \<in> set (entries w)" "rd bs = Inr (map Inr ts)" "output_name \<in> set (denied w)"
    "encodable (stdout_errors w) (path_join (cwd w) n)" "\<not> dir_entry w output_name"
  shows "main rd w = Inr (w\<lparr>console := console w @
           [py ''Reading PDF: '' @ path_join (cwd w) n,
            py ''Number of Pages: '' @ str_nat (length ts),
            py ''Writing to: '' @ path_join (cwd w) output_name,
            py ''Error parsing PDF: '' @
              exc_str (OSError 13 (py ''Permission denied'') (path_join (cwd w) output_name))]\<rparr>)"
proof -
  note mf = main_first_printed [OF assms(1,2,6), of rd]
  have rd1: "read_pdf rd (py_print w (py ''Reading PDF: '' @ path_join (cwd w) n)) (path_join (cwd w) n)
             = Inr (map Inr ts)"
    using read_first_file [OF assms(1-3), of rd] assms(4) by simp
  show ?thesis
    using mf main_try_pages [OF rd1] assms(5,7)
    by (simp add: Let_def py_print_def write_text_denied print_line_ok del: exc_str.simps)
qed

text \<open>
  C8. When the text contains a surrogate, \<open>open\<close> has already created or truncated the
  output file, the codec raises, and the run leaves an empty \<open>latest_pdf_content.txt\<close>
  behind while reporting the \<open>UnicodeEncodeError\<close>.
\<close>

theorem main_encode_error:
  assumes "wf_world w" "filter (wmatch pdf_tokens) (scandir_names w) = n # ns"
    "(n, File bs) \<in> set (entries w)" "rd bs = Inr (map Inr ts)" "output_name \<notin> set (denied w)"
    "utf8_encode (extract_spec ts) = Inl (a, b)" "encodable (stdout_errors w) (path_join (cwd w) n)"
    "\<not> dir_entry w output_name"
  shows "main rd w = Inr (w\<lparr>entries := AList.update output_name (File []) (entries w),
           console := console w @
           [py ''Reading PDF: '' @ path_join (cwd w) n,
            py ''Number of Pages: '' @ str_nat (length ts),
            py ''Writing to: '' @ path_join (cwd w) output_name,
            py ''Error parsing PDF: '' @ exc_str (UnicodeEncodeError (extract_spec ts) a b)]\<rparr>)"
proof -
  note mf = main_first_printed [OF assms(1,2,7), of rd]
  have rd1: "read_pdf rd (py_print w (py ''Reading PDF: '' @ path_join (cwd w) n)) (path_join (cwd w) n)
             = Inr (map Inr ts)"
    using read_first_file [OF assms(1-3), of rd] assms(4) by simp
  show ?thesis
    using mf main_try_pages [OF rd1] assms(5,6,8)
    by (simp add: Let_def py_print_def write_text_encode_error print_line_ok del: exc_str.simps)
qed

text \<open>
  C28. \<open>glob\<close> returns directories as well as files. When the first match is a
  directory, \<open>PdfReader\<close>'s \<open>open(path, "rb")\<close> raises \<open>IsADirectoryError\<close>; the
  handler reports \<open>[Errno 21] Is a directory\<close> and no file is read or written, even
  when a readable PDF matches further down the listing.
\<close>

theorem main_dir_match:
  assumes "wf_world w" "filter (wmatch pdf_tokens) (scandir_names w) = n # ns"
    "(n, Dir b es) \<in> set (entries w)" "encodable (stdout_errors w) (path_join (cwd w) n)"
  shows "main rd w = Inr (w\<lparr>console := console w @
           [py ''Reading PDF: '' @ path_join (cwd w) n,
            py ''Error parsing PDF: '' @ exc_str (OSError 21 (py ''Is a directory'') (path_join (cwd w) n))]\<rparr>)"
proof -
  let ?w1 = "py_print w (py ''Reading PDF: '' @ path_join (cwd w) n)"
  have "read_pdf rd ?w1 (path_join (cwd w) n) = Inl (OSError 21 (py ''Is a directory'') (path_join (cwd w) n))"
    by (rule read_pdf_first_dir [OF assms(1-3)]) simp_all
  then show ?thesis
    using main_first_printed [OF assms(1,2,4), of rd] main_try_read_error assms(4)
    by (simp add: print_line_ok py_print_def del: exc_str.simps)
qed

text \<open>
  C29. When \<open>latest_pdf_content.txt\<close> is a directory, \<open>open(output_path, "w")\<close>
  raises \<open>IsADirectoryError\<close> before any permission check; the handler reports it
  after the three progress lines, and the directory is left as it was.
\<close>

theorem main_output_is_dir:
  assumes "wf_world w" "filter (wmatch pdf_tokens) (scandir_names w) = n # ns"
    "(n, File bs) \<in> set (entries w)" "rd bs = Inr (map Inr ts)" "dir_entry w output_name"
    "encodable (stdout_errors w) (path_join (cwd w) n)"
  shows "main rd w = Inr (w\<lparr>console := console w @
           [py ''Reading PDF: '' @ path_join (cwd w) n,
            py ''Number of Pages: '' @ str_nat (length ts),
            py ''Writing to: '' @ path_join (cwd w) output_name,
            py ''Error parsing PDF: '' @
              exc_str (OSError 21 (py ''Is a directory'') (path_join (cwd w) output_name))]\<rparr>)"
proof -
  note mf = main_first_printed [OF assms(1,2,6), of rd]
  have rd1: "read_pdf rd (py_print w (py ''Reading PDF: '' @ path_join (cwd w) n)) (path_join (cwd w) n)
             = Inr (map Inr ts)"
    using read_first_file [OF assms(1-3), of rd] assms(4) by simp
  show ?thesis
    using mf main_try_pages [OF rd1] assms(5)
    by (simp add: Let_def py_print_def write_text_is_dir print_line_ok del: exc_str.simps)
qed

lemmas demo_simps = demo_world_def demo_name_def wf_world_def good_name_def py_def scandir_names_def
  pdf_tokens_def pdf_prefix_def pdf_suffix_def output_name_def empty_world_def locked_world_def

theorem main_no_match_witness:
  "filter (wmatch pdf_tokens) (scandir_names empty_world) = [] \<and>
   main demo_reader empty_world =
     Inr (empty_world\<lparr>console := console empty_world @ [py ''No matching PDF file found.'']\<rparr>)"
proof -
  have h: "filter (wmatch pdf_tokens) (scandir_names empty_world) = []"
    by (simp add: demo_simps)
  show ?thesis using main_no_match [OF h, of demo_reader] h by simp
qed

theorem main_reader_error_witness:
  "wf_world demo_world \<and> filter (wmatch pdf_tokens) (scandir_names demo_world) = [demo_name]
   \<and> (demo_name, File demo_pdf) \<in> set (entries demo_world)
   \<and> broken_reader demo_pdf = Inl (PdfError (py ''EOF marker not found''))
   \<and> main broken_reader demo_world = Inr (demo_world\<lparr>console := console demo_world @
       [py ''Reading PDF: '' @ path_join (cwd demo_world) demo_name,
        py ''Error parsing PDF: '' @ exc_str (PdfError (py ''EOF marker not found''))]\<rparr>)"
proof -
  have rd: "broken_reader demo_pdf = Inl (PdfError (py ''EOF marker not found''))"
    by (simp add: broken_reader_def)
  have m: "encodable (stdout_errors demo_world) (exc_str (PdfError (py ''EOF marker not found'')))"
    by simp
  show ?thesis
    using main_reader_error [where rd = broken_reader, OF demo_facts(1,2,3) rd demo_facts(6) m] demo_facts rd
    by simp
qed

theorem main_page_error_witness:
  "wf_world demo_world \<and> filter (wmatch pdf_tokens) (scandir_names demo_world) = [demo_name]
   \<and> (demo_name, File demo_pdf) \<in> set (entries demo_world)
   \<and> page_fail_reader demo_pdf = Inr [Inr (Some (py ''p1'')), Inl (PdfError (py ''bad font'')), Inr None]
   \<and> page_texts [Inr (Some (py ''p1'')), Inl (PdfError (py ''bad font'')), Inr None]
       = Inl (PdfError (py ''bad font''))
   \<and> main page_fail_reader demo_world = Inr (demo_world\<lparr>console := console demo_world @
       [py ''Reading PDF: '' @ path_join (cwd demo_world) demo_name,
        py ''Number of Pages: '' @ str_nat 3,
        py ''Error parsing PDF: '' @ exc_str (PdfError (py ''bad font''))]\<rparr>)"
proof -
  have rd: "page_fail_reader demo_pdf = Inr [Inr (Some (py ''p1'')), Inl (PdfError (py ''bad font'')), Inr None]"
    by (simp add: page_fail_reader_def)
  have pt: "page_texts [Inr (Some (py ''p1'')), Inl (PdfError (py ''bad font'')), Inr None]
            = Inl (PdfError (py ''bad font''))" by simp
  have m: "encodable (stdout_errors demo_world) (exc_str (PdfError (py ''bad font'')))" by simp
  show ?thesis
    using main_page_error [where rd = page_fail_reader, OF demo_facts(1,2,3) rd pt demo_facts(6) m]
      demo_facts rd pt
    by simp
qed

theorem main_write_denied_witness:
  "wf_world locked_world \<and> filter (wmatch pdf_tokens) (scandir_names locked_world) = [demo_name]
   \<and> (demo_name, File demo_pdf) \<in> set (entries locked_world)
   \<and> demo_reader demo_pdf = Inr (map Inr demo_pages)
   \<and> output_name \<in> set (denied locked_world)
   \<and> \<not> dir_entry locked_world output_name
   \<and> main demo_reader locked_world = Inr (locked_world\<lparr>console := console locked_world @
       [py ''Reading PDF: '' @ path_join (cwd locked_world) demo_name,
        py ''Number of Pages: '' @ str_nat (length demo_pages),
        py ''Writing to: '' @ path_join (cwd locked_world) output_name,
        py ''Error parsing PDF: '' @
          exc_str (OSError 13 (py ''Permission denied'') (path_join (cwd locked_world) output_name))]\<rparr>)"
proof -
  have h: "wf_world locked_world" "filter (wmatch pdf_tokens) (scandir_names locked_world) = [demo_name]"
    "(demo_name, File demo_pdf) \<in> set (entries locked_world)" "output_name \<in> set (denied locked_world)"
    "encodable (stdout_errors locked_world) (path_join (cwd locked_world) demo_name)"
    "\<not> dir_entry locked_world output_name"
    by (simp_all add: demo_simps path_join_def dir_entry_def)
  have rd: "demo_reader demo_pdf = Inr (map Inr demo_pages)" by (simp add: demo_reader_def)
  show ?thesis
    using main_write_denied [where rd = demo_reader and ts = demo_pages, OF h(1,2,3) rd h(4,5,6)] h rd
    by simp
qed

theorem main_encode_error_witness:
  "wf_world demo_world \<and> filter (wmatch pdf_tokens) (scandir_names demo_world) = [demo_name]
   \<and> (demo_name, File demo_pdf) \<in> set (entries demo_world)
   \<and> surrogate_reader demo_pdf = Inr (map Inr [Some [55296]])
   \<and> output_name \<notin> set (denied demo_world)
   \<and> utf8_encode (extract_spec [Some [55296]]) = Inl (16, 17)
   \<and> \<not> dir_entry demo_world output_name
   \<and> main surrogate_reader demo_world = Inr
       (demo_world\<lparr>entries := AList.update output_name (File []) (entries demo_world),
         console := console demo_world @
         [py ''Reading PDF: '' @ path_join (cwd demo_world) demo_name,
          py ''Number of Pages: '' @ str_nat 1,
          py ''Writing to: '' @ path_join (cwd demo_world) output_name,
          py ''Error parsing PDF: '' @ exc_str (UnicodeEncodeError (extract_spec [Some [55296]]) 16 17)]\<rparr>)"
proof -
  have rd: "surrogate_reader demo_pdf = Inr (map Inr [Some [55296]])" by (simp add: surrogate_reader_def)
  have enc: "utf8_encode (extract_spec [Some [55296]]) = Inl (16, 17)"
    by (simp add: utf8_encode_def extract_spec_def page_header_def newline_def py_def is_surrogate_def)
  show ?thesis
    using main_encode_error [where rd = surrogate_reader, OF demo_facts(1,2,3) rd demo_facts(4) enc demo_facts(6,7)]
      demo_facts rd enc by simp
qed

theorem main_dir_match_witness:
  "wf_world dir_world \<and> filter (wmatch pdf_tokens) (scandir_names dir_world) = [dir_name, demo_name]
   \<and> (dir_name, Dir True []) \<in> set (entries dir_world)
   \<and> encodable (stdout_errors dir_world) (path_join (cwd dir_world) dir_name)
   \<and> map_of (entries dir_world) demo_name = Some (File demo_pdf)
   \<and> main demo_reader dir_world = Inr (dir_world\<lparr>console := console dir_world @
       [py ''Reading PDF: '' @ path_join (cwd dir_world) dir_name,
        py ''Error parsing PDF: '' @
          exc_str (OSError 21 (py ''Is a directory'') (path_join (cwd dir_world) dir_name))]\<rparr>)"
proof -
  have h: "wf_world dir_world" "filter (wmatch pdf_tokens) (scandir_names dir_world) = [dir_name, demo_name]"
    "(dir_name, Dir True []) \<in> set (entries dir_world)"
    "encodable (stdout_errors dir_world) (path_join (cwd dir_world) dir_name)"
    "map_of (entries dir_world) demo_name = Some (File demo_pdf)"
    by (simp_all add: dir_world_def dir_name_def demo_simps path_join_def)
  show ?thesis using main_dir_match [where rd = demo_reader, OF h(1,2,3,4)] h by simp
qed

theorem main_output_is_dir_witness:
  "wf_world outdir_world \<and> filter (wmatch pdf_tokens) (scandir_names outdir_world) = [demo_name]
   \<and> (demo_name, File demo_pdf) \<in> set (entries outdir_world)
   \<and> demo_reader demo_pdf = Inr (map Inr demo_pages)
   \<and> dir_entry outdir_world output_name
   \<and> encodable (stdout_errors outdir_world) (path_join (cwd outdir_world) demo_name)
   \<and> main demo_reader outdir_world = Inr (outdir_world\<lparr>console := console outdir_world @
       [py ''Reading PDF: '' @ path_join (cwd outdir_world) demo_name,
        py ''Number of Pages: '' @ str_nat (length demo_pages),
        py ''Writing to: '' @ path_join (cwd outdir_world) output_name,
        py ''Error parsing PDF: '' @
          exc_str (OSError 21 (py ''Is a directory'') (path_join (cwd outdir_world) output_name))]\<rparr>)"
proof -
  have h: "wf_world outdir_world" "filter (wmatch pdf_tokens) (scandir_names outdir_world) = [demo_name]"
    "(demo_name, File demo_pdf) \<in> set (entries outdir_world)" "dir_entry outdir_world output_name"
    "encodable (stdout_errors outdir_world) (path_join (cwd outdir_world) demo_name)"
    by (simp_all add: outdir_world_def demo_simps path_join_def dir_entry_def)
  have rd: "demo_reader demo_pdf = Inr (map Inr demo_pages)" by (simp add: demo_reader_def)
  show ?thesis
    using main_output_is_dir [where rd = demo_reader and ts = demo_pages, OF h(1,2,3) rd h(4,5)] h rd
    by simp
qed

text \<open>
  C9. Running the script twice on the same directory leaves the directory as the first
  run left it, and the second run prints the same lines as the first, whether or not
  an exception escaped the first run.
\<close>

theorem main_idempotent:
  assumes "wf_world w"
  shows "entries (final_world (main rd (final_world (main rd w)))) = entries (final_world (main rd w)) \<and>
         console (final_world (main rd (final_world (main rd w)))) =
           console (final_world (main rd w)) @ drop (length (console w)) (console (final_world (main rd w)))"
proof -
  let ?D = "effect_done (stdout_errors w) (run_effect rd w)"
  have m1: "final_world (main rd w) = apply_effect w ?D" by (rule main_final [OF assms])
  have wf1: "wf_world (final_world (main rd w))" using m1 wf_apply_effect [OF assms] by simp
  have "snd ?D = None \<or> \<not> dir_entry w output_name"
  proof (cases "snd ?D")
    case (Some bs)
    then have "snd (run_effect rd w) = Some bs"
      using effect_done_prefix [of "stdout_errors w" "run_effect rd w"] by auto
    then show ?thesis using run_effect_writes_file by blast
  qed simp
  then have m2: "final_world (main rd (final_world (main rd w))) = apply_effect (final_world (main rd w)) ?D"
    using main_final [OF wf1] m1 run_effect_apply_effect by simp
  show ?thesis using m1 m2 by (cases "snd ?D") (simp_all add: entries_apply_effect)
qed

text \<open>
  C10. A run changes no file other than \<open>latest_pdf_content.txt\<close>, and neither the
  working directory nor the permissions.
\<close>

theorem main_frame:
  assumes "wf_world w"
  shows "(\<forall>k. k \<noteq> output_name \<longrightarrow> map_of (entries (final_world (main rd w))) k = map_of (entries w) k)
         \<and> cwd (final_world (main rd w)) = cwd w \<and> listable (final_world (main rd w)) = listable w
         \<and> denied (final_world (main rd w)) = denied w"
  using main_final [OF assms] map_of_apply_effect by simp

text \<open>
  C21. A run only appends to standard output, at most seven lines, and at least one
  when it ends normally.
\<close>

theorem main_console_appends:
  assumes "wf_world w"
  shows "\<exists>out. console (final_world (main rd w)) = console w @ out \<and> length out \<le> 7 \<and>
           (exit_status (main rd w) = 0 \<longrightarrow> 1 \<le> length out)"
proof -
  let ?E = "run_effect rd w"
  have len: "length (fst (effect_done (stdout_errors w) ?E)) \<le> length (fst ?E)"
    by (simp add: effect_done_def Let_def)
  have "exit_status (main rd w) = 0 \<Longrightarrow> effect_done (stdout_errors w) ?E = ?E"
    using main_Inr_iff [OF assms, of rd] effect_done_ok
    by (auto simp: exit_status_def split: sum.splits)
  then show ?thesis
    using main_final [OF assms, of rd] length_run_effect [of rd w] len by auto
qed

text \<open>
  C11. After a successful run, the character count printed equals the length of the
  output file's content decoded as UTF-8, and the preview is its first 500 characters.
\<close>

theorem main_report_matches_file:
  assumes "wf_world w" "filter (wmatch pdf_tokens) (scandir_names w) = n # ns"
    "(n, File bs) \<in> set (entries w)" "rd bs = Inr (map Inr ts)" "valid_page_texts ts"
    "output_name \<notin> set (denied w)" "\<forall>c\<in>set (extract_spec ts). \<not> is_surrogate c"
    "encodable (stdout_errors w) (path_join (cwd w) n)" "\<not> dir_entry w output_name"
  shows "\<exists>w' file text. main rd w = Inr w' \<and> map_of (entries w') output_name = Some (File file)
           \<and> utf8_decode file = Some text
           \<and> console w' ! (length (console w) + 3)
               = py ''Success! Extracted '' @ str_nat (length text) @ py '' characters.''
           \<and> console w' ! (length (console w) + 5) = take 500 text"
proof -
  note eff = run_effect_success [where rd = rd, OF assms(1-4,9,6,7)]
  have dec: "utf8_decode (concat (map utf8_char (extract_spec ts))) = Some (extract_spec ts)"
    using utf8_decode_chars valid_extract_spec [OF assms(5)] assms(7) by blast
  have c: "encodable (stdout_errors w) (cwd w)"
    using main_first_printed [OF assms(1,2,8)] by blast
  have "list_all (encodable (stdout_errors w)) (fst (run_effect rd w))"
    using eff assms(7,8) c by (simp add: encodable_take)
  then show ?thesis
    using main_effect_ok [OF assms(1)] eff dec
    by (simp add: entries_apply_effect AList.update_conv nth_append)
qed

text \<open>
  C26. The script's exit status is 1 exactly when standard output cannot encode one of
  the lines the run prints (the path on line 14, or the message on line 39); every
  other failure is caught and the status is 0.
\<close>

theorem main_exit_status:
  assumes "wf_world w"
  shows "exit_status (main rd w) =
           (if list_all (encodable (stdout_errors w)) (fst (run_effect rd w)) then 0 else 1)"
  using main_Inr_iff [OF assms, of rd] by (auto simp: exit_status_def split: sum.split)

lemma latin1_facts:
  "wf_world latin1_world"
  "filter (wmatch pdf_tokens) (scandir_names latin1_world) = [latin1_name]"
  "(latin1_name, File demo_pdf) \<in> set (entries latin1_world)"
  "output_name \<notin> set (denied latin1_world)"
  "\<not> dir_entry latin1_world output_name"
  by (simp_all add: dir_entry_def latin1_world_def latin1_name_def demo_world_def wf_world_def good_name_def py_def
      scandir_names_def pdf_tokens_def pdf_prefix_def pdf_suffix_def output_name_def)

lemma latin1_line:
  "encode_error Strict 0 (py ''Reading PDF: '' @ path_join (cwd latin1_world) latin1_name) = Some (51, 52)"
  by (simp add: encode_error.simps latin1_world_def latin1_name_def demo_world_def py_def path_join_def
      is_surrogate_def escapable_def)

theorem main_exit_status_witness:
  "wf_world latin1_world \<and> exit_status (main demo_reader latin1_world) = 1"
proof -
  obtain ls where "fst (run_effect demo_reader latin1_world) =
                     (py ''Reading PDF: '' @ path_join (cwd latin1_world) latin1_name) # ls"
    using run_effect_first_line [OF latin1_facts(2)] by blast
  moreover have "stdout_errors latin1_world = Strict" by (simp add: latin1_world_def demo_world_def)
  moreover have "\<not> encodable Strict (py ''Reading PDF: '' @ path_join (cwd latin1_world) latin1_name)"
    using latin1_line encode_error_None_iff [of Strict 0] by (metis encodable_def option.distinct(1))
  ultimately show ?thesis using main_exit_status [OF latin1_facts(1), of demo_reader] latin1_facts(1) by simp
qed

text \<open>
  C27. Line 14 prints the path outside the \<open>try\<close>. Whenever standard output's
  encoder refuses the line \<open>Reading PDF: path\<close> of the first match (a file name with an
  undecodable byte under \<open>strict\<close>, say), the \<open>UnicodeEncodeError\<close> it raises, at the
  position the encoder reports, escapes \<open>main\<close> with the world untouched: nothing
  printed, nothing read, nothing written, whatever the library would have done, and
  the script ends with status 1.
\<close>

theorem main_crash_unprintable_path:
  assumes "filter (wmatch pdf_tokens) (scandir_names w) = n # ns"
    and "encode_error (stdout_errors w) 0 (py ''Reading PDF: '' @ path_join (cwd w) n) = Some (a, b)"
  shows "main rd w = Inl (UnicodeEncodeError (py ''Reading PDF: '' @ path_join (cwd w) n) a b, w) \<and>
         exit_status (main rd w) = 1"
  using main_first_file [OF assms(1), of rd] assms(2) by (simp add: Let_def print_line_def exit_status_def)

theorem main_crash_unprintable_path_witness:
  "filter (wmatch pdf_tokens) (scandir_names latin1_world) = [latin1_name] \<and>
   encode_error (stdout_errors latin1_world) 0
     (py ''Reading PDF: '' @ path_join (cwd latin1_world) latin1_name) = Some (51, 52) \<and>
   main demo_reader latin1_world =
     Inl (UnicodeEncodeError (py ''Reading PDF: '' @ path_join (cwd latin1_world) latin1_name) 51 52,
          latin1_world) \<and>
   exit_status (main demo_reader latin1_world) = 1"
proof -
  have e: "encode_error (stdout_errors latin1_world) 0
             (py ''Reading PDF: '' @ path_join (cwd latin1_world) latin1_name) = Some (51, 52)"
    using latin1_line by (simp add: latin1_world_def demo_world_def)
  show ?thesis
    using main_crash_unprintable_path [where rd = demo_reader, OF latin1_facts(2) e] latin1_facts(2) e by blast
qed

text \<open>
  C31. When standard output can print the working directory's path, every name in the
  directory and every message the library raises (always the case under
  \<open>surrogateescape\<close> for names read from the disk), the script exits with status 0
  whatever happens: no file, a directory, a broken PDF, a refused or impossible write,
  all end normally, as the spec says.
\<close>

theorem main_exit_zero:
  assumes "wf_world w" and "encodable (stdout_errors w) (cwd w)"
    and "list_all (encodable (stdout_errors w)) (map fst (entries w))"
    and "reader_msgs_encodable (stdout_errors w) rd"
  shows "exit_status (main rd w) = 0"
proof -
  have "list_all (encodable (stdout_errors w)) (fst (run_effect rd w))"
    by (rule run_effect_encodable [OF assms])
  then obtain w' where "main rd w = Inr w'" using main_Inr_iff [OF assms(1), of rd] by blast
  then show ?thesis by (simp add: exit_status_def)
qed

theorem main_exit_zero_witness:
  "wf_world (latin1_world\<lparr>stdout_errors := SurrogateEscape\<rparr>)
   \<and> encodable SurrogateEscape (cwd latin1_world)
   \<and> list_all (encodable SurrogateEscape) (map fst (entries latin1_world))
   \<and> reader_msgs_encodable SurrogateEscape demo_reader
   \<and> exit_status (main demo_reader (latin1_world\<lparr>stdout_errors := SurrogateEscape\<rparr>)) = 0"
proof -
  let ?w = "latin1_world\<lparr>stdout_errors := SurrogateEscape\<rparr>"
  have h: "wf_world ?w" "encodable SurrogateEscape (cwd latin1_world)"
    "list_all (encodable SurrogateEscape) (map fst (entries latin1_world))"
    using latin1_facts(1)
    by (simp_all add: wf_world_def latin1_world_def latin1_name_def demo_world_def py_def
        char_encodable_def is_surrogate_def escapable_def)
  have r: "reader_msgs_encodable SurrogateEscape demo_reader"
    by (auto simp: reader_msgs_encodable_def demo_reader_def)
  show ?thesis using main_exit_zero [of ?w demo_reader] h r by simp
qed

theorem main_idempotent_witness:
  "wf_world demo_world \<and>
   entries (final_world (main demo_reader (final_world (main demo_reader demo_world)))) =
     entries (final_world (main demo_reader demo_world)) \<and>
   console (final_world (main demo_reader (final_world (main demo_reader demo_world)))) =
     console (final_world (main demo_reader demo_world)) @
     drop (length (console demo_world)) (console (final_world (main demo_reader demo_world)))"
  using main_idempotent [OF demo_facts(1), of demo_reader] demo_facts(1) by simp

theorem main_frame_witness:
  "wf_world demo_world \<and>
   map_of (entries (final_world (main demo_reader demo_world))) demo_name = map_of (entries demo_world) demo_name
   \<and> cwd (final_world (main demo_reader demo_world)) = cwd demo_world"
proof -
  have "demo_name \<noteq> output_name" by (simp add: demo_name_def output_name_def py_def)
  then show ?thesis using main_frame [OF demo_facts(1), of demo_reader] demo_facts(1) by simp
qed

theorem main_console_appends_witness:
  "wf_world demo_world \<and>
   (\<exists>out. console (final_world (main demo_reader demo_world)) = console demo_world @ out \<and>
      length out \<le> 7 \<and> (exit_status (main demo_reader demo_world) = 0 \<longrightarrow> 1 \<le> length out))"
  using main_console_appends [OF demo_facts(1), of demo_reader] demo_facts(1) by simp

theorem main_report_matches_file_witness:
  "valid_page_texts demo_pages \<and>
   (\<exists>w' file text. main demo_reader demo_world = Inr w' \<and> map_of (entries w') output_name = Some (File file)
      \<and> utf8_decode file = Some text
      \<and> console w' ! (length (console demo_world) + 3)
          = py ''Success! Extracted '' @ str_nat (length text) @ py '' characters.''
      \<and> console w' ! (length (console demo_world) + 5) = take 500 text)"
proof -
  have rd: "demo_reader demo_pdf = Inr (map Inr demo_pages)" by (simp add: demo_reader_def)
  have v: "valid_page_texts demo_pages" by (simp add: valid_page_texts_def demo_pages_def)
  show ?thesis
    using main_report_matches_file [where rd = demo_reader, OF demo_facts(1,2,3) rd v demo_facts(4,5,6,7)] v
    by simp
qed

theorem write_text_decoded_witness:
  "valid_pystr [65, 233] \<and>
   write_text demo_world output_name [65, 233] =
     Inr (demo_world\<lparr>entries := AList.update output_name (File [65, 195, 169]) (entries demo_world)\<rparr>)"
proof -
  have d: "utf8_decode [65, 195, 169] = Some [65, 233]"
    by (simp add: utf8_decode.simps utf8_step_def is_cont_def)
  have n: "output_name \<notin> set (denied demo_world)"
    by (simp add: demo_world_def)
  show ?thesis using write_text_decoded [OF d demo_facts(7) n] .
qed

theorem session_invariant_witness:
  "reader_ok demo_reader \<and> session_inv demo_world \<and>
   reachable demo_reader demo_world
     (env_apply (final_world (main demo_reader demo_world)) (PutFile (py ''a.txt'') [1])) \<and>
   session_inv (env_apply (final_world (main demo_reader demo_world)) (PutFile (py ''a.txt'') [1]))"
proof -
  have ok: "reader_ok demo_reader"
    by (auto simp: reader_ok_def demo_reader_def demo_pages_def page_ok_def py_def)
  have inv: "session_inv demo_world"
    using demo_facts(1) by (simp add: session_inv_def output_decodes_def demo_simps)
  have envok: "env_ok (PutFile (py ''a.txt'') [1])"
    by (simp add: good_name_def output_name_def py_def)
  have r: "reachable demo_reader demo_world
             (env_apply (final_world (main demo_reader demo_world)) (PutFile (py ''a.txt'') [1]))"
    by (rule reachable.step [OF reachable.step [OF reachable.start session_step.run]
          session_step.env [OF envok]])
  show ?thesis using session_invariant [OF ok inv r] ok inv r by simp
qed

subsection \<open>File discovery on the directory tree\<close>

theorem find_pdfs_refines_witness:
  "find_pdfs demo_root (cwd demo_world) = Some [path_join (cwd demo_world) demo_name]"
proof -
  have h1: "abs_dir_path (cwd demo_world)" by (simp add: abs_dir_path_def demo_world_def py_def)
  have h2: "\<not> has_magic (cwd demo_world)" by (simp add: has_magic_def demo_world_def py_def)
  have h3: "lookup_path demo_root (cwd demo_world) (cwd demo_world) = Some (dir_of_world demo_world)"
    by (simp add: lookup_path_def demo_root_def demo_world_def py_def split_slash.simps)
  have "glob_cwd demo_world pdf_pattern pdf_tokens = [path_join (cwd demo_world) demo_name]"
    using demo_facts(2) by (simp add: glob_cwd_pdf)
  then show ?thesis using find_pdfs_refines [OF h1 h2 h3] by simp
qed

text \<open>
  Line 8 joins the working directory to the pattern without \<open>glob.escape\<close>: when
  the directory is \<open>/data/q?\<close> and its sibling \<open>/data/qa\<close> is listed first,
  \<open>glob.glob\<close> treats \<open>q?\<close> as a wildcard and its first result, \<open>files[0]\<close>,
  is the sibling's PDF, not the one in the working directory. (The model of \<open>main\<close>
  discovers files with \<open>glob_cwd\<close>, which equals line 8 only when the path has no
  wildcard, C25; this computation is the counterexample to that condition.)
\<close>

lemma glob_magic_cwd_sibling:
  "find_pdfs sibling_root magic_cwd =
     Some [py ''/data/qa/BKGR Lettre Quotidienne 2.pdf'', py ''/data/q?/BKGR Lettre Quotidienne 1.pdf'']"
  by (simp add: find_pdfs_def glob_glob_def iglob_unfold sibling_root_def magic_cwd_def path_split_def
      pdf_pattern_def pdf_prefix_def pdf_suffix_def py_def has_magic_def glob_in_dir_def
      glob1_dir_def glob1_def listdir_def lookup_path_def split_slash.simps
      fnmatch_translate_def glob_ishidden_def path_join_def)

theorem output_dir_persists_witness:
  "wf_world outdir_world \<and> dir_entry outdir_world output_name \<and>
   reachable demo_reader outdir_world (final_world (main demo_reader outdir_world)) \<and>
   dir_entry (final_world (main demo_reader outdir_world)) output_name \<and>
   map_of (entries (final_world (main demo_reader outdir_world))) output_name = Some (Dir True [])"
proof -
  have h: "wf_world outdir_world" "dir_entry outdir_world output_name"
    "map_of (entries outdir_world) output_name = Some (Dir True [])"
    by (simp_all add: outdir_world_def demo_simps dir_entry_def)
  have r: "reachable demo_reader outdir_world (final_world (main demo_reader outdir_world))"
    by (rule reachable.step [OF reachable.start session_step.run])
  show ?thesis using Session.output_dir_persists [OF h(1,2) r] h r by simp
qed


theorem find_pdfs_sound_witness:
  "find_pdfs sibling_root magic_cwd =
     Some [py ''/data/qa/BKGR Lettre Quotidienne 2.pdf'', py ''/data/q?/BKGR Lettre Quotidienne 1.pdf''] \<and>
   list_all (\<lambda>p. \<exists>d n. p = path_join d n \<and> n \<in> set (listdir sibling_root magic_cwd d False) \<and>
                        (\<exists>m. n = pdf_prefix @ m @ pdf_suffix))
     [py ''/data/qa/BKGR Lettre Quotidienne 2.pdf'', py ''/data/q?/BKGR Lettre Quotidienne 1.pdf'']"
proof -
  obtain fs where "find_pdfs sibling_root magic_cwd = Some fs"
    and "\<forall>p\<in>set fs. \<exists>d n. p = path_join d n \<and> n \<in> set (listdir sibling_root magic_cwd d False) \<and>
                         (\<exists>m. n = pdf_prefix @ m @ pdf_suffix)"
    using GlobTree.find_pdfs_sound [of sibling_root magic_cwd] by blast
  then show ?thesis using glob_magic_cwd_sibling by (simp add: list_all_iff)
qed

end
